theory Spec2Isabelle
  imports Main
begin

section \<open>Strings\<close>

text \<open>
  JavaScript strings are modelled as HOL \<open>string\<close>s: every code unit is one \<open>char\<close>
  (the Latin-1 range). \<open>is_space\<close> is the white space that \<open>String.prototype.trim\<close>
  and the regular-expression class \<open>\s\<close> recognise in that range: tab, line feed,
  vertical tab, form feed, carriage return, space and no-break space.
\<close>

definition is_space :: "char \<Rightarrow> bool" where
  "is_space c = (c \<in> set [CHR 0x09, CHR 0x0A, CHR 0x0B, CHR 0x0C, CHR 0x0D, CHR 0x20, CHR 0xA0])"

definition trim :: "string \<Rightarrow> string" where
  "trim s = rev (dropWhile is_space (rev (dropWhile is_space s)))"

definition startsWith :: "string \<Rightarrow> string \<Rightarrow> bool" where
  "startsWith s p = (take (length p) s = p)"

text \<open>\<open>a || b\<close> on strings that may be \<open>undefined\<close>: the empty string is falsy too.\<close>

definition truthy :: "string option \<Rightarrow> bool" where
  "truthy v = (case v of None \<Rightarrow> False | Some s \<Rightarrow> s \<noteq> [])"

definition or_else :: "string option \<Rightarrow> string \<Rightarrow> string" where
  "or_else v d = (case v of None \<Rightarrow> d | Some s \<Rightarrow> if s = [] then d else s)"

section \<open>The model table of the LLM client (llm-client.js)\<close>

datatype provider = openai | anthropic

datatype tier = premium | advanced | standard

text \<open>
  One entry of \<open>this.modelConfig\<close>. The \<open>temperature\<close> field is 0.7 in every entry and is
  only handed on to the provider; it is left out.
\<close>

record model_config =
  cfg_provider :: provider
  modelName :: string
  maxTokens :: nat
  cfg_tier :: tier
  cfg_capabilities :: "string list"

definition modelConfig :: "(string \<times> model_config) list" where
  "modelConfig =
    [(''claude-sonnet-4'',
       \<lparr>cfg_provider = anthropic, modelName = ''claude-sonnet-4-20250514'', maxTokens = 60000,
        cfg_tier = premium,
        cfg_capabilities = [''comprehensive'', ''detailed'', ''analytical'', ''thoughtful'', ''advanced'']\<rparr>),
     (''gpt-4.1'',
       \<lparr>cfg_provider = openai, modelName = ''gpt-4.1-2025-04-14'', maxTokens = 32000,
        cfg_tier = premium,
        cfg_capabilities = [''advanced'', ''nuanced'', ''precise'', ''technical'', ''comprehensive'']\<rparr>),
     (''gpt-4o'',
       \<lparr>cfg_provider = openai, modelName = ''gpt-4o'', maxTokens = 8000,
        cfg_tier = advanced,
        cfg_capabilities = [''creative'', ''analytical'', ''technical'', ''fast'']\<rparr>),
     (''gpt-4-turbo'',
       \<lparr>cfg_provider = openai, modelName = ''gpt-4-turbo-preview'', maxTokens = 4000,
        cfg_tier = advanced,
        cfg_capabilities = [''analytical'', ''comprehensive'', ''reliable'', ''fast'']\<rparr>),
     (''claude-3-5-sonnet'',
       \<lparr>cfg_provider = anthropic, modelName = ''claude-3-5-sonnet-20241022'', maxTokens = 6000,
        cfg_tier = standard,
        cfg_capabilities = [''balanced'', ''reliable'', ''clear'']\<rparr>)]"

section \<open>Errors\<close>

text \<open>
  Every \<open>throw\<close> of the two backend files and every \<open>{ error: ... }\<close> result of the
  orchestrator is one constructor; the comment gives the message of the source.
\<close>

datatype error =
    UnknownModel string                 \<comment> \<open>\<open>Unknown model: <id>\<close>\<close>
  | KeyNotConfigured provider           \<comment> \<open>\<open>OpenAI API key not configured\<close>, \<open>Anthropic ...\<close>\<close>
  | ProviderCallError provider string   \<comment> \<open>\<open>OpenAI API error: <message>\<close>, \<open>Anthropic ...\<close>\<close>
  | PromptTooLong string nat            \<comment> \<open>\<open>Prompt too long for <id>: <n> tokens (max: ...)\<close>\<close>
  | NoModelsAvailable                   \<comment> \<open>\<open>No LLM models available for prompt analysis\<close>\<close>
  | TypeError string                    \<comment> \<open>a property read on \<open>undefined\<close>\<close>
  | SessionNotFound                     \<comment> \<open>\<open>Session not found\<close>\<close>
  | NoPendingClarifications             \<comment> \<open>\<open>No pending clarifications for this session\<close>\<close>
  | ValidationErrors "string list"      \<comment> \<open>\<open>Validation errors: <list joined by ', '>\<close>\<close>

section \<open>The external provider and the clock\<close>

text \<open>
  The two vendor SDKs are outside the program. One request is an \<open>ext_call\<close>; its outcome is
  \<open>Rejected\<close> (anything thrown inside the \<open>try\<close> block of the calling method, with its
  message) or \<open>Replied\<close> with the text parts of the response: the \<open>choices\<close> of an OpenAI
  completion, the text deltas of an Anthropic stream, or the content blocks of an Anthropic
  message. The outcome of the \<open>k\<close>-th request (counting from 0) is \<open>ext k call\<close>, for an
  arbitrary function \<open>ext\<close>, so every sequence of provider behaviours is covered.
  \<open>clock k\<close> is the reading of \<open>Date.now()\<close> after \<open>k\<close> generation calls, and \<open>numfmt\<close>
  stands for JavaScript's \<open>String(parseFloat(s))\<close>, which is floating-point arithmetic.
\<close>

record ext_call =
  ec_provider :: provider
  ec_model :: string
  ec_max_tokens :: nat
  ec_prompt :: string

datatype ext_reply = Rejected string | Replied "string list"

record externals =
  ext :: "nat \<Rightarrow> ext_call \<Rightarrow> ext_reply"
  clock :: "nat \<Rightarrow> int"
  numfmt :: "string \<Rightarrow> string"

section \<open>The LLM client (llm-client.js)\<close>

text \<open>
  \<open>gen_log\<close> and \<open>ext_log\<close> are ghost fields: the calls of \<open>generateResponse\<close> in order,
  each with its outcome, and the requests that reached a provider.
\<close>

record api_keys =
  key_openai :: "string option"
  key_anthropic :: "string option"

record gen_call =
  gc_model :: string
  gc_prompt :: string
  gc_outcome :: "error + string"

record llm_client =
  openaiClient :: "string option"
  anthropicClient :: "string option"
  apiKeys :: api_keys
  gen_log :: "gen_call list"
  ext_log :: "ext_call list"

definition new_LLMClient :: llm_client where
  "new_LLMClient =
    \<lparr>openaiClient = None, anthropicClient = None,
     apiKeys = \<lparr>key_openai = None, key_anthropic = None\<rparr>,
     gen_log = [], ext_log = []\<rparr>"

definition llm_setApiKeys :: "llm_client \<Rightarrow> api_keys \<Rightarrow> llm_client" where
  "llm_setApiKeys c ks =
    (let c1 = c\<lparr>apiKeys := ks\<rparr>;
         c2 = (if truthy (key_openai ks) then c1\<lparr>openaiClient := key_openai ks\<rparr> else c1)
     in if truthy (key_anthropic ks) then c2\<lparr>anthropicClient := key_anthropic ks\<rparr> else c2)"

definition call_provider :: "externals \<Rightarrow> llm_client \<Rightarrow> ext_call \<Rightarrow> ext_reply \<times> llm_client" where
  "call_provider x c call = (ext x (length (ext_log c)) call, c\<lparr>ext_log := ext_log c @ [call]\<rparr>)"

definition generateOpenAIResponse ::
  "externals \<Rightarrow> llm_client \<Rightarrow> model_config \<Rightarrow> string \<Rightarrow> (error + string) \<times> llm_client" where
  "generateOpenAIResponse x c config prompt =
    (if openaiClient c = None then (Inl (KeyNotConfigured openai), c)
     else
       (case call_provider x c
               \<lparr>ec_provider = openai, ec_model = modelName config,
                ec_max_tokens = maxTokens config, ec_prompt = prompt\<rparr> of
          (Rejected msg, c') \<Rightarrow> (Inl (ProviderCallError openai msg), c')
        | (Replied [], c') \<Rightarrow>
            (Inl (ProviderCallError openai ''No response generated from OpenAI''), c')
        | (Replied (content # _), c') \<Rightarrow> (Inr (trim content), c')))"

definition generateAnthropicResponse ::
  "externals \<Rightarrow> llm_client \<Rightarrow> model_config \<Rightarrow> string \<Rightarrow> (error + string) \<times> llm_client" where
  "generateAnthropicResponse x c config prompt =
    (if anthropicClient c = None then (Inl (KeyNotConfigured anthropic), c)
     else
       (case call_provider x c
               \<lparr>ec_provider = anthropic, ec_model = modelName config,
                ec_max_tokens = maxTokens config, ec_prompt = prompt\<rparr> of
          (Rejected msg, c') \<Rightarrow> (Inl (ProviderCallError anthropic msg), c')
        | (Replied parts, c') \<Rightarrow>
            (if maxTokens config > 4000 then
               (if trim (concat parts) = []
                then (Inl (ProviderCallError anthropic ''No response generated from Anthropic''), c')
                else (Inr (trim (concat parts)), c'))
             else
               (case parts of
                  [] \<Rightarrow> (Inl (ProviderCallError anthropic ''No response generated from Anthropic''), c')
                | text # _ \<Rightarrow> (Inr (trim text), c')))))"

text \<open>
  \<open>generateResponse(modelId, prompt)\<close>; every call of the repository leaves \<open>options\<close> at its
  default \<open>{}\<close>, so the limits are those of the table. The call is appended to \<open>gen_log\<close>
  whatever its outcome.
\<close>

definition generateResponse ::
  "externals \<Rightarrow> llm_client \<Rightarrow> string \<Rightarrow> string \<Rightarrow> (error + string) \<times> llm_client" where
  "generateResponse x c modelId prompt =
    (let (r, c') =
       (case map_of modelConfig modelId of
          None \<Rightarrow> (Inl (UnknownModel modelId), c)
        | Some config \<Rightarrow>
            (case cfg_provider config of
               openai \<Rightarrow> generateOpenAIResponse x c config prompt
             | anthropic \<Rightarrow> generateAnthropicResponse x c config prompt))
     in (r, c'\<lparr>gen_log := gen_log c' @ [\<lparr>gc_model = modelId, gc_prompt = prompt, gc_outcome = r\<rparr>]\<rparr>))"

definition estimateTokenCount :: "string \<Rightarrow> nat" where
  "estimateTokenCount text = (length text + 3) div 4"

text \<open>
  \<open>validatePromptLength\<close>: \<open>estimatedTokens > config.maxTokens * 0.7\<close>. The left side is an
  integer and, for the five budgets of the table, the double product is the integer
  \<open>7 * maxTokens / 10\<close> exactly, so the comparison is the one on integers below. An id
  outside the table makes \<open>config.maxTokens\<close> a read on \<open>undefined\<close>.
\<close>

definition validatePromptLength :: "string \<Rightarrow> string \<Rightarrow> error + bool" where
  "validatePromptLength modelId prompt =
    (case map_of modelConfig modelId of
       None \<Rightarrow> Inl (TypeError ''maxTokens'')
     | Some config \<Rightarrow>
         (if 10 * estimateTokenCount prompt > 7 * maxTokens config
          then Inl (PromptTooLong modelId (estimateTokenCount prompt))
          else Inr True))"

section \<open>Rendering numbers and joining lists\<close>

text \<open>
  \<open>show_nat\<close> and \<open>show_int\<close> are the decimal rendering that a template literal gives an
  integer-valued number (below \<open>10^21\<close>, where JavaScript switches to exponents);
  \<open>join\<close> is \<open>Array.prototype.join\<close>.
\<close>

function show_nat :: "nat \<Rightarrow> string" where
  "show_nat n = (if n < 10 then [''0123456789'' ! n] else show_nat (n div 10) @ [''0123456789'' ! (n mod 10)])"
  by pat_completeness auto
termination
  by (relation "measure id") auto

declare show_nat.simps [simp del]

definition show_int :: "int \<Rightarrow> string" where
  "show_int i = (if i < 0 then ''-'' @ show_nat (nat (- i)) else show_nat (nat i))"

fun join :: "string \<Rightarrow> string list \<Rightarrow> string" where
  "join sep [] = []"
| "join sep [s] = s"
| "join sep (s # t # ts) = s @ sep @ join sep (t # ts)"

section \<open>The orchestrator's data (refinement-orchestrator.js)\<close>

record model_descriptor =
  md_id :: string
  md_name :: string
  md_provider :: provider
  md_capabilities :: "string list"

definition availableModels :: "model_descriptor list" where
  "availableModels =
    [\<lparr>md_id = ''gpt-4o'', md_name = ''GPT-4o'', md_provider = openai,
      md_capabilities = [''creative'', ''analytical'', ''technical'']\<rparr>,
     \<lparr>md_id = ''gpt-4-turbo'', md_name = ''GPT-4 Turbo'', md_provider = openai,
      md_capabilities = [''analytical'', ''comprehensive'', ''fast'']\<rparr>,
     \<lparr>md_id = ''gpt-4.1'', md_name = ''GPT-4.1'', md_provider = openai,
      md_capabilities = [''advanced'', ''nuanced'', ''precise'']\<rparr>,
     \<lparr>md_id = ''claude-sonnet-4'', md_name = ''Claude 4 Sonnet'', md_provider = anthropic,
      md_capabilities = [''thoughtful'', ''detailed'', ''analytical'']\<rparr>,
     \<lparr>md_id = ''claude-3-5-sonnet'', md_name = ''Claude 3.5 Sonnet'', md_provider = anthropic,
      md_capabilities = [''balanced'', ''reliable'', ''clear'']\<rparr>]"

datatype operation = initial_generation | critique | improvement | final_review

record history_entry =
  h_iteration :: nat
  h_model :: string
  h_type :: operation
  h_input :: string
  h_output :: string
  h_timestamp :: int

record usage =
  u_model :: string
  operations :: "(operation \<times> nat) list"
  totalUsage :: nat

record question =
  q_id :: string
  q_text :: string

text \<open>The \<open>models\<close> argument of \<open>startRefinementProcess\<close>; an absent field is \<open>None\<close>.\<close>

record model_selection =
  primaryModel :: string
  refinementModel :: string
  sel_finalReviewModel :: "string option"
  sel_handoffStrategy :: "string option"

text \<open>
  A step of \<open>generateProcessSteps\<close>, without its display texts (\<open>title\<close>,
  \<open>description\<close>, \<open>status\<close>).
\<close>

record process_step =
  step_id :: string
  step_type :: string
  step_iteration :: nat
  step_modelId :: "string option"

text \<open>
  The session object. A progress callback is an opaque token. \<open>pendingClarifications\<close> is
  \<open>None\<close> while the property is absent or \<open>null\<close>.
\<close>

record session =
  s_id :: string
  originalPrompt :: string
  refinedPrompt :: "string option"
  models :: model_selection
  targetIterations :: nat
  currentIteration :: nat
  completedIterations :: nat
  steps :: "process_step list"
  startTime :: int
  handoffStrategy :: string
  iterationHistory :: "history_entry list"
  modelUsageStats :: "(string \<times> usage) list"
  finalReviewModel :: "string option"
  progressCallback :: "nat option"
  pendingClarifications :: "question list option"

record pipeline_result =
  r_originalPrompt :: string
  r_refinedPrompt :: "string option"
  finalOutput :: string
  r_iterationHistory :: "history_entry list"
  sessionDuration :: int
  r_targetIterations :: nat
  r_completedIterations :: nat
  r_handoffStrategy :: string
  r_modelUsageStats :: "(string \<times> usage) list"

text \<open>
  What a progress callback receives, without the \<open>message\<close> text and the time stamp.
\<close>

record progress_event =
  pe_callback :: nat
  pe_sessionId :: string
  pe_phase :: string
  pe_currentIteration :: nat
  pe_totalIterations :: nat
  pe_model :: "string option"
  pe_result :: "pipeline_result option"

record orchestrator =
  llmClient :: llm_client
  enabledModels :: "model_descriptor list option"
  activeSessions :: "string \<rightharpoonup> session"
  progress_log :: "progress_event list"

text \<open>What the two public operations return to their caller.\<close>

datatype reply =
    Failed error
  | NeedsClarification string "question list"
  | Complete string pipeline_result

definition new_RefinementOrchestrator :: orchestrator where
  "new_RefinementOrchestrator =
    \<lparr>llmClient = new_LLMClient, enabledModels = None, activeSessions = Map.empty,
     progress_log = []\<rparr>"

section \<open>Credentials and the enabled models\<close>

definition has_key :: "api_keys \<Rightarrow> provider \<Rightarrow> bool" where
  "has_key ks p = (case p of openai \<Rightarrow> key_openai ks \<noteq> None | anthropic \<Rightarrow> key_anthropic ks \<noteq> None)"

definition validate_key :: "string \<Rightarrow> string option \<Rightarrow> string option" where
  "validate_key prefix k =
    (case k of
       None \<Rightarrow> None
     | Some v \<Rightarrow> if v \<noteq> [] \<and> startsWith (trim v) prefix then Some (trim v) else None)"

definition updateAvailableModels :: "orchestrator \<Rightarrow> api_keys \<Rightarrow> orchestrator" where
  "updateAvailableModels orc ks =
    orc\<lparr>enabledModels := Some (filter (\<lambda>m. has_key ks (md_provider m)) availableModels)\<rparr>"

definition setApiKeys :: "orchestrator \<Rightarrow> api_keys \<Rightarrow> orchestrator" where
  "setApiKeys orc ks =
    (let validatedKeys =
           \<lparr>key_openai = validate_key ''sk-'' (key_openai ks),
            key_anthropic = validate_key ''sk-ant-'' (key_anthropic ks)\<rparr>
     in updateAvailableModels (orc\<lparr>llmClient := llm_setApiKeys (llmClient orc) validatedKeys\<rparr>)
          validatedKeys)"

text \<open>\<open>this.enabledModels || this.availableModels\<close>: an array, even an empty one, is truthy.\<close>

definition getAvailableModels :: "orchestrator \<Rightarrow> model_descriptor list" where
  "getAvailableModels orc = (case enabledModels orc of None \<Rightarrow> availableModels | Some ms \<Rightarrow> ms)"

definition getModelById :: "string \<Rightarrow> model_descriptor option" where
  "getModelById modelId = find (\<lambda>m. md_id m = modelId) availableModels"

section \<open>The client's view of the available models\<close>

definition isModelAvailable :: "llm_client \<Rightarrow> string \<Rightarrow> bool" where
  "isModelAvailable c modelId =
    (case map_of modelConfig modelId of
       None \<Rightarrow> False
     | Some config \<Rightarrow>
         (case cfg_provider config of
            openai \<Rightarrow> openaiClient c \<noteq> None
          | anthropic \<Rightarrow> anthropicClient c \<noteq> None))"

definition tierOrder :: "tier \<Rightarrow> nat" where
  "tierOrder t = (case t of premium \<Rightarrow> 0 | advanced \<Rightarrow> 1 | standard \<Rightarrow> 2)"

definition tier_of :: "string \<Rightarrow> tier option" where
  "tier_of modelId = map_option cfg_tier (map_of modelConfig modelId)"

text \<open>The sort of \<open>getAvailableModels\<close> is stable, as \<open>sort_key\<close> is.\<close>

definition llm_getAvailableModels :: "llm_client \<Rightarrow> string list" where
  "llm_getAvailableModels c =
    sort_key (\<lambda>m. case tier_of m of None \<Rightarrow> 0 | Some t \<Rightarrow> tierOrder t)
      (filter (isModelAvailable c) (map fst modelConfig))"

definition getFinalReviewModels :: "llm_client \<Rightarrow> string list" where
  "getFinalReviewModels c =
    (let available = llm_getAvailableModels c
     in filter (\<lambda>m. tier_of m = Some premium) available @
        filter (\<lambda>m. tier_of m = Some advanced) available @
        filter (\<lambda>m. tier_of m = Some standard) available)"

definition preferredOrder :: "string list" where
  "preferredOrder = [''claude-sonnet-4'', ''gpt-4.1'', ''gpt-4o'', ''gpt-4-turbo'', ''claude-3-5-sonnet'']"

definition getBestFinalReviewModel :: "llm_client \<Rightarrow> string option" where
  "getBestFinalReviewModel c =
    (let finalReviewModels = getFinalReviewModels c
     in case find (\<lambda>preferred. preferred \<in> set finalReviewModels) preferredOrder of
          Some preferred \<Rightarrow> Some preferred
        | None \<Rightarrow> (case finalReviewModels of [] \<Rightarrow> None | m # _ \<Rightarrow> Some m))"

section \<open>Handoff strategies\<close>

text \<open>
  \<open>selectModelByCapabilities(requiredCapabilities, excludeModel)\<close>: the candidates are
  scored and sorted by descending score (a stable sort); \<open>None\<close> is \<open>undefined\<close>.
\<close>

definition selectModelByCapabilities ::
  "orchestrator \<Rightarrow> string list \<Rightarrow> string option \<Rightarrow> string option" where
  "selectModelByCapabilities orc requiredCapabilities excludeModel =
    (let candidateModels =
           filter (\<lambda>m. \<not> (truthy excludeModel \<and> Some (md_id m) = excludeModel) \<and>
                        (\<exists>cap \<in> set requiredCapabilities. cap \<in> set (md_capabilities m)))
             (getAvailableModels orc)
     in if candidateModels = [] then
          (case filter (\<lambda>m. Some (md_id m) \<noteq> excludeModel) (getAvailableModels orc) of
             m # _ \<Rightarrow> Some (md_id m)
           | [] \<Rightarrow> (case getAvailableModels orc of [] \<Rightarrow> None | m # _ \<Rightarrow> Some (md_id m)))
        else
          (let scoredModels =
                 map (\<lambda>m. (m, length (filter (\<lambda>cap. cap \<in> set (md_capabilities m))
                                          requiredCapabilities)))
                   candidateModels
           in case sort_key (\<lambda>(m, score). - int score) scoredModels of
                [] \<Rightarrow> None
              | (m, _) # _ \<Rightarrow> Some (md_id m)))"

datatype strategy = cross_provider | capability_progression | model_specialization

text \<open>\<open>this.handoffStrategies[name]\<close>; \<open>None\<close> is \<open>undefined\<close>.\<close>

definition handoffStrategies :: "string \<Rightarrow> strategy option" where
  "handoffStrategies name =
    map_of [(''cross_provider'', cross_provider),
            (''capability_progression'', capability_progression),
            (''model_specialization'', model_specialization)] name"

definition cross_provider_getNextModel :: "string \<Rightarrow> nat \<Rightarrow> nat \<Rightarrow> string option" where
  "cross_provider_getNextModel currentModel iteration totalIterations =
    (let openaiModels = filter (\<lambda>m. md_provider m = openai) availableModels;
         anthropicModels = filter (\<lambda>m. md_provider m = anthropic) availableModels;
         currentProvider = map_option md_provider (getModelById currentModel)
     in if currentProvider = Some openai
        then (if anthropicModels = [] then None
              else Some (md_id (anthropicModels ! (iteration mod length anthropicModels))))
        else (if openaiModels = [] then None
              else Some (md_id (openaiModels ! (iteration mod length openaiModels)))))"

definition capability_phaseMap :: "(string \<times> string list) list" where
  "capability_phaseMap =
    [(''initial'', [''creative'', ''comprehensive'']),
     (''critique'', [''analytical'', ''thoughtful'']),
     (''improvement'', [''precise'', ''nuanced'']),
     (''final'', [''detailed'', ''reliable''])]"

definition capability_progression_getNextModel ::
  "orchestrator \<Rightarrow> string \<Rightarrow> nat \<Rightarrow> nat \<Rightarrow> string \<Rightarrow> string option" where
  "capability_progression_getNextModel orc currentModel iteration totalIterations phase =
    (let requiredCapabilities =
           (case map_of capability_phaseMap phase of None \<Rightarrow> [''balanced''] | Some caps \<Rightarrow> caps)
     in selectModelByCapabilities orc requiredCapabilities (Some currentModel))"

definition specializationMap :: "(string \<times> string) list" where
  "specializationMap =
    [(''creative_generation'', ''gpt-4o''),
     (''analytical_critique'', ''claude-sonnet-4''),
     (''technical_improvement'', ''gpt-4.1''),
     (''comprehensive_review'', ''claude-sonnet-4'')]"

definition phaseToSpecialization :: "(string \<times> string) list" where
  "phaseToSpecialization =
    [(''initial'', ''creative_generation''),
     (''critique'', ''analytical_critique''),
     (''improvement'', ''technical_improvement''),
     (''final'', ''comprehensive_review'')]"

text \<open>
  \<open>specializationMap[phaseToSpecialization[phase]] || currentModel\<close>: a phase without an
  entry gives \<open>undefined\<close>, which is no key of the specialization table either.
\<close>

definition model_specialization_getNextModel ::
  "string \<Rightarrow> nat \<Rightarrow> nat \<Rightarrow> string \<Rightarrow> string" where
  "model_specialization_getNextModel currentModel iteration totalIterations phase =
    or_else
      (case map_of phaseToSpecialization phase of
         None \<Rightarrow> None
       | Some specialization \<Rightarrow> map_of specializationMap specialization)
      currentModel"

definition getNextModel ::
  "orchestrator \<Rightarrow> strategy \<Rightarrow> string \<Rightarrow> nat \<Rightarrow> nat \<Rightarrow> string \<Rightarrow> string option" where
  "getNextModel orc st currentModel iteration totalIterations phase =
    (case st of
       cross_provider \<Rightarrow> cross_provider_getNextModel currentModel iteration totalIterations
     | capability_progression \<Rightarrow>
         capability_progression_getNextModel orc currentModel iteration totalIterations phase
     | model_specialization \<Rightarrow>
         Some (model_specialization_getNextModel currentModel iteration totalIterations phase))"


section \<open>Prompt construction\<close>

text \<open>A value that may be \<open>null\<close>, as a template literal or a property key renders it.\<close>

definition js_text :: "string option \<Rightarrow> string" where
  "js_text v = (case v of None \<Rightarrow> ''null'' | Some s \<Rightarrow> s)"

text \<open>
  \<open>buildCritiquePrompt(originalPrompt, currentResponse, iteration, totalIterations,
  iterationHistory)\<close>. \<open>iteration <= totalIterations/2\<close> is a comparison of reals, hence
  \<open>2 * iteration \<le> totalIterations\<close>.
\<close>

definition buildCritiquePrompt ::
  "string \<Rightarrow> string \<Rightarrow> int \<Rightarrow> int \<Rightarrow> history_entry list \<Rightarrow> string" where
  "buildCritiquePrompt original currentResponse iteration totalIterations history =
    (let previousCritiques =
           join ''\<newline>''
             (map (\<lambda>h. ''Iteration '' @ show_nat (h_iteration h) @ '': '' @ take 200 (h_output h) @ ''...'')
                (filter (\<lambda>h. h_type h = critique) history))
     in
     ''You are an expert content critic and improvement specialist conducting iteration '' @
     show_int iteration @
     '' of '' @
     show_int totalIterations @
     '' in a collaborative refinement process.\<newline>'' @
     ''\<newline>'' @
     ''**Original Request:**\<newline>'' @
     original @
     ''\<newline>'' @
     ''\<newline>'' @
     ''**Current Response (After '' @
     show_int (iteration - 1) @
     '' iterations):**\<newline>'' @
     currentResponse @
     ''\<newline>'' @
     ''\<newline>'' @
     (if previousCritiques \<noteq> [] then ''**Previous Critique Themes:**\<newline>'' @ previousCritiques @ ''\<newline>'' else []) @
     ''\<newline>'' @
     ''\<newline>'' @
     ''**Your Task for Iteration '' @
     show_int iteration @
     ''/'' @
     show_int totalIterations @
     '':**\<newline>'' @
     ''1. Evaluate how well the response addresses the original request\<newline>'' @
     ''2. Identify specific areas for improvement not covered in previous iterations\<newline>'' @
     ''3. Focus on '' @
     (if 2 * iteration \<le> totalIterations then ''structural and content improvements'' else ''refinement and polish'') @
     ''\<newline>'' @
     ''4. Suggest concrete changes to enhance quality, clarity, accuracy, and completeness\<newline>'' @
     ''5. Consider the target audience and purpose\<newline>'' @
     ''6. Prioritize the most impactful improvements for this iteration\<newline>'' @
     ''\<newline>'' @
     ''**Provide your critique in this format:**\<newline>'' @
     ''STRENGTHS: [What the response does well]\<newline>'' @
     ''AREAS FOR IMPROVEMENT: [Specific issues to address that haven't been covered before]\<newline>'' @
     ''CONCRETE SUGGESTIONS: [Actionable improvements to implement]\<newline>'' @
     ''PRIORITY: [Rank improvements by impact - focus on top 2-3]\<newline>'' @
     ''ITERATION FOCUS: [What should this iteration specifically achieve?]\<newline>'' @
     ''\<newline>'' @
     ''Be specific, constructive, and focus on improvements that will have the greatest positive impact while building on previous iterations.'')"

definition buildImprovementPrompt ::
  "string \<Rightarrow> string \<Rightarrow> string \<Rightarrow> int \<Rightarrow> int \<Rightarrow> history_entry list \<Rightarrow> string" where
  "buildImprovementPrompt original currentResponse critiqueText iteration totalIterations history =
    (let progressContext =
           (if 2 * iteration \<le> totalIterations
            then ''major structural and content improvements''
            else ''refinement, polish, and final optimization'')
     in
     ''You are implementing iteration '' @
     show_int iteration @
     '' of '' @
     show_int totalIterations @
     '' in a collaborative refinement process. Focus on '' @
     progressContext @
     ''.\<newline>'' @
     ''\<newline>'' @
     ''**Original Request:**\<newline>'' @
     original @
     ''\<newline>'' @
     ''\<newline>'' @
     ''**Current Response:**\<newline>'' @
     currentResponse @
     ''\<newline>'' @
     ''\<newline>'' @
     ''**Expert Feedback for Iteration '' @
     show_int iteration @
     '':**\<newline>'' @
     critiqueText @
     ''\<newline>'' @
     ''\<newline>'' @
     ''**Iteration Context:**\<newline>'' @
     ''- This is iteration '' @
     show_int iteration @
     '' of '' @
     show_int totalIterations @
     ''\<newline>'' @
     ''- '' @
     (if 2 * iteration \<le> totalIterations then ''Focus on major improvements and content development'' else ''Focus on refinement, clarity, and polish'') @
     ''\<newline>'' @
     ''- Previous iterations have already addressed earlier feedback\<newline>'' @
     ''\<newline>'' @
     ''**Your Task:**\<newline>'' @
     ''1. Implement the suggested improvements from the expert feedback\<newline>'' @
     ''2. Maintain the strengths and positive aspects of the current response\<newline>'' @
     ''3. Ensure the improved response fully addresses the original request\<newline>'' @
     ''4. '' @
     (if iteration = totalIterations then ''Prepare for final review - ensure completeness'' else ''Set up for next iteration'') @
     ''\<newline>'' @
     ''5. Make the content more engaging, clear, and valuable\<newline>'' @
     ''\<newline>'' @
     ''**Important Guidelines:**\<newline>'' @
     ''- Focus on the highest-priority improvements first\<newline>'' @
     ''- Maintain consistency in tone and style throughout\<newline>'' @
     ''- Ensure factual accuracy in any additions or changes\<newline>'' @
     ''- Keep the response well-organized and easy to follow\<newline>'' @
     ''- Build upon the work of previous iterations\<newline>'' @
     ''\<newline>'' @
     ''Provide the improved response:'')"

text \<open>
  The keys of the object that \<open>reduce\<close> builds in \<open>buildFinalReviewPrompt\<close>: the models of
  the history in the order of their first entry (model ids are not integer-like keys).
\<close>

fun first_occurrences :: "string list \<Rightarrow> string list" where
  "first_occurrences [] = []"
| "first_occurrences (m # ms) = m # first_occurrences (filter (\<lambda>k. k \<noteq> m) ms)"

definition buildFinalReviewPrompt ::
  "string \<Rightarrow> string \<Rightarrow> nat \<Rightarrow> history_entry list \<Rightarrow> string" where
  "buildFinalReviewPrompt original finalResponse completed history =
    (let modelSummary = first_occurrences (map h_model history)
     in
     ''You are conducting the final quality review of a collaboratively refined response that has undergone '' @
     show_nat completed @
     '' iterations of improvement.\<newline>'' @
     ''\<newline>'' @
     ''**Original Request:**\<newline>'' @
     original @
     ''\<newline>'' @
     ''\<newline>'' @
     ''**Final Response After '' @
     show_nat completed @
     '' Iterations:**\<newline>'' @
     finalResponse @
     ''\<newline>'' @
     ''\<newline>'' @
     ''**Collaborative Process Summary:**\<newline>'' @
     ''- Models involved: '' @
     join '', '' modelSummary @
     ''\<newline>'' @
     ''- Total refinement steps: '' @
     show_nat (length history) @
     ''\<newline>'' @
     ''- Completed iterations: '' @
     show_nat completed @
     ''\<newline>'' @
     ''\<newline>'' @
     ''**Your Task:**\<newline>'' @
     ''Provide the final, polished version that:\<newline>'' @
     ''1. Fully addresses all aspects of the original request\<newline>'' @
     ''2. Is clear, engaging, and well-structured\<newline>'' @
     ''3. Contains accurate and valuable information\<newline>'' @
     ''4. Uses appropriate tone and style\<newline>'' @
     ''5. Is free of errors and inconsistencies\<newline>'' @
     ''6. Represents the best possible outcome from collaborative refinement\<newline>'' @
     ''\<newline>'' @
     ''**Quality Standards:**\<newline>'' @
     ''- Professional-grade output ready for immediate use\<newline>'' @
     ''- Incorporates insights from all previous iterations\<newline>'' @
     ''- Demonstrates clear improvement over the original response\<newline>'' @
     ''- Meets or exceeds user expectations\<newline>'' @
     ''\<newline>'' @
     ''If the response is already excellent, you may make only minor polish improvements. If significant issues remain despite the iterations, provide a corrected version with explanation.\<newline>'' @
     ''\<newline>'' @
     ''Final Response:'')"

section \<open>Usage statistics and progress events\<close>

text \<open>
  \<open>upd k f d\<close> updates the value under key \<open>k\<close> of an insertion-ordered table by \<open>f\<close>,
  starting from \<open>d\<close> when the key is new.
\<close>

fun upd :: "'k \<Rightarrow> ('v \<Rightarrow> 'v) \<Rightarrow> 'v \<Rightarrow> ('k \<times> 'v) list \<Rightarrow> ('k \<times> 'v) list" where
  "upd k f d [] = [(k, f d)]"
| "upd k f d ((k', v) # kvs) = (if k' = k then (k', f v) # kvs else (k', v) # upd k f d kvs)"

definition trackModelUsage :: "session \<Rightarrow> string \<Rightarrow> operation \<Rightarrow> session" where
  "trackModelUsage s modelId operationType =
    s\<lparr>modelUsageStats :=
        upd modelId
          (\<lambda>stats. stats\<lparr>operations := upd operationType Suc 0 (operations stats),
                          totalUsage := totalUsage stats + 1\<rparr>)
          \<lparr>u_model = modelId, operations = [], totalUsage = 0\<rparr>
          (modelUsageStats s)\<rparr>"

text \<open>
  \<open>sendProgressUpdate\<close>: the callback, when the session has one, receives the event; a
  callback only observes.
\<close>

definition sendProgressUpdate ::
  "orchestrator \<Rightarrow> session \<Rightarrow> string \<Rightarrow> nat \<Rightarrow> string option \<Rightarrow> pipeline_result option \<Rightarrow> orchestrator" where
  "sendProgressUpdate orc s phase current model result =
    (case progressCallback s of
       None \<Rightarrow> orc
     | Some cb \<Rightarrow>
         orc\<lparr>progress_log := progress_log orc @
           [\<lparr>pe_callback = cb, pe_sessionId = s_id s, pe_phase = phase,
             pe_currentIteration = current, pe_totalIterations = targetIterations s,
             pe_model = model, pe_result = result\<rparr>]\<rparr>)"

section \<open>The generation pipeline\<close>

definition critiqueModel_of :: "orchestrator \<Rightarrow> strategy \<Rightarrow> session \<Rightarrow> nat \<Rightarrow> string" where
  "critiqueModel_of orc st s i =
    or_else (getNextModel orc st (primaryModel (models s)) i (targetIterations s) ''critique'')
      (refinementModel (models s))"

definition improvementModel_of :: "orchestrator \<Rightarrow> strategy \<Rightarrow> session \<Rightarrow> nat \<Rightarrow> string" where
  "improvementModel_of orc st s i =
    or_else (getNextModel orc st (critiqueModel_of orc st s i) i (targetIterations s) ''improvement'')
      (primaryModel (models s))"

definition iteration_steps :: "orchestrator \<Rightarrow> strategy \<Rightarrow> session \<Rightarrow> nat \<Rightarrow> process_step list" where
  "iteration_steps orc st s i =
    [\<lparr>step_id = ''iteration-'' @ show_nat i @ ''-critique'', step_type = ''critique'',
      step_iteration = i, step_modelId = Some (critiqueModel_of orc st s i)\<rparr>,
     \<lparr>step_id = ''iteration-'' @ show_nat i @ ''-improve'', step_type = ''iterate'',
      step_iteration = i, step_modelId = Some (improvementModel_of orc st s i)\<rparr>]"

text \<open>
  \<open>generateProcessSteps\<close>. The strategy is looked up inside the loop, so an unknown strategy
  name is a read on \<open>undefined\<close> as soon as there is one iteration.
\<close>

definition generateProcessSteps :: "orchestrator \<Rightarrow> session \<Rightarrow> error + process_step list" where
  "generateProcessSteps orc s =
    (let initial = \<lparr>step_id = ''initial-generation'', step_type = ''generate'',
                    step_iteration = 0, step_modelId = None\<rparr>;
         final = \<lparr>step_id = ''final-review'', step_type = ''refine'',
                  step_iteration = targetIterations s + 1,
                  step_modelId = selectModelByCapabilities orc [''detailed'', ''comprehensive''] None\<rparr>
     in case handoffStrategies (handoffStrategy s) of
          None \<Rightarrow>
            (if targetIterations s = 0 then Inr [initial, final]
             else Inl (TypeError ''getNextModel''))
        | Some st \<Rightarrow>
            Inr (initial # concat (map (iteration_steps orc st s) [1..<Suc (targetIterations s)])
                 @ [final]))"

text \<open>\<open>this.llmClient.generateResponse(...)\<close> from the orchestrator, and \<open>Date.now()\<close>.\<close>

definition gen :: "externals \<Rightarrow> orchestrator \<Rightarrow> string \<Rightarrow> string \<Rightarrow> (error + string) \<times> orchestrator" where
  "gen x orc modelId prompt =
    (let (r, c) = generateResponse x (llmClient orc) modelId prompt in (r, orc\<lparr>llmClient := c\<rparr>))"

definition now :: "externals \<Rightarrow> orchestrator \<Rightarrow> int" where
  "now x orc = clock x (length (gen_log (llmClient orc)))"

text \<open>
  The local state of \<open>executeCollaborativeProcess\<close>: the session object, \<open>currentResponse\<close>
  and the local \<open>iterationHistory\<close>.
\<close>

record loop_state =
  ls_session :: session
  ls_response :: string
  ls_history :: "history_entry list"

text \<open>One pass of the \<open>for\<close> loop, for the index \<open>i\<close>.\<close>

definition run_iteration ::
  "externals \<Rightarrow> strategy option \<Rightarrow> nat \<Rightarrow> orchestrator \<Rightarrow> loop_state \<Rightarrow> (error + loop_state) \<times> orchestrator" where
  "run_iteration x hs i orc ls =
    (let s1 = (ls_session ls)\<lparr>currentIteration := i\<rparr>;
         total = targetIterations s1;
         prompt = js_text (refinedPrompt s1);
         orc1 = sendProgressUpdate orc s1 ''iteration_start'' i None None
     in case hs of
          None \<Rightarrow> (Inl (TypeError ''getNextModel''), orc1)
        | Some st \<Rightarrow>
            (let critiqueModel = critiqueModel_of orc1 st s1 i;
                 orc2 = sendProgressUpdate orc1 s1 ''critique'' i (Some critiqueModel) None;
                 critiquePrompt =
                   buildCritiquePrompt prompt (ls_response ls) (int i) (int total) (ls_history ls)
             in case gen x orc2 critiqueModel critiquePrompt of
                  (Inl e, orc3) \<Rightarrow> (Inl e, orc3)
                | (Inr critiqueText, orc3) \<Rightarrow>
                    (let s2 = trackModelUsage s1 critiqueModel critique;
                         history2 = ls_history ls @
                           [\<lparr>h_iteration = i, h_model = critiqueModel, h_type = critique,
                             h_input = critiquePrompt, h_output = critiqueText,
                             h_timestamp = now x orc3\<rparr>];
                         improvementModel = improvementModel_of orc3 st s2 i;
                         orc4 = sendProgressUpdate orc3 s2 ''improvement'' i (Some improvementModel) None;
                         improvementPrompt =
                           buildImprovementPrompt prompt (ls_response ls) critiqueText (int i) (int total)
                             history2
                     in case gen x orc4 improvementModel improvementPrompt of
                          (Inl e, orc5) \<Rightarrow> (Inl e, orc5)
                        | (Inr improved, orc5) \<Rightarrow>
                            (let s3 = trackModelUsage s2 improvementModel improvement;
                                 history3 = history2 @
                                   [\<lparr>h_iteration = i, h_model = improvementModel, h_type = improvement,
                                     h_input = improvementPrompt, h_output = improved,
                                     h_timestamp = now x orc5\<rparr>]
                             in (Inr \<lparr>ls_session = s3\<lparr>completedIterations := i\<rparr>,
                                      ls_response = improved, ls_history = history3\<rparr>, orc5)))))"

lemma trackModelUsage_targetIterations:
  "targetIterations (trackModelUsage s m ot) = targetIterations s"
  by (simp add: trackModelUsage_def)

lemma run_iteration_targetIterations:
  assumes "run_iteration x hs i orc ls = (Inr ls', orc')"
  shows "targetIterations (ls_session ls') = targetIterations (ls_session ls)"
  using assms
  by (auto simp: run_iteration_def Let_def trackModelUsage_targetIterations
      split: option.splits prod.splits sum.splits)

text \<open>\<open>for (let i = 1; i <= session.targetIterations; i++)\<close>, entered at index \<open>i\<close>.\<close>

function run_iterations ::
  "externals \<Rightarrow> strategy option \<Rightarrow> nat \<Rightarrow> orchestrator \<Rightarrow> loop_state \<Rightarrow> (error + loop_state) \<times> orchestrator" where
  "run_iterations x hs i orc ls =
    (if i \<le> targetIterations (ls_session ls) then
       (case run_iteration x hs i orc ls of
          (Inl e, orc') \<Rightarrow> (Inl e, orc')
        | (Inr ls', orc') \<Rightarrow> run_iterations x hs (Suc i) orc' ls')
     else (Inr ls, orc))"
  by pat_completeness auto
termination
proof (relation "measure (\<lambda>(x, hs, i, orc, ls). Suc (targetIterations (ls_session ls)) - i)")
  show "wf (measure (\<lambda>(x, hs, i, orc, ls). Suc (targetIterations (ls_session ls)) - i))"
    by simp
next
  fix x hs i orc ls r orc' ls'
  assume le: "i \<le> targetIterations (ls_session ls)"
    and "(r, orc') = run_iteration x hs i orc ls" and "r = Inr ls'"
  then have "run_iteration x hs i orc ls = (Inr ls', orc')"
    by simp
  from run_iteration_targetIterations [OF this] le
  show "((x, hs, Suc i, orc', ls'), (x, hs, i, orc, ls))
          \<in> measure (\<lambda>(x, hs, i, orc, ls). Suc (targetIterations (ls_session ls)) - i)"
    by simp
qed

declare run_iterations.simps [simp del]

text \<open>Step 3 of \<open>executeCollaborativeProcess\<close>: the final review and the result.\<close>

definition final_review_step ::
  "externals \<Rightarrow> orchestrator \<Rightarrow> loop_state \<Rightarrow> (error + pipeline_result) \<times> orchestrator" where
  "final_review_step x orc ls =
    (let s = ls_session ls;
         finalModel = (if truthy (finalReviewModel s) then finalReviewModel s
                       else getBestFinalReviewModel (llmClient orc));
         orc1 = sendProgressUpdate orc s ''final_review'' (targetIterations s + 1) finalModel None;
         finalReviewPrompt =
           buildFinalReviewPrompt (js_text (refinedPrompt s)) (ls_response ls)
             (completedIterations s) (ls_history ls)
     in case gen x orc1 (js_text finalModel) finalReviewPrompt of
          (Inl e, orc2) \<Rightarrow> (Inl e, orc2)
        | (Inr finalResponse, orc2) \<Rightarrow>
            (let s' = trackModelUsage s (js_text finalModel) final_review;
                 result =
                   \<lparr>r_originalPrompt = originalPrompt s', r_refinedPrompt = refinedPrompt s',
                    finalOutput = finalResponse, r_iterationHistory = ls_history ls,
                    sessionDuration = now x orc2 - startTime s',
                    r_targetIterations = targetIterations s',
                    r_completedIterations = completedIterations s',
                    r_handoffStrategy = handoffStrategy s',
                    r_modelUsageStats = modelUsageStats s'\<rparr>
             in (Inr result,
                 sendProgressUpdate orc2 s' ''completed'' (completedIterations s') None (Some result))))"

text \<open>
  \<open>executeCollaborativeProcess(session)\<close>. \<open>Inl\<close> is the error thrown again by the
  \<open>catch\<close> block; the \<open>finally\<close> block removes the session id from the map on both
  ways out. The session object is threaded through the run and never written back to the
  map, which holds that object until the removal.
\<close>

definition executeCollaborativeProcess ::
  "externals \<Rightarrow> orchestrator \<Rightarrow> session \<Rightarrow> (error + pipeline_result) \<times> orchestrator" where
  "executeCollaborativeProcess x orc s =
    (let hs = handoffStrategies (handoffStrategy s);
         primary = primaryModel (models s);
         orc1 = sendProgressUpdate orc s ''starting'' 0 None None;
         orc2 = sendProgressUpdate orc1 s ''initial_generation'' 0 (Some primary) None;
         (r, orc') =
           (case gen x orc2 primary (js_text (refinedPrompt s)) of
              (Inl e, orc3) \<Rightarrow> (Inl e, orc3)
            | (Inr currentResponse, orc3) \<Rightarrow>
                (let s1 = trackModelUsage s primary initial_generation;
                     history =
                       [\<lparr>h_iteration = 0, h_model = primary, h_type = initial_generation,
                         h_input = js_text (refinedPrompt s), h_output = currentResponse,
                         h_timestamp = now x orc3\<rparr>]
                 in case run_iterations x hs 1 orc3
                           \<lparr>ls_session = s1, ls_response = currentResponse, ls_history = history\<rparr> of
                      (Inl e, orc4) \<Rightarrow> (Inl e, orc4)
                    | (Inr ls, orc4) \<Rightarrow> final_review_step x orc4 ls))
     in (r, orc'\<lparr>activeSessions := (activeSessions orc')(s_id s := None)\<rparr>))"

text \<open>\<open>startCollaborativeGeneration(sessionId)\<close>.\<close>

definition startCollaborativeGeneration ::
  "externals \<Rightarrow> orchestrator \<Rightarrow> string \<Rightarrow> reply \<times> orchestrator" where
  "startCollaborativeGeneration x orc sessionId =
    (case activeSessions orc sessionId of
       None \<Rightarrow> (Failed SessionNotFound, orc)
     | Some s \<Rightarrow>
         (case generateProcessSteps orc s of
            Inl e \<Rightarrow> (Failed e, orc\<lparr>activeSessions := (activeSessions orc)(sessionId := None)\<rparr>)
          | Inr process_steps \<Rightarrow>
              (let s' = s\<lparr>steps := process_steps\<rparr>;
                   orc1 = orc\<lparr>activeSessions := (activeSessions orc)(sessionId \<mapsto> s')\<rparr>
               in case executeCollaborativeProcess x orc1 s' of
                    (Inl e, orc2) \<Rightarrow>
                      (Failed e, orc2\<lparr>activeSessions := (activeSessions orc2)(sessionId := None)\<rparr>)
                  | (Inr result, orc2) \<Rightarrow> (Complete sessionId result, orc2))))"

section \<open>Regular expressions of the prompt refiner (prompt-refiner.js)\<close>

text \<open>
  The patterns of the file are matched by backtracking, leftmost start first. A pattern is
  modelled by a function on the text that remains at the current position; the functions
  below are the pattern operators that occur. \<open>star_then p k\<close> is a greedy \<open>p*\<close> followed by
  the rest of the pattern \<open>k\<close>: it takes a character when it can, and gives it back when
  the rest then fails. \<open>lazy_until la\<close> is the lazy group \<open>(.+?)\<close> under the flag \<open>s\<close>
  followed by a lookahead \<open>la\<close>: the shortest non-empty text after which \<open>la\<close> holds,
  with what follows it. \<open>find_from\<close> tries every start position from the left.
\<close>

definition is_digit :: "char \<Rightarrow> bool" where
  "is_digit c = (c \<in> set ''0123456789'')"

definition is_score_char :: "char \<Rightarrow> bool" where
  "is_score_char c = (c \<in> set ''0123456789.'')"

definition is_label_char :: "char \<Rightarrow> bool" where
  "is_label_char c = (c \<in> set ''ABCDEFGHIJKLMNOPQRSTUVWXYZ_'')"

definition to_lower :: "char \<Rightarrow> char" where
  "to_lower c =
    (case map_of (zip ''ABCDEFGHIJKLMNOPQRSTUVWXYZ'' ''abcdefghijklmnopqrstuvwxyz'') c of
       None \<Rightarrow> c
     | Some l \<Rightarrow> l)"

definition strip_prefix :: "string \<Rightarrow> string \<Rightarrow> string option" where
  "strip_prefix p s = (if startsWith s p then Some (drop (length p) s) else None)"

fun star_then :: "(char \<Rightarrow> bool) \<Rightarrow> (string \<Rightarrow> 'a option) \<Rightarrow> string \<Rightarrow> 'a option" where
  "star_then p k [] = k []"
| "star_then p k (c # cs) =
    (if p c then (case star_then p k cs of Some r \<Rightarrow> Some r | None \<Rightarrow> k (c # cs))
     else k (c # cs))"

definition plus_then :: "(char \<Rightarrow> bool) \<Rightarrow> (string \<Rightarrow> 'a option) \<Rightarrow> string \<Rightarrow> 'a option" where
  "plus_then p k s = (case s of [] \<Rightarrow> None | c # cs \<Rightarrow> if p c then star_then p k cs else None)"

fun lazy_until :: "(string \<Rightarrow> bool) \<Rightarrow> string \<Rightarrow> (string \<times> string) option" where
  "lazy_until la [] = None"
| "lazy_until la (c # cs) =
    (if la cs then Some ([c], cs)
     else (case lazy_until la cs of None \<Rightarrow> None | Some (m, r) \<Rightarrow> Some (c # m, r)))"

fun find_from :: "(string \<Rightarrow> 'a option) \<Rightarrow> string \<Rightarrow> 'a option" where
  "find_from f [] = f []"
| "find_from f (c # cs) = (case f (c # cs) of Some r \<Rightarrow> Some r | None \<Rightarrow> find_from f cs)"

fun contains :: "string \<Rightarrow> string \<Rightarrow> bool" where
  "contains sub [] = (sub = [])"
| "contains sub (c # cs) = (startsWith (c # cs) sub \<or> contains sub cs)"

text \<open>\<open>split_where p\<close> is \<open>split\<close> at every single character that satisfies \<open>p\<close>.\<close>

fun split_where :: "(char \<Rightarrow> bool) \<Rightarrow> string \<Rightarrow> string list" where
  "split_where p [] = [[]]"
| "split_where p (c # cs) =
    (case split_where p cs of
       [] \<Rightarrow> (if p c then [[], []] else [[c]])
     | piece # pieces \<Rightarrow> (if p c then [] # piece # pieces else (c # piece) # pieces))"

section \<open>Prompt analysis\<close>

text \<open>
  The analysis object. A score is kept as the text that the pattern captured (\<open>None\<close> is
  the default 0.5): \<open>parseFloat\<close> and the rendering of the number are floating point.
\<close>

record analysis =
  clarityScore :: "string option"
  completenessScore :: "string option"
  specificityScore :: "string option"
  overallScore :: "string option"
  needsClarification :: bool
  missingElements :: "string list"
  potentialImprovements :: "string list"
  reasoning :: string

definition render_score :: "externals \<Rightarrow> string option \<Rightarrow> string" where
  "render_score x sc = (case sc of None \<Rightarrow> ''0.5'' | Some t \<Rightarrow> numfmt x t)"

definition buildAnalysisPrompt :: "string \<Rightarrow> string" where
  "buildAnalysisPrompt initialPrompt =
     ''You are an expert prompt analyst. Analyze the following user prompt for clarity, completeness, and specificity. Determine if clarification questions are needed to improve the prompt quality.\<newline>'' @
     ''\<newline>'' @
     ''USER PROMPT:\<newline>'' @
     [CHR 0x22] @
     initialPrompt @
     [CHR 0x22] @ ''\<newline>'' @
     ''\<newline>'' @
     ''ANALYSIS CRITERIA:\<newline>'' @
     ''1. CLARITY: Is the request clear and unambiguous?\<newline>'' @
     ''2. COMPLETENESS: Are all necessary details provided?\<newline>'' @
     ''3. SPECIFICITY: Is the prompt specific enough to generate a high-quality response?\<newline>'' @
     ''4. CONTEXT: Is sufficient context provided for understanding the request?\<newline>'' @
     ''5. CONSTRAINTS: Are any important constraints or requirements specified?\<newline>'' @
     ''\<newline>'' @
     ''RESPOND IN THIS EXACT FORMAT:\<newline>'' @
     ''CLARITY_SCORE: [0.0-1.0]\<newline>'' @
     ''COMPLETENESS_SCORE: [0.0-1.0]\<newline>'' @
     ''SPECIFICITY_SCORE: [0.0-1.0]\<newline>'' @
     ''OVERALL_SCORE: [0.0-1.0]\<newline>'' @
     ''NEEDS_CLARIFICATION: [YES/NO]\<newline>'' @
     ''MISSING_ELEMENTS: [List specific elements that are unclear or missing]\<newline>'' @
     ''POTENTIAL_IMPROVEMENTS: [Suggest specific improvements]\<newline>'' @
     ''REASONING: [Brief explanation of the analysis]\<newline>'' @
     ''\<newline>'' @
     ''Be precise and objective in your scoring. A score below 0.6 in any major area should trigger clarification needs.''"

text \<open>\<open>/LABEL:\s*([0-9.]+)/\<close>, for the label given.\<close>

definition match_score :: "string \<Rightarrow> string \<Rightarrow> string option" where
  "match_score label text =
    find_from
      (\<lambda>s. case strip_prefix label s of
             None \<Rightarrow> None
           | Some rest \<Rightarrow>
               star_then is_space
                 (\<lambda>r. if takeWhile is_score_char r = [] then None
                      else Some (takeWhile is_score_char r))
                 rest)
      text"

text \<open>\<open>/NEEDS_CLARIFICATION:\s*(YES|NO)/\<close>; the result is \<open>match[1] === 'YES'\<close>.\<close>

definition match_needs_clarification :: "string \<Rightarrow> bool option" where
  "match_needs_clarification text =
    find_from
      (\<lambda>s. case strip_prefix ''NEEDS_CLARIFICATION:'' s of
             None \<Rightarrow> None
           | Some rest \<Rightarrow>
               star_then is_space
                 (\<lambda>r. if startsWith r ''YES'' then Some True
                      else if startsWith r ''NO'' then Some False
                      else None)
                 rest)
      text"

text \<open>The lookahead \<open>(?=\n[A-Z_]+:|$)\<close>, at the text \<open>s\<close> that remains.\<close>

definition label_lookahead :: "string \<Rightarrow> bool" where
  "label_lookahead s =
    ((case s of
        [] \<Rightarrow> False
      | c # r \<Rightarrow>
          c = CHR 0x0A \<and>
          plus_then is_label_char (\<lambda>t. if startsWith t '':'' then Some () else None) r \<noteq> None)
     \<or> s = [])"

text \<open>\<open>/LABEL:\s*(.+?)(?=\n[A-Z_]+:|$)/s\<close>: the first group.\<close>

definition match_section :: "string \<Rightarrow> string \<Rightarrow> string option" where
  "match_section label text =
    find_from
      (\<lambda>s. case strip_prefix label s of
             None \<Rightarrow> None
           | Some rest \<Rightarrow> star_then is_space (\<lambda>r. map_option fst (lazy_until label_lookahead r)) rest)
      text"

text \<open>\<open>/REASONING:\s*(.+?)$/s\<close>: the first group.\<close>

definition match_reasoning :: "string \<Rightarrow> string option" where
  "match_reasoning text =
    find_from
      (\<lambda>s. case strip_prefix ''REASONING:'' s of
             None \<Rightarrow> None
           | Some rest \<Rightarrow> star_then is_space (\<lambda>r. map_option fst (lazy_until (\<lambda>t. t = []) r)) rest)
      text"

text \<open>\<open>m.trim().split(/[,\n]/).map(item => item.trim()).filter(item => item.length > 0)\<close>\<close>

definition list_items :: "string \<Rightarrow> string list" where
  "list_items m =
    filter (\<lambda>item. item \<noteq> [])
      (map trim (split_where (\<lambda>c. c = CHR '','' \<or> c = CHR 0x0A) (trim m)))"

text \<open>
  \<open>parseAnalysisResult\<close>. The text is a string, so nothing inside the \<open>try\<close> block throws.
\<close>

definition parseAnalysisResult :: "string \<Rightarrow> analysis" where
  "parseAnalysisResult analysisText =
    \<lparr>clarityScore = match_score ''CLARITY_SCORE:'' analysisText,
     completenessScore = match_score ''COMPLETENESS_SCORE:'' analysisText,
     specificityScore = match_score ''SPECIFICITY_SCORE:'' analysisText,
     overallScore = match_score ''OVERALL_SCORE:'' analysisText,
     needsClarification =
       (case match_needs_clarification analysisText of None \<Rightarrow> True | Some b \<Rightarrow> b),
     missingElements =
       (case match_section ''MISSING_ELEMENTS:'' analysisText of None \<Rightarrow> [] | Some m \<Rightarrow> list_items m),
     potentialImprovements =
       (case match_section ''POTENTIAL_IMPROVEMENTS:'' analysisText of
          None \<Rightarrow> []
        | Some m \<Rightarrow> list_items m),
     reasoning = (case match_reasoning analysisText of None \<Rightarrow> [] | Some m \<Rightarrow> trim m)\<rparr>"

section \<open>Clarification questions\<close>

text \<open>
  \<open>/QUESTION_\d+:\s*(.+?)(?=\nQUESTION_\d+:|$)/gs\<close>. \<open>question_label k\<close> is the part
  \<open>QUESTION_\d+:\<close> followed by the rest \<open>k\<close> of a pattern, and \<open>question_match\<close> gives the
  text that the whole pattern matches at the start of \<open>s\<close>.
\<close>

definition question_label :: "(string \<Rightarrow> 'a option) \<Rightarrow> string \<Rightarrow> 'a option" where
  "question_label k s =
    (case strip_prefix ''QUESTION_'' s of
       None \<Rightarrow> None
     | Some r \<Rightarrow>
         plus_then is_digit (\<lambda>t. case strip_prefix '':'' t of None \<Rightarrow> None | Some u \<Rightarrow> k u) r)"

definition question_lookahead :: "string \<Rightarrow> bool" where
  "question_lookahead s =
    ((case s of
        [] \<Rightarrow> False
      | c # r \<Rightarrow> c = CHR 0x0A \<and> question_label (\<lambda>u. Some ()) r \<noteq> None)
     \<or> s = [])"

definition question_match :: "string \<Rightarrow> string option" where
  "question_match s =
    (case question_label
            (star_then is_space (\<lambda>r. map_option snd (lazy_until question_lookahead r))) s of
       None \<Rightarrow> None
     | Some rest \<Rightarrow> Some (take (length s - length rest) s))"

text \<open>
  \<open>text.match(re)\<close> for a global pattern \<open>m\<close>: all matches from the left, each search
  starting where the last match ended (one further after an empty match).
\<close>

function match_all :: "(string \<Rightarrow> string option) \<Rightarrow> string \<Rightarrow> string list" where
  "match_all m s =
    (if s = [] then (case m [] of None \<Rightarrow> [] | Some matched \<Rightarrow> [matched])
     else (case m s of
             None \<Rightarrow> match_all m (tl s)
           | Some matched \<Rightarrow> matched # match_all m (drop (max 1 (length matched)) s)))"
  by pat_completeness auto
termination
  by (relation "measure (\<lambda>(m, s). length s)") auto

declare match_all.simps [simp del]

text \<open>\<open>match.replace(/QUESTION_\d+:\s*/, '')\<close>: the first occurrence is removed.\<close>

fun remove_question_label :: "string \<Rightarrow> string" where
  "remove_question_label [] = []"
| "remove_question_label (c # cs) =
    (case question_label (\<lambda>u. Some (dropWhile is_space u)) (c # cs) of
       Some rest \<Rightarrow> rest
     | None \<Rightarrow> c # remove_question_label cs)"

text \<open>\<open>trimmed.replace(/^QUESTION_?\d*:?\s*/i, '')\<close>\<close>

definition remove_question_prefix :: "string \<Rightarrow> string" where
  "remove_question_prefix s =
    (if map to_lower (take 8 s) = ''question'' then
       (let r1 = drop 8 s;
            r2 = (case r1 of c # r \<Rightarrow> if c = CHR ''_'' then r else r1 | [] \<Rightarrow> r1);
            r3 = dropWhile is_digit r2;
            r4 = (case r3 of c # r \<Rightarrow> if c = CHR '':'' then r else r3 | [] \<Rightarrow> r3)
        in dropWhile is_space r4)
     else s)"

text \<open>
  The \<open>forEach\<close> of the first branch: \<open>index\<close> counts the matches, also those whose
  text is empty and that are skipped.
\<close>

fun questions_of_matches :: "nat \<Rightarrow> string list \<Rightarrow> question list" where
  "questions_of_matches index [] = []"
| "questions_of_matches index (matched # rest) =
    (let questionText = trim (remove_question_label matched)
     in (if questionText \<noteq> []
         then [\<lparr>q_id = ''q'' @ show_nat (index + 1), q_text = questionText\<rparr>]
         else [])
        @ questions_of_matches (index + 1) rest)"

text \<open>
  The loop of the fallback branch over the lines, with \<open>questionCount\<close>; it stops after
  the fourth question.
\<close>

fun scan_lines :: "nat \<Rightarrow> string list \<Rightarrow> question list" where
  "scan_lines questionCount [] = []"
| "scan_lines questionCount (line # rest) =
    (let trimmed = trim line
     in if length trimmed > 10 \<and>
           (CHR ''?'' \<in> set trimmed \<or> contains ''question'' (map to_lower trimmed))
        then \<lparr>q_id = ''q'' @ show_nat (questionCount + 1),
              q_text = trim (remove_question_prefix trimmed)\<rparr>
             # (if questionCount + 1 \<ge> 4 then [] else scan_lines (questionCount + 1) rest)
        else scan_lines questionCount rest)"

definition generic_question :: question where
  "generic_question =
    \<lparr>q_id = ''q1'',
     q_text = ''Could you provide more specific details about what you want to achieve with this request?''\<rparr>"

definition parseClarificationQuestions :: "string \<Rightarrow> question list" where
  "parseClarificationQuestions questionsText =
    (let questionMatches = match_all question_match questionsText;
         questions =
           (if questionMatches \<noteq> [] then questions_of_matches 0 questionMatches
            else scan_lines 0 (split_where (\<lambda>c. c = CHR 0x0A) questionsText))
     in if questions = [] then [generic_question] else questions)"

definition clarificationPrompt :: "string \<Rightarrow> analysis \<Rightarrow> string" where
  "clarificationPrompt initialPrompt analysis =
     ''Based on the analysis of this user prompt, generate 2-4 specific clarification questions that will help improve the prompt quality.\<newline>'' @
     ''\<newline>'' @
     ''ORIGINAL PROMPT:\<newline>'' @
     [CHR 0x22] @
     initialPrompt @
     [CHR 0x22] @ ''\<newline>'' @
     ''\<newline>'' @
     ''ANALYSIS ISSUES:\<newline>'' @
     ''- Missing Elements: '' @
     join '', '' (missingElements analysis) @
     ''\<newline>'' @
     ''- Potential Improvements: '' @
     join '', '' (potentialImprovements analysis) @
     ''\<newline>'' @
     ''- Reasoning: '' @
     reasoning analysis @
     ''\<newline>'' @
     ''\<newline>'' @
     ''GENERATE CLARIFICATION QUESTIONS:\<newline>'' @
     ''Create questions that are:\<newline>'' @
     ''1. Specific and actionable\<newline>'' @
     ''2. Help address the missing elements\<newline>'' @
     ''3. Improve clarity and completeness\<newline>'' @
     ''4. Are easy for the user to answer\<newline>'' @
     ''\<newline>'' @
     ''RESPOND IN THIS FORMAT:\<newline>'' @
     ''QUESTION_1: [Clear, specific question]\<newline>'' @
     ''QUESTION_2: [Clear, specific question]\<newline>'' @
     ''QUESTION_3: [Clear, specific question] (if needed)\<newline>'' @
     ''QUESTION_4: [Clear, specific question] (if needed)\<newline>'' @
     ''\<newline>'' @
     ''Each question should help gather essential missing information.''"

definition generateClarificationQuestions ::
  "externals \<Rightarrow> llm_client \<Rightarrow> string \<Rightarrow> analysis \<Rightarrow> string \<Rightarrow> (error + question list) \<times> llm_client" where
  "generateClarificationQuestions x c initialPrompt analysis modelId =
    (case generateResponse x c modelId (clarificationPrompt initialPrompt analysis) of
       (Inl e, c') \<Rightarrow> (Inl e, c')
     | (Inr questionsText, c') \<Rightarrow> (Inr (parseClarificationQuestions questionsText), c'))"

section \<open>Prompt refinement\<close>

definition refinedPromptRequest :: "externals \<Rightarrow> string \<Rightarrow> analysis \<Rightarrow> string" where
  "refinedPromptRequest x original analysis =
     ''You are tasked with making minor refinements to an already good prompt. The prompt has been analyzed and found to be mostly clear and complete, but could benefit from small improvements.\<newline>'' @
     ''\<newline>'' @
     ''ORIGINAL PROMPT:\<newline>'' @
     [CHR 0x22] @
     original @
     [CHR 0x22] @ ''\<newline>'' @
     ''\<newline>'' @
     ''ANALYSIS INSIGHTS:\<newline>'' @
     ''- Clarity Score: '' @
     render_score x (clarityScore analysis) @
     ''\<newline>'' @
     ''- Completeness Score: '' @
     render_score x (completenessScore analysis) @
     ''\<newline>'' @
     ''- Specificity Score: '' @
     render_score x (specificityScore analysis) @
     ''\<newline>'' @
     ''- Potential Improvements: '' @
     join '', '' (potentialImprovements analysis) @
     ''\<newline>'' @
     ''\<newline>'' @
     ''REFINEMENT TASK:\<newline>'' @
     ''Make minimal, strategic improvements to enhance clarity and effectiveness while preserving the original intent. Only make changes that add significant value.\<newline>'' @
     ''\<newline>'' @
     ''If the prompt is already excellent, you may return it with only minor polish or unchanged.\<newline>'' @
     ''\<newline>'' @
     ''Refined prompt:''"

definition generateRefinedPrompt ::
  "externals \<Rightarrow> llm_client \<Rightarrow> string \<Rightarrow> analysis \<Rightarrow> string \<Rightarrow> (error + string) \<times> llm_client" where
  "generateRefinedPrompt x c original analysis modelId =
    generateResponse x c modelId (refinedPromptRequest x original analysis)"

text \<open>
  The answers are the object that the caller passes, from question id to answer text.
  \<open>answers[q.id] || ''\<close> is \<open>or_else (answers (q_id q)) []\<close>.
\<close>

definition clarificationRefinementPrompt ::
  "string \<Rightarrow> question list \<Rightarrow> (string \<rightharpoonup> string) \<Rightarrow> string" where
  "clarificationRefinementPrompt original questions answers =
    (let clarificationDetails =
           join ''\<newline>\<newline>''
             (map (\<lambda>q. ''Q: '' @ q_text q @ ''\<newline>A: '' @ or_else (answers (q_id q)) []) questions)
     in
     ''You are tasked with refining a user's prompt based on their answers to clarification questions. Create a comprehensive, clear, and specific prompt that incorporates all the provided information.\<newline>'' @
     ''\<newline>'' @
     ''ORIGINAL PROMPT:\<newline>'' @
     [CHR 0x22] @
     original @
     [CHR 0x22] @ ''\<newline>'' @
     ''\<newline>'' @
     ''CLARIFICATION Q&A:\<newline>'' @
     clarificationDetails @
     ''\<newline>'' @
     ''\<newline>'' @
     ''REFINED PROMPT REQUIREMENTS:\<newline>'' @
     ''1. Incorporate all relevant information from the Q&A\<newline>'' @
     ''2. Maintain the user's original intent\<newline>'' @
     ''3. Make the prompt clear, specific, and actionable\<newline>'' @
     ''4. Include all necessary context and constraints\<newline>'' @
     ''5. Ensure the refined prompt will generate high-quality responses\<newline>'' @
     ''\<newline>'' @
     ''Provide the refined prompt:'')"

text \<open>
  \<open>refineWithClarifications\<close>; with no model available, \<open>availableModels[0]\<close> is
  \<open>undefined\<close>, which is no key of the table.
\<close>

definition refineWithClarifications ::
  "externals \<Rightarrow> llm_client \<Rightarrow> string \<Rightarrow> question list \<Rightarrow> (string \<rightharpoonup> string) \<Rightarrow> (error + string) \<times> llm_client" where
  "refineWithClarifications x c original questions answers =
    (let modelId = (case llm_getAvailableModels c of [] \<Rightarrow> ''undefined'' | m # _ \<Rightarrow> m)
     in generateResponse x c modelId (clarificationRefinementPrompt original questions answers))"

definition validateClarificationAnswers :: "question list \<Rightarrow> (string \<rightharpoonup> string) \<Rightarrow> string list" where
  "validateClarificationAnswers questions answers =
    concat
      (map (\<lambda>q. if \<not> truthy (answers (q_id q)) \<or> trim (or_else (answers (q_id q)) []) = []
                then [''Please answer: '' @ q_text q]
                else if length (trim (or_else (answers (q_id q)) [])) < 3
                then [''Please provide a more detailed answer for: '' @ q_text q]
                else [])
         questions)"

datatype refinement = Clarify "question list" analysis | Refined string analysis

definition analyzeAndRefine ::
  "externals \<Rightarrow> llm_client \<Rightarrow> string \<Rightarrow> (error + refinement) \<times> llm_client" where
  "analyzeAndRefine x c initialPrompt =
    (case llm_getAvailableModels c of
       [] \<Rightarrow> (Inl NoModelsAvailable, c)
     | analysisModel # _ \<Rightarrow>
         (case generateResponse x c analysisModel (buildAnalysisPrompt initialPrompt) of
            (Inl e, c1) \<Rightarrow> (Inl e, c1)
          | (Inr analysisResult, c1) \<Rightarrow>
              (let analysis = parseAnalysisResult analysisResult
               in if needsClarification analysis then
                    (case generateClarificationQuestions x c1 initialPrompt analysis analysisModel of
                       (Inl e, c2) \<Rightarrow> (Inl e, c2)
                     | (Inr questions, c2) \<Rightarrow> (Inr (Clarify questions analysis), c2))
                  else
                    (case generateRefinedPrompt x c1 initialPrompt analysis analysisModel of
                       (Inl e, c2) \<Rightarrow> (Inl e, c2)
                     | (Inr refined, c2) \<Rightarrow> (Inr (Refined refined analysis), c2)))))"

section \<open>The two public operations\<close>

text \<open>
  \<open>startRefinementProcess(initialPrompt, models, iterations, progressCallback)\<close>;
  \<open>sessionId\<close> is the identifier that \<open>uuidv4()\<close> returned.
\<close>

definition new_session ::
  "externals \<Rightarrow> orchestrator \<Rightarrow> string \<Rightarrow> string \<Rightarrow> model_selection \<Rightarrow> nat \<Rightarrow> nat option \<Rightarrow> session" where
  "new_session x orc sessionId initialPrompt selection iterations callback =
    (let final = (if truthy (sel_finalReviewModel selection) then sel_finalReviewModel selection
                  else getBestFinalReviewModel (llmClient orc))
     in \<lparr>s_id = sessionId, originalPrompt = initialPrompt, refinedPrompt = None,
         models = selection\<lparr>sel_finalReviewModel := final\<rparr>,
         targetIterations = iterations, currentIteration = 0, completedIterations = 0,
         steps = [], startTime = now x orc,
         handoffStrategy = or_else (sel_handoffStrategy selection) ''model_specialization'',
         iterationHistory = [], modelUsageStats = [], finalReviewModel = final,
         progressCallback = callback, pendingClarifications = None\<rparr>)"

definition startRefinementProcess ::
  "externals \<Rightarrow> orchestrator \<Rightarrow> string \<Rightarrow> string \<Rightarrow> model_selection \<Rightarrow> nat \<Rightarrow> nat option \<Rightarrow> reply \<times> orchestrator" where
  "startRefinementProcess x orc sessionId initialPrompt selection iterations callback =
    (let s = new_session x orc sessionId initialPrompt selection iterations callback;
         orc1 = orc\<lparr>activeSessions := (activeSessions orc)(sessionId \<mapsto> s)\<rparr>
     in case analyzeAndRefine x (llmClient orc1) initialPrompt of
          (Inl e, c) \<Rightarrow>
            (Failed e, orc1\<lparr>llmClient := c, activeSessions := (activeSessions orc1)(sessionId := None)\<rparr>)
        | (Inr (Clarify questions a), c) \<Rightarrow>
            (NeedsClarification sessionId questions,
             orc1\<lparr>llmClient := c,
                  activeSessions :=
                    (activeSessions orc1)(sessionId \<mapsto> s\<lparr>pendingClarifications := Some questions\<rparr>)\<rparr>)
        | (Inr (Refined refined a), c) \<Rightarrow>
            startCollaborativeGeneration x
              (orc1\<lparr>llmClient := c,
                    activeSessions :=
                      (activeSessions orc1)(sessionId \<mapsto> s\<lparr>refinedPrompt := Some refined\<rparr>)\<rparr>)
              sessionId)"

text \<open>\<open>submitClarification(sessionId, answers, progressCallback)\<close>.\<close>

definition submitClarification ::
  "externals \<Rightarrow> orchestrator \<Rightarrow> string \<Rightarrow> (string \<rightharpoonup> string) \<Rightarrow> nat option \<Rightarrow> reply \<times> orchestrator" where
  "submitClarification x orc sessionId answers callback =
    (case activeSessions orc sessionId of
       None \<Rightarrow> (Failed SessionNotFound, orc)
     | Some s \<Rightarrow>
         (case pendingClarifications s of
            None \<Rightarrow> (Failed NoPendingClarifications, orc)
          | Some questions \<Rightarrow>
              (let s1 = (case callback of None \<Rightarrow> s | Some cb \<Rightarrow> s\<lparr>progressCallback := Some cb\<rparr>);
                   orc1 = orc\<lparr>activeSessions := (activeSessions orc)(sessionId \<mapsto> s1)\<rparr>;
                   orc2 = sendProgressUpdate orc1 s1 ''processing_clarifications'' 0 None None;
                   validationErrors = validateClarificationAnswers questions answers
               in if validationErrors \<noteq> [] then (Failed (ValidationErrors validationErrors), orc2)
                  else
                    (case refineWithClarifications x (llmClient orc2) (originalPrompt s1) questions
                            answers of
                       (Inl e, c) \<Rightarrow> (Failed e, orc2\<lparr>llmClient := c\<rparr>)
                     | (Inr refined, c) \<Rightarrow>
                         startCollaborativeGeneration x
                           (orc2\<lparr>llmClient := c,
                                 activeSessions :=
                                   (activeSessions orc2)
                                     (sessionId \<mapsto> s1\<lparr>refinedPrompt := Some refined,
                                                       pendingClarifications := None\<rparr>)\<rparr>)
                           sessionId))))"

section \<open>Vocabulary of the statements\<close>

text \<open>
  A call of the log failed when its outcome is an error. \<open>trace_ok r calls\<close> relates the
  outcome \<open>r\<close> of an operation to the calls it made: after a result no call failed, and
  after an error either no call failed or the last call is the only one that failed and the
  error is its error. \<open>session_frame\<close> and \<open>orc_frame\<close> say which fields a run leaves
  alone.
\<close>

definition failed :: "gen_call \<Rightarrow> bool" where
  "failed c = isl (gc_outcome c)"

definition all_ok :: "gen_call list \<Rightarrow> bool" where
  "all_ok calls = list_all (\<lambda>c. \<not> failed c) calls"

definition stops_at_failure :: "error \<Rightarrow> gen_call list \<Rightarrow> bool" where
  "stops_at_failure e calls =
    (calls \<noteq> [] \<and> all_ok (butlast calls) \<and> gc_outcome (last calls) = Inl e)"

definition trace_ok :: "error + 'a \<Rightarrow> gen_call list \<Rightarrow> bool" where
  "trace_ok r calls =
    (case r of Inr v \<Rightarrow> all_ok calls | Inl e \<Rightarrow> all_ok calls \<or> stops_at_failure e calls)"

definition planned_models :: "orchestrator \<Rightarrow> strategy \<Rightarrow> session \<Rightarrow> nat \<Rightarrow> string list" where
  "planned_models orc st s i = [critiqueModel_of orc st s i, improvementModel_of orc st s i]"

definition final_model_of :: "orchestrator \<Rightarrow> session \<Rightarrow> string" where
  "final_model_of orc s =
    js_text (if truthy (finalReviewModel s) then finalReviewModel s
             else getBestFinalReviewModel (llmClient orc))"

text \<open>The generation call that a history entry records.\<close>

definition call_of_entry :: "history_entry \<Rightarrow> gen_call" where
  "call_of_entry h = \<lparr>gc_model = h_model h, gc_prompt = h_input h, gc_outcome = Inr (h_output h)\<rparr>"

definition new_calls :: "orchestrator \<Rightarrow> orchestrator \<Rightarrow> gen_call list" where
  "new_calls orc orc' = drop (length (gen_log (llmClient orc))) (gen_log (llmClient orc'))"

definition usage_total :: "(string \<times> usage) list \<Rightarrow> nat" where
  "usage_total stats = sum_list (map (\<lambda>(m, u). totalUsage u) stats)"

definition session_frame :: "session \<Rightarrow> session \<Rightarrow> bool" where
  "session_frame s s' =
    (s' = s\<lparr>currentIteration := currentIteration s', completedIterations := completedIterations s',
           modelUsageStats := modelUsageStats s'\<rparr>)"

definition orc_frame :: "orchestrator \<Rightarrow> orchestrator \<Rightarrow> bool" where
  "orc_frame orc orc' =
    (orc' = orc\<lparr>llmClient := llmClient orc', progress_log := progress_log orc'\<rparr> \<and>
     llmClient orc' = (llmClient orc)\<lparr>gen_log := gen_log (llmClient orc'),
                                      ext_log := ext_log (llmClient orc')\<rparr>)"

text \<open>
  When does the pipeline return a result? \<open>registered\<close> models are those of the client's
  table; a \<open>responsive\<close> provider answers every request with one text that is not blank;
  the orchestrator is \<open>ready\<close> when, besides, both providers have a client.
\<close>

definition registered :: "string \<Rightarrow> bool" where
  "registered m = (map_of modelConfig m \<noteq> None)"

definition responsive :: "externals \<Rightarrow> bool" where
  "responsive x = (\<forall>k call. \<exists>t. ext x k call = Replied [t] \<and> trim t \<noteq> [])"

definition ready :: "externals \<Rightarrow> orchestrator \<Rightarrow> bool" where
  "ready x orc =
    (responsive x \<and> openaiClient (llmClient orc) \<noteq> None \<and> anthropicClient (llmClient orc) \<noteq> None)"

text \<open>
  The answers that the validator turns down: absent, blank, or shorter than three characters
  once trimmed.
\<close>

definition rejected_answer :: "(string \<rightharpoonup> string) \<Rightarrow> question \<Rightarrow> bool" where
  "rejected_answer answers q =
    (case answers (q_id q) of None \<Rightarrow> True | Some a \<Rightarrow> length (trim a) < 3)"


text \<open>
  What the critique prompt reads of the history: of every critique entry, its iteration and
  the first 200 characters of its output. An orchestrator is \<open>credentialed\<close> when the
  models that it lists are those of the catalogue whose provider has a key in the client.
\<close>

definition critique_digest :: "history_entry list \<Rightarrow> (nat \<times> string) list" where
  "critique_digest history =
    map (\<lambda>h. (h_iteration h, take 200 (h_output h))) (filter (\<lambda>h. h_type h = critique) history)"

definition credentialed :: "orchestrator \<Rightarrow> bool" where
  "credentialed orc =
    (getAvailableModels orc =
       filter (\<lambda>m. has_key (apiKeys (llmClient orc)) (md_provider m)) availableModels)"


section \<open>Example states\<close>

text \<open>
  A client with both credentials set, and externals whose provider always answers \<open>ok\<close>.
\<close>

definition configured_client :: llm_client where
  "configured_client =
    llm_setApiKeys new_LLMClient \<lparr>key_openai = Some ''sk-test'', key_anthropic = Some ''sk-ant-test''\<rparr>"

definition echo_externals :: externals where
  "echo_externals = \<lparr>ext = (\<lambda>k call. Replied [''ok'']), clock = (\<lambda>k. int k), numfmt = (\<lambda>s. s)\<rparr>"

definition long_prompt :: string where
  "long_prompt = replicate 11201 CHR ''a''"

text \<open>
  An orchestrator with both credentials set, a model selection that leaves the strategy and
  the final review model to their defaults, and a session of \<open>n\<close> iterations whose prompt
  has been refined.
\<close>

definition demo_orchestrator :: orchestrator where
  "demo_orchestrator =
    setApiKeys new_RefinementOrchestrator
      \<lparr>key_openai = Some ''sk-test'', key_anthropic = Some ''sk-ant-test''\<rparr>"

definition demo_selection :: model_selection where
  "demo_selection =
    \<lparr>primaryModel = ''gpt-4o'', refinementModel = ''claude-sonnet-4'',
     sel_finalReviewModel = None, sel_handoffStrategy = None\<rparr>"

definition demo_session :: "nat \<Rightarrow> session" where
  "demo_session n =
    (new_session echo_externals demo_orchestrator ''session-1'' ''Write a haiku'' demo_selection n None)
      \<lparr>refinedPrompt := Some ''Write a haiku about autumn''\<rparr>"

text \<open>
  A provider that rejects the third request and answers every other one, and the example
  orchestrator with the example session of one iteration in its map.
\<close>

definition flaky_externals :: externals where
  "flaky_externals =
    \<lparr>ext = (\<lambda>k call. if k = 2 then Rejected ''overloaded'' else Replied [''ok'']),
     clock = (\<lambda>k. int k), numfmt = (\<lambda>s. s)\<rparr>"

definition demo_running :: orchestrator where
  "demo_running =
    demo_orchestrator\<lparr>activeSessions := (activeSessions demo_orchestrator)(''session-1'' \<mapsto> demo_session 1)\<rparr>"

text \<open>
  A provider whose every answer says that no clarification is needed, and one whose every
  answer says that clarification is needed.
\<close>

definition direct_externals :: externals where
  "direct_externals =
    \<lparr>ext = (\<lambda>k call. Replied [''NEEDS_CLARIFICATION: NO'']),
     clock = (\<lambda>k. int k), numfmt = (\<lambda>s. s)\<rparr>"

definition asking_externals :: externals where
  "asking_externals =
    \<lparr>ext = (\<lambda>k call. Replied [''NEEDS_CLARIFICATION: YES'']),
     clock = (\<lambda>k. int k), numfmt = (\<lambda>s. s)\<rparr>"


text \<open>
  The example orchestrator after a start whose analysis asked for clarification: the session
  is parked with its questions.
\<close>

definition demo_parked :: orchestrator where
  "demo_parked =
    snd (startRefinementProcess asking_externals demo_orchestrator ''session-1'' ''Write a haiku''
           demo_selection 1 None)"


text \<open>
  Two histories with the same critique, written by different models at different times
  after different first drafts.
\<close>

definition history_a :: "history_entry list" where
  "history_a =
    [\<lparr>h_iteration = 0, h_model = ''gpt-4o'', h_type = initial_generation,
      h_input = ''Write a haiku'', h_output = ''First draft'', h_timestamp = 1\<rparr>,
     \<lparr>h_iteration = 1, h_model = ''claude-sonnet-4'', h_type = critique,
      h_input = ''Review it'', h_output = ''Too plain'', h_timestamp = 2\<rparr>]"

definition history_b :: "history_entry list" where
  "history_b =
    [\<lparr>h_iteration = 0, h_model = ''gpt-4.1'', h_type = initial_generation,
      h_input = ''Write a haiku'', h_output = ''Another draft'', h_timestamp = 17\<rparr>,
     \<lparr>h_iteration = 1, h_model = ''gpt-4-turbo'', h_type = critique,
      h_input = ''Please review'', h_output = ''Too plain'', h_timestamp = 42\<rparr>]"

text \<open>
  An answer with five labelled questions, and the same five questions without labels.
\<close>

definition five_questions :: string where
  "five_questions =
    ''QUESTION_1: Who is the audience?\<newline>QUESTION_2: What tone do you want?\<newline>QUESTION_3: How long should it be?\<newline>QUESTION_4: Which format do you need?\<newline>QUESTION_5: Is there a deadline?''"

definition plain_questions :: string where
  "plain_questions =
    ''Who is the audience?\<newline>What tone do you want?\<newline>How long should it be?\<newline>Which format do you need?\<newline>Is there a deadline?''"


section \<open>Frames and traces of the pipeline\<close>

lemma orc_frame_refl: "orc_frame orc orc"
  by (simp add: orc_frame_def)

lemma orc_frame_trans: "orc_frame a b \<Longrightarrow> orc_frame b c \<Longrightarrow> orc_frame a c"
  unfolding orc_frame_def
  by (cases a; cases b; cases c; cases "llmClient a"; cases "llmClient b"; cases "llmClient c"; simp)

lemma session_frame_refl: "session_frame s s"
  by (simp add: session_frame_def)

lemma session_frame_trans: "session_frame a b \<Longrightarrow> session_frame b c \<Longrightarrow> session_frame a c"
  unfolding session_frame_def
  by (cases a; cases b; cases c; simp)

lemma generateResponse_frame:
  assumes "generateResponse x c m p = (r, c')"
  shows "c' = c\<lparr>gen_log := gen_log c', ext_log := ext_log c'\<rparr>"
    and "gen_log c' = gen_log c @ [\<lparr>gc_model = m, gc_prompt = p, gc_outcome = r\<rparr>]"
  using assms
  by (auto simp: generateResponse_def generateOpenAIResponse_def generateAnthropicResponse_def
      call_provider_def Let_def
      split: option.splits provider.splits prod.splits ext_reply.splits list.splits if_splits)

lemma gen_frame:
  assumes "gen x orc m p = (r, orc')"
  shows "orc_frame orc orc'"
    and "gen_log (llmClient orc') = gen_log (llmClient orc) @ [\<lparr>gc_model = m, gc_prompt = p, gc_outcome = r\<rparr>]"
proof -
  obtain c' where g: "generateResponse x (llmClient orc) m p = (r, c')" and o: "orc' = orc\<lparr>llmClient := c'\<rparr>"
    using assms by (auto simp: gen_def split: prod.splits)
  from generateResponse_frame [OF g] o show "orc_frame orc orc'"
    and "gen_log (llmClient orc') = gen_log (llmClient orc) @ [\<lparr>gc_model = m, gc_prompt = p, gc_outcome = r\<rparr>]"
    by (simp_all add: orc_frame_def)
qed

lemma sendProgressUpdate_frame:
  "orc_frame orc (sendProgressUpdate orc s ph cur m res)"
  "llmClient (sendProgressUpdate orc s ph cur m res) = llmClient orc"
  by (simp_all add: sendProgressUpdate_def orc_frame_def split: option.splits)


lemma orc_frameD:
  assumes "orc_frame orc orc'"
  shows "enabledModels orc' = enabledModels orc" "activeSessions orc' = activeSessions orc"
    "openaiClient (llmClient orc') = openaiClient (llmClient orc)"
    "anthropicClient (llmClient orc') = anthropicClient (llmClient orc)"
    "apiKeys (llmClient orc') = apiKeys (llmClient orc)"
proof -
  from assms have a: "orc' = orc\<lparr>llmClient := llmClient orc', progress_log := progress_log orc'\<rparr>"
    and b: "llmClient orc' = (llmClient orc)\<lparr>gen_log := gen_log (llmClient orc'),
                                      ext_log := ext_log (llmClient orc')\<rparr>"
    by (simp_all add: orc_frame_def)
  show "enabledModels orc' = enabledModels orc" by (subst a) simp
  show "activeSessions orc' = activeSessions orc" by (subst a) simp
  show "openaiClient (llmClient orc') = openaiClient (llmClient orc)" by (subst b) simp
  show "anthropicClient (llmClient orc') = anthropicClient (llmClient orc)" by (subst b) simp
  show "apiKeys (llmClient orc') = apiKeys (llmClient orc)" by (subst b) simp
qed

lemma model_of_cong:
  assumes "enabledModels orc' = enabledModels orc" and "models s' = models s"
    and "targetIterations s' = targetIterations s"
  shows "critiqueModel_of orc' st s' i = critiqueModel_of orc st s i"
    and "improvementModel_of orc' st s' i = improvementModel_of orc st s i"
proof -
  have a: "getAvailableModels orc' = getAvailableModels orc"
    by (simp add: getAvailableModels_def assms(1))
  have sel: "selectModelByCapabilities orc' req ex = selectModelByCapabilities orc req ex" for req ex
    unfolding selectModelByCapabilities_def a ..
  have g: "getNextModel orc' st cur i n ph = getNextModel orc st cur i n ph" for cur n ph
    by (cases st) (simp_all add: getNextModel_def capability_progression_getNextModel_def sel)
  show "critiqueModel_of orc' st s' i = critiqueModel_of orc st s i"
    by (simp add: critiqueModel_of_def g assms)
  then show "improvementModel_of orc' st s' i = improvementModel_of orc st s i"
    by (simp add: improvementModel_of_def g assms)
qed

lemma usage_total_upd:
  assumes "\<And>u. totalUsage (f u) = Suc (totalUsage u)" and "totalUsage d = 0"
  shows "usage_total (upd m f d stats) = Suc (usage_total stats)"
  by (induction stats) (auto simp: usage_total_def assms)

lemma trackModelUsage_usage_total:
  "usage_total (modelUsageStats (trackModelUsage s m ot)) = usage_total (modelUsageStats s) + 1"
  by (simp add: trackModelUsage_def usage_total_upd)

lemma trackModelUsage_frame: "session_frame s (trackModelUsage s m ot)"
  by (simp add: session_frame_def trackModelUsage_def)

lemma session_frameD:
  assumes "session_frame s s'"
  shows "models s' = models s" "targetIterations s' = targetIterations s"
    "refinedPrompt s' = refinedPrompt s" "finalReviewModel s' = finalReviewModel s"
    "s_id s' = s_id s" "handoffStrategy s' = handoffStrategy s"
    "progressCallback s' = progressCallback s" "originalPrompt s' = originalPrompt s"
proof -
  from assms have a: "s' = s\<lparr>currentIteration := currentIteration s',
      completedIterations := completedIterations s', modelUsageStats := modelUsageStats s'\<rparr>"
    by (simp add: session_frame_def)
  show "models s' = models s" by (subst a) simp
  show "targetIterations s' = targetIterations s" by (subst a) simp
  show "refinedPrompt s' = refinedPrompt s" by (subst a) simp
  show "finalReviewModel s' = finalReviewModel s" by (subst a) simp
  show "s_id s' = s_id s" by (subst a) simp
  show "handoffStrategy s' = handoffStrategy s" by (subst a) simp
  show "progressCallback s' = progressCallback s" by (subst a) simp
  show "originalPrompt s' = originalPrompt s" by (subst a) simp
qed

text \<open>What one pass of the loop does when it succeeds.\<close>

lemma run_iteration_Inr:
  assumes "run_iteration x hs i orc ls = (Inr ls', orc')"
  shows "\<exists>st e1 e2.
      hs = Some st \<and>
      ls_history ls' = ls_history ls @ [e1, e2] \<and>
      gen_log (llmClient orc') = gen_log (llmClient orc) @ [call_of_entry e1, call_of_entry e2] \<and>
      h_type e1 = critique \<and> h_type e2 = improvement \<and>
      h_iteration e1 = i \<and> h_iteration e2 = i \<and>
      h_model e1 = critiqueModel_of orc st (ls_session ls) i \<and>
      h_model e2 = improvementModel_of orc st (ls_session ls) i"
    and "orc_frame orc orc'"
    and "session_frame (ls_session ls) (ls_session ls')"
    and "completedIterations (ls_session ls') = i"
    and "usage_total (modelUsageStats (ls_session ls')) =
           usage_total (modelUsageStats (ls_session ls)) + 2"
proof -
  let ?s1 = "(ls_session ls)\<lparr>currentIteration := i\<rparr>"
  let ?orc1 = "sendProgressUpdate orc ?s1 ''iteration_start'' i None None"
  from assms obtain st where hs: "hs = Some st"
    by (auto simp: run_iteration_def Let_def split: option.splits)
  let ?cm = "critiqueModel_of ?orc1 st ?s1 i"
  let ?orc2 = "sendProgressUpdate ?orc1 ?s1 ''critique'' i (Some ?cm) None"
  let ?cp = "buildCritiquePrompt (js_text (refinedPrompt ?s1)) (ls_response ls) (int i)
       (int (targetIterations ?s1)) (ls_history ls)"
  from assms hs obtain ct orc3 where g1: "gen x ?orc2 ?cm ?cp = (Inr ct, orc3)"
    by (auto simp: run_iteration_def Let_def split: prod.splits sum.splits)
  let ?s2 = "trackModelUsage ?s1 ?cm critique"
  let ?h2 = "ls_history ls @ [\<lparr>h_iteration = i, h_model = ?cm, h_type = critique,
       h_input = ?cp, h_output = ct, h_timestamp = now x orc3\<rparr>]"
  let ?im = "improvementModel_of orc3 st ?s2 i"
  let ?orc4 = "sendProgressUpdate orc3 ?s2 ''improvement'' i (Some ?im) None"
  let ?ip = "buildImprovementPrompt (js_text (refinedPrompt ?s1)) (ls_response ls) ct (int i)
       (int (targetIterations ?s1)) ?h2"
  from assms hs g1 obtain it where g2: "gen x ?orc4 ?im ?ip = (Inr it, orc')"
    and ls': "ls' = \<lparr>ls_session = (trackModelUsage ?s2 ?im improvement)\<lparr>completedIterations := i\<rparr>,
        ls_response = it,
        ls_history = ?h2 @ [\<lparr>h_iteration = i, h_model = ?im, h_type = improvement,
           h_input = ?ip, h_output = it, h_timestamp = now x orc'\<rparr>]\<rparr>"
    by (auto simp: run_iteration_def Let_def split: prod.splits sum.splits)
  have f3: "orc_frame orc orc3"
    using gen_frame(1) [OF g1] sendProgressUpdate_frame(1) orc_frame_trans by blast
  have f5: "orc_frame orc orc'"
    using gen_frame(1) [OF g2] sendProgressUpdate_frame(1) f3 orc_frame_trans by blast
  show "orc_frame orc orc'" by (rule f5)
  have cm: "?cm = critiqueModel_of orc st (ls_session ls) i"
    by (rule model_of_cong) (simp_all add: sendProgressUpdate_def split: option.splits)
  have im: "improvementModel_of orc3 st (trackModelUsage ?s1 m critique) i =
      improvementModel_of orc st (ls_session ls) i" for m
    by (rule model_of_cong) (simp_all add: orc_frameD [OF f3] trackModelUsage_def)
  have log: "gen_log (llmClient orc') = gen_log (llmClient orc) @
        [\<lparr>gc_model = ?cm, gc_prompt = ?cp, gc_outcome = Inr ct\<rparr>,
         \<lparr>gc_model = ?im, gc_prompt = ?ip, gc_outcome = Inr it\<rparr>]"
    using gen_frame(2) [OF g1] gen_frame(2) [OF g2]
    by (simp add: sendProgressUpdate_frame(2))
  show "\<exists>st e1 e2.
      hs = Some st \<and>
      ls_history ls' = ls_history ls @ [e1, e2] \<and>
      gen_log (llmClient orc') = gen_log (llmClient orc) @ [call_of_entry e1, call_of_entry e2] \<and>
      h_type e1 = critique \<and> h_type e2 = improvement \<and>
      h_iteration e1 = i \<and> h_iteration e2 = i \<and>
      h_model e1 = critiqueModel_of orc st (ls_session ls) i \<and>
      h_model e2 = improvementModel_of orc st (ls_session ls) i"
    using hs log ls' by (simp add: cm im call_of_entry_def)
  show "session_frame (ls_session ls) (ls_session ls')"
    by (simp add: ls' session_frame_def trackModelUsage_def)
  show "completedIterations (ls_session ls') = i"
    by (simp add: ls')
  show "usage_total (modelUsageStats (ls_session ls')) =
           usage_total (modelUsageStats (ls_session ls)) + 2"
    by (simp add: ls' trackModelUsage_usage_total)
qed


lemma trace_ok_append:
  assumes "all_ok pre" and "trace_ok r calls"
  shows "trace_ok r (pre @ calls)"
  using assms
  by (cases r) (auto simp: trace_ok_def all_ok_def stops_at_failure_def butlast_append)

lemma trace_ok_cast:
  "trace_ok (Inl e :: error + 'a) calls \<Longrightarrow> trace_ok (Inl e :: error + 'b) calls"
  by (simp add: trace_ok_def)

text \<open>Every way out of one pass of the loop.\<close>

lemma run_iteration_trace:
  assumes "run_iteration x hs i orc ls = (r, orc')"
  shows "orc_frame orc orc'"
    and "\<exists>calls. gen_log (llmClient orc') = gen_log (llmClient orc) @ calls \<and> trace_ok r calls"
proof -
  let ?s1 = "(ls_session ls)\<lparr>currentIteration := i\<rparr>"
  let ?orc1 = "sendProgressUpdate orc ?s1 ''iteration_start'' i None None"
  have goal: "orc_frame orc orc' \<and>
    (\<exists>calls. gen_log (llmClient orc') = gen_log (llmClient orc) @ calls \<and> trace_ok r calls)"
  proof (cases hs)
    case None
    with assms have "r = Inl (TypeError ''getNextModel'')" and "orc' = ?orc1"
      by (simp_all add: run_iteration_def Let_def)
    then show ?thesis
      by (simp add: sendProgressUpdate_frame trace_ok_def all_ok_def)
  next
    case (Some st)
    let ?cm = "critiqueModel_of ?orc1 st ?s1 i"
    let ?orc2 = "sendProgressUpdate ?orc1 ?s1 ''critique'' i (Some ?cm) None"
    let ?cp = "buildCritiquePrompt (js_text (refinedPrompt ?s1)) (ls_response ls) (int i)
         (int (targetIterations ?s1)) (ls_history ls)"
    obtain r1 orc3 where g1: "gen x ?orc2 ?cm ?cp = (r1, orc3)"
      by (cases "gen x ?orc2 ?cm ?cp")
    have f3: "orc_frame orc orc3"
      using gen_frame(1) [OF g1] sendProgressUpdate_frame(1) orc_frame_trans by blast
    have l3: "gen_log (llmClient orc3) = gen_log (llmClient orc) @
        [\<lparr>gc_model = ?cm, gc_prompt = ?cp, gc_outcome = r1\<rparr>]"
      using gen_frame(2) [OF g1] by (simp add: sendProgressUpdate_frame(2))
    show ?thesis
    proof (cases r1)
      case (Inl e)
      with assms Some g1 have "r = Inl e" and "orc' = orc3"
        by (simp_all add: run_iteration_def Let_def)
      with f3 l3 Inl show ?thesis
        by (simp add: trace_ok_def stops_at_failure_def all_ok_def)
    next
      case (Inr ct)
      let ?s2 = "trackModelUsage ?s1 ?cm critique"
      let ?h2 = "ls_history ls @ [\<lparr>h_iteration = i, h_model = ?cm, h_type = critique,
           h_input = ?cp, h_output = ct, h_timestamp = now x orc3\<rparr>]"
      let ?im = "improvementModel_of orc3 st ?s2 i"
      let ?orc4 = "sendProgressUpdate orc3 ?s2 ''improvement'' i (Some ?im) None"
      let ?ip = "buildImprovementPrompt (js_text (refinedPrompt ?s1)) (ls_response ls) ct (int i)
           (int (targetIterations ?s1)) ?h2"
      obtain r2 orc5 where g2: "gen x ?orc4 ?im ?ip = (r2, orc5)"
        by (cases "gen x ?orc4 ?im ?ip")
      have f5: "orc_frame orc orc5"
        using gen_frame(1) [OF g2] sendProgressUpdate_frame(1) f3 orc_frame_trans by blast
      have l5: "gen_log (llmClient orc5) = gen_log (llmClient orc) @
          [\<lparr>gc_model = ?cm, gc_prompt = ?cp, gc_outcome = Inr ct\<rparr>,
           \<lparr>gc_model = ?im, gc_prompt = ?ip, gc_outcome = r2\<rparr>]"
        using gen_frame(2) [OF g2] l3 Inr by (simp add: sendProgressUpdate_frame(2))
      from assms Some g1 Inr g2 have o: "orc' = orc5" and "isl r = isl r2"
        and "\<And>e. r2 = Inl e \<Longrightarrow> r = Inl e"
        by (auto simp: run_iteration_def Let_def split: sum.splits)
      with f5 l5 show ?thesis
        by (cases r2; cases r) (auto simp: trace_ok_def stops_at_failure_def all_ok_def failed_def)
    qed
  qed
  from goal show "orc_frame orc orc'" ..
  from goal show "\<exists>calls. gen_log (llmClient orc') = gen_log (llmClient orc) @ calls \<and> trace_ok r calls" ..
qed

text \<open>The loop, by induction along its own recursion.\<close>

lemma run_iterations_trace:
  assumes "run_iterations x hs i orc ls = (r, orc')"
  shows "orc_frame orc orc' \<and>
    (\<exists>calls. gen_log (llmClient orc') = gen_log (llmClient orc) @ calls \<and> trace_ok r calls)"
  using assms
proof (induction x hs i orc ls arbitrary: r orc' rule: run_iterations.induct)
  case (1 x hs i orc ls)
  show ?case
  proof (cases "i \<le> targetIterations (ls_session ls)")
    case False
    with "1.prems" have "r = Inr ls" and "orc' = orc"
      by (simp_all add: run_iterations.simps [of x hs i orc ls])
    then show ?thesis
      by (simp add: orc_frame_refl trace_ok_def all_ok_def)
  next
    case True
    obtain r1 orc1 where step: "run_iteration x hs i orc ls = (r1, orc1)"
      by (cases "run_iteration x hs i orc ls")
    from run_iteration_trace [OF step] obtain calls1 where
      f1: "orc_frame orc orc1" and
      l1: "gen_log (llmClient orc1) = gen_log (llmClient orc) @ calls1" and
      t1: "trace_ok r1 calls1"
      by blast
    show ?thesis
    proof (cases r1)
      case (Inl e)
      with "1.prems" True step have "r = Inl e" and "orc' = orc1"
        by (simp_all add: run_iterations.simps [of x hs i orc ls])
      with f1 l1 t1 Inl show ?thesis
        using trace_ok_cast by blast
    next
      case (Inr ls1)
      with "1.prems" True step have rest: "run_iterations x hs (Suc i) orc1 ls1 = (r, orc')"
        by (simp add: run_iterations.simps [of x hs i orc ls])
      from "1.IH" [OF True step [symmetric] Inr rest] obtain calls2 where
        f2: "orc_frame orc1 orc'" and
        l2: "gen_log (llmClient orc') = gen_log (llmClient orc1) @ calls2" and
        t2: "trace_ok r calls2"
        by blast
      from t1 Inr have "all_ok calls1"
        by (simp add: trace_ok_def)
      then have "trace_ok r (calls1 @ calls2)"
        using t2 by (rule trace_ok_append)
      with f1 f2 l1 l2 show ?thesis
        using orc_frame_trans by auto
    qed
  qed
qed


lemma run_iterations_Inr:
  assumes "run_iterations x hs i orc ls = (Inr ls', orc')"
  shows "session_frame (ls_session ls) (ls_session ls') \<and>
    length (gen_log (llmClient orc')) =
      length (gen_log (llmClient orc)) + 2 * (Suc (targetIterations (ls_session ls)) - i) \<and>
    map h_type (ls_history ls') =
      map h_type (ls_history ls) @
      concat (replicate (Suc (targetIterations (ls_session ls)) - i) [critique, improvement]) \<and>
    usage_total (modelUsageStats (ls_session ls')) =
      usage_total (modelUsageStats (ls_session ls)) + 2 * (Suc (targetIterations (ls_session ls)) - i) \<and>
    (if i \<le> targetIterations (ls_session ls)
     then completedIterations (ls_session ls') = targetIterations (ls_session ls) \<and> hs \<noteq> None
     else ls' = ls)"
  using assms
proof (induction x hs i orc ls arbitrary: ls' orc' rule: run_iterations.induct)
  case (1 x hs i orc ls)
  let ?N = "targetIterations (ls_session ls)"
  show ?case
  proof (cases "i \<le> ?N")
    case False
    with "1.prems" have "ls' = ls" and "orc' = orc"
      by (simp_all add: run_iterations.simps [of x hs i orc ls])
    with False show ?thesis
      by (simp add: session_frame_refl)
  next
    case True
    obtain r1 orc1 where step: "run_iteration x hs i orc ls = (r1, orc1)"
      by (cases "run_iteration x hs i orc ls")
    from "1.prems" True step obtain ls1 where r1: "r1 = Inr ls1"
      and rest: "run_iterations x hs (Suc i) orc1 ls1 = (Inr ls', orc')"
      by (cases r1) (simp_all add: run_iterations.simps [of x hs i orc ls])
    note one = run_iteration_Inr [OF step [unfolded r1]]
    note ih = "1.IH" [OF True step [symmetric] r1 rest]
    have N1: "targetIterations (ls_session ls1) = ?N"
      using session_frameD(2) [OF one(3)] .
    have suc: "Suc ?N - i = Suc (Suc ?N - Suc i)"
      using True by simp
    have frame: "session_frame (ls_session ls) (ls_session ls')"
      using one(3) ih session_frame_trans by blast
    have len: "length (gen_log (llmClient orc')) =
        length (gen_log (llmClient orc)) + 2 * (Suc ?N - i)"
      using one(1) ih True by (auto simp: N1)
    have hist: "map h_type (ls_history ls') =
        map h_type (ls_history ls) @ concat (replicate (Suc ?N - i) [critique, improvement])"
      using one(1) ih by (auto simp: N1 suc)
    have use: "usage_total (modelUsageStats (ls_session ls')) =
        usage_total (modelUsageStats (ls_session ls)) + 2 * (Suc ?N - i)"
      using one(5) ih True by (auto simp: N1)
    have fin: "completedIterations (ls_session ls') = ?N \<and> hs \<noteq> None"
    proof (cases "Suc i \<le> ?N")
      case True
      with ih one(1) show ?thesis by (auto simp: N1)
    next
      case False
      with ih have "ls' = ls1" by (simp add: N1)
      with one(4) one(1) True False show ?thesis by auto
    qed
    from frame len hist use fin True show ?thesis
      by simp
  qed
qed

lemma planned_models_cong:
  assumes "orc_frame orc orc'" and "session_frame s s'"
  shows "planned_models orc' st s' i = planned_models orc st s i"
  unfolding planned_models_def
  using model_of_cong [OF orc_frameD(1) [OF assms(1)] session_frameD(1,2) [OF assms(2)]]
  by simp

lemma run_iterations_models:
  assumes "run_iterations x (Some st) i orc ls = (Inr ls', orc')"
  shows "map gc_model (drop (length (gen_log (llmClient orc))) (gen_log (llmClient orc'))) =
    concat (map (planned_models orc st (ls_session ls)) [i..<Suc (targetIterations (ls_session ls))])"
proof -
  have "run_iterations x hs i orc ls = (Inr ls', orc') \<Longrightarrow> hs = Some st \<Longrightarrow>
    map gc_model (drop (length (gen_log (llmClient orc))) (gen_log (llmClient orc'))) =
    concat (map (planned_models orc st (ls_session ls)) [i..<Suc (targetIterations (ls_session ls))])"
    for hs
  proof (induction x hs i orc ls arbitrary: ls' orc' rule: run_iterations.induct)
    case (1 x hs i orc ls)
    let ?N = "targetIterations (ls_session ls)"
    show ?case
    proof (cases "i \<le> ?N")
      case False
      with "1.prems"(1) have "orc' = orc"
        by (simp add: run_iterations.simps [of x hs i orc ls])
      with False show ?thesis by simp
    next
      case True
      obtain r1 orc1 where step: "run_iteration x hs i orc ls = (r1, orc1)"
        by (cases "run_iteration x hs i orc ls")
      from "1.prems"(1) True step obtain ls1 where r1: "r1 = Inr ls1"
        and rest: "run_iterations x hs (Suc i) orc1 ls1 = (Inr ls', orc')"
        by (cases r1) (simp_all add: run_iterations.simps [of x hs i orc ls])
      note one = run_iteration_Inr [OF step [unfolded r1]]
      note ih = "1.IH" [OF True step [symmetric] r1 rest "1.prems"(2)]
      have N1: "targetIterations (ls_session ls1) = ?N"
        using session_frameD(2) [OF one(3)] .
      from one(1) "1.prems"(2) obtain c1 c2 where
        l1: "gen_log (llmClient orc1) = gen_log (llmClient orc) @ [c1, c2]" and
        m1: "map gc_model [c1, c2] = planned_models orc st (ls_session ls) i"
        by (auto simp: planned_models_def call_of_entry_def)
      from run_iterations_trace [OF rest] obtain calls2 where
        l2: "gen_log (llmClient orc') = gen_log (llmClient orc1) @ calls2"
        by blast
      have pm: "planned_models orc1 st (ls_session ls1) j = planned_models orc st (ls_session ls) j" for j
        using planned_models_cong [OF one(2) one(3)] .
      have m2: "map gc_model calls2 =
          concat (map (planned_models orc st (ls_session ls)) [Suc i..<Suc ?N])"
        using ih l2 by (simp add: N1 pm del: upt_Suc)
      have up: "[i..<Suc ?N] = i # [Suc i..<Suc ?N]"
        using True by (intro upt_conv_Cons) simp
      have "drop (length (gen_log (llmClient orc))) (gen_log (llmClient orc')) = [c1, c2] @ calls2"
        using l1 l2 by simp
      then show ?thesis
        unfolding up using m1 m2 by (simp del: upt_Suc)
    qed
  qed
  with assms show ?thesis by blast
qed

lemma final_model_of_cong:
  assumes "orc_frame orc orc'" and "session_frame s s'"
  shows "final_model_of orc' s' = final_model_of orc s"
proof -
  have "isModelAvailable (llmClient orc') = isModelAvailable (llmClient orc)"
    unfolding isModelAvailable_def orc_frameD(3,4) [OF assms(1)] ..
  then have "getBestFinalReviewModel (llmClient orc') = getBestFinalReviewModel (llmClient orc)"
    by (simp add: getBestFinalReviewModel_def getFinalReviewModels_def llm_getAvailableModels_def)
  then show ?thesis
    by (simp add: final_model_of_def session_frameD(4) [OF assms(2)])
qed

lemma final_review_step_cases:
  assumes "final_review_step x orc ls = (r, orc')"
  shows "orc_frame orc orc'"
    and "\<exists>p. gen_log (llmClient orc') = gen_log (llmClient orc) @
           [\<lparr>gc_model = final_model_of orc (ls_session ls), gc_prompt = p,
             gc_outcome = (case r of Inl e \<Rightarrow> Inl e | Inr res \<Rightarrow> Inr (finalOutput res))\<rparr>]"
    and "\<And>res. r = Inr res \<Longrightarrow>
           r_completedIterations res = completedIterations (ls_session ls) \<and>
           r_targetIterations res = targetIterations (ls_session ls) \<and>
           r_refinedPrompt res = refinedPrompt (ls_session ls) \<and>
           r_iterationHistory res = ls_history ls \<and>
           usage_total (r_modelUsageStats res) = usage_total (modelUsageStats (ls_session ls)) + 1"
proof -
  let ?s = "ls_session ls"
  let ?fm = "if truthy (finalReviewModel ?s) then finalReviewModel ?s
             else getBestFinalReviewModel (llmClient orc)"
  let ?orc1 = "sendProgressUpdate orc ?s ''final_review'' (targetIterations ?s + 1) ?fm None"
  let ?p = "buildFinalReviewPrompt (js_text (refinedPrompt ?s)) (ls_response ls)
             (completedIterations ?s) (ls_history ls)"
  obtain r1 orc2 where g: "gen x ?orc1 (js_text ?fm) ?p = (r1, orc2)"
    by (cases "gen x ?orc1 (js_text ?fm) ?p")
  have f2: "orc_frame orc orc2"
    using gen_frame(1) [OF g] sendProgressUpdate_frame(1) orc_frame_trans by blast
  have l2: "gen_log (llmClient orc2) = gen_log (llmClient orc) @
      [\<lparr>gc_model = final_model_of orc ?s, gc_prompt = ?p, gc_outcome = r1\<rparr>]"
    using gen_frame(2) [OF g] by (simp add: sendProgressUpdate_frame(2) final_model_of_def)
  let ?s' = "trackModelUsage ?s (js_text ?fm) final_review"
  have main: "orc_frame orc orc' \<and>
    gen_log (llmClient orc') = gen_log (llmClient orc) @
           [\<lparr>gc_model = final_model_of orc ?s, gc_prompt = ?p,
             gc_outcome = (case r of Inl e \<Rightarrow> Inl e | Inr res \<Rightarrow> Inr (finalOutput res))\<rparr>] \<and>
    (\<forall>res. r = Inr res \<longrightarrow>
           r_completedIterations res = completedIterations ?s \<and>
           r_targetIterations res = targetIterations ?s \<and>
           r_refinedPrompt res = refinedPrompt ?s \<and>
           r_iterationHistory res = ls_history ls \<and>
           usage_total (r_modelUsageStats res) = usage_total (modelUsageStats ?s) + 1)"
  proof (cases r1)
    case (Inl e)
    with assms g have "orc' = orc2" and "r = Inl e"
      by (simp_all add: final_review_step_def Let_def)
    with f2 l2 Inl show ?thesis by simp
  next
    case (Inr t)
    let ?res = "\<lparr>r_originalPrompt = originalPrompt ?s', r_refinedPrompt = refinedPrompt ?s',
        finalOutput = t, r_iterationHistory = ls_history ls,
        sessionDuration = now x orc2 - startTime ?s',
        r_targetIterations = targetIterations ?s',
        r_completedIterations = completedIterations ?s',
        r_handoffStrategy = handoffStrategy ?s',
        r_modelUsageStats = modelUsageStats ?s'\<rparr>"
    from assms g Inr have r: "r = Inr ?res"
      and o: "orc' = sendProgressUpdate orc2 ?s' ''completed'' (completedIterations ?s') None (Some ?res)"
      by (simp_all add: final_review_step_def Let_def)
    have "orc_frame orc orc'"
      unfolding o using f2 sendProgressUpdate_frame(1) orc_frame_trans by blast
    moreover have "gen_log (llmClient orc') = gen_log (llmClient orc) @
           [\<lparr>gc_model = final_model_of orc ?s, gc_prompt = ?p, gc_outcome = Inr t\<rparr>]"
      unfolding o using l2 Inr by (simp add: sendProgressUpdate_frame(2))
    moreover have "usage_total (modelUsageStats ?s') = usage_total (modelUsageStats ?s) + 1"
      by (rule trackModelUsage_usage_total)
    moreover have "completedIterations ?s' = completedIterations ?s"
      "targetIterations ?s' = targetIterations ?s" "refinedPrompt ?s' = refinedPrompt ?s"
      by (simp_all add: trackModelUsage_def)
    ultimately show ?thesis
      by (simp add: r)
  qed
  from main show "orc_frame orc orc'" by blast
  from main show "\<exists>p. gen_log (llmClient orc') = gen_log (llmClient orc) @
           [\<lparr>gc_model = final_model_of orc (ls_session ls), gc_prompt = p,
             gc_outcome = (case r of Inl e \<Rightarrow> Inl e | Inr res \<Rightarrow> Inr (finalOutput res))\<rparr>]"
    by blast
  from main show "\<And>res. r = Inr res \<Longrightarrow>
           r_completedIterations res = completedIterations (ls_session ls) \<and>
           r_targetIterations res = targetIterations (ls_session ls) \<and>
           r_refinedPrompt res = refinedPrompt (ls_session ls) \<and>
           r_iterationHistory res = ls_history ls \<and>
           usage_total (r_modelUsageStats res) = usage_total (modelUsageStats (ls_session ls)) + 1"
    by blast
qed

text \<open>
  \<open>executeCollaborativeProcess\<close>, unfolded once: the initial call, the loop and the final
  review, with the state between them.
\<close>

lemma executeCollaborativeProcess_stages:
  assumes "executeCollaborativeProcess x orc s = (r, orc')"
  obtains r0 orc3 where
      "gen x (sendProgressUpdate (sendProgressUpdate orc s ''starting'' 0 None None) s
                ''initial_generation'' 0 (Some (primaryModel (models s))) None)
         (primaryModel (models s)) (js_text (refinedPrompt s)) = (r0, orc3)"
      "\<And>e. r0 = Inl e \<Longrightarrow>
         r = Inl e \<and> orc' = orc3\<lparr>activeSessions := (activeSessions orc3)(s_id s := None)\<rparr>"
      "\<And>t. r0 = Inr t \<Longrightarrow>
         \<exists>rl orc4.
           run_iterations x (handoffStrategies (handoffStrategy s)) 1 orc3
             \<lparr>ls_session = trackModelUsage s (primaryModel (models s)) initial_generation,
              ls_response = t,
              ls_history = [\<lparr>h_iteration = 0, h_model = primaryModel (models s),
                 h_type = initial_generation, h_input = js_text (refinedPrompt s), h_output = t,
                 h_timestamp = now x orc3\<rparr>]\<rparr> = (rl, orc4) \<and>
           (\<forall>e. rl = Inl e \<longrightarrow>
              r = Inl e \<and> orc' = orc4\<lparr>activeSessions := (activeSessions orc4)(s_id s := None)\<rparr>) \<and>
           (\<forall>ls. rl = Inr ls \<longrightarrow>
              (\<exists>orc5. final_review_step x orc4 ls = (r, orc5) \<and>
                 orc' = orc5\<lparr>activeSessions := (activeSessions orc5)(s_id s := None)\<rparr>))"
proof -
  let ?orc2 = "sendProgressUpdate (sendProgressUpdate orc s ''starting'' 0 None None) s
                ''initial_generation'' 0 (Some (primaryModel (models s))) None"
  obtain r0 orc3 where g: "gen x ?orc2 (primaryModel (models s)) (js_text (refinedPrompt s)) = (r0, orc3)"
    by (cases "gen x ?orc2 (primaryModel (models s)) (js_text (refinedPrompt s))")
  show thesis
  proof (rule that [OF g])
    fix e assume "r0 = Inl e"
    with assms g show "r = Inl e \<and> orc' = orc3\<lparr>activeSessions := (activeSessions orc3)(s_id s := None)\<rparr>"
      by (auto simp: executeCollaborativeProcess_def Let_def)
  next
    fix t assume t: "r0 = Inr t"
    let ?ls0 = "\<lparr>ls_session = trackModelUsage s (primaryModel (models s)) initial_generation,
              ls_response = t,
              ls_history = [\<lparr>h_iteration = 0, h_model = primaryModel (models s),
                 h_type = initial_generation, h_input = js_text (refinedPrompt s), h_output = t,
                 h_timestamp = now x orc3\<rparr>]\<rparr>"
    obtain rl orc4 where
      l: "run_iterations x (handoffStrategies (handoffStrategy s)) 1 orc3 ?ls0 = (rl, orc4)"
      by (cases "run_iterations x (handoffStrategies (handoffStrategy s)) 1 orc3 ?ls0")
    have a: "\<forall>e. rl = Inl e \<longrightarrow>
              r = Inl e \<and> orc' = orc4\<lparr>activeSessions := (activeSessions orc4)(s_id s := None)\<rparr>"
      using assms g t l by (auto simp: executeCollaborativeProcess_def Let_def)
    have b: "\<forall>ls. rl = Inr ls \<longrightarrow>
              (\<exists>orc5. final_review_step x orc4 ls = (r, orc5) \<and>
                 orc' = orc5\<lparr>activeSessions := (activeSessions orc5)(s_id s := None)\<rparr>)"
      using assms g t l
      by (auto simp: executeCollaborativeProcess_def Let_def split: prod.splits)
    from l a b show "\<exists>rl orc4.
           run_iterations x (handoffStrategies (handoffStrategy s)) 1 orc3 ?ls0 = (rl, orc4) \<and>
           (\<forall>e. rl = Inl e \<longrightarrow>
              r = Inl e \<and> orc' = orc4\<lparr>activeSessions := (activeSessions orc4)(s_id s := None)\<rparr>) \<and>
           (\<forall>ls. rl = Inr ls \<longrightarrow>
              (\<exists>orc5. final_review_step x orc4 ls = (r, orc5) \<and>
                 orc' = orc5\<lparr>activeSessions := (activeSessions orc5)(s_id s := None)\<rparr>))"
      by blast
  qed
qed

text \<open>The calls of the loop are the calls that its new history entries record.\<close>

lemma run_iterations_entries:
  assumes "run_iterations x hs i orc ls = (Inr ls', orc')"
  shows "\<exists>es. ls_history ls' = ls_history ls @ es \<and>
    gen_log (llmClient orc') = gen_log (llmClient orc) @ map call_of_entry es \<and>
    map h_iteration es = concat (map (\<lambda>j. [j, j]) [i..<Suc (targetIterations (ls_session ls))])"
  using assms
proof (induction x hs i orc ls arbitrary: ls' orc' rule: run_iterations.induct)
  case (1 x hs i orc ls)
  let ?N = "targetIterations (ls_session ls)"
  show ?case
  proof (cases "i \<le> ?N")
    case False
    with "1.prems" have "ls' = ls" and "orc' = orc"
      by (simp_all add: run_iterations.simps [of x hs i orc ls])
    with False show ?thesis by simp
  next
    case True
    obtain r1 orc1 where step: "run_iteration x hs i orc ls = (r1, orc1)"
      by (cases "run_iteration x hs i orc ls")
    from "1.prems" True step obtain ls1 where r1: "r1 = Inr ls1"
      and rest: "run_iterations x hs (Suc i) orc1 ls1 = (Inr ls', orc')"
      by (cases r1) (simp_all add: run_iterations.simps [of x hs i orc ls])
    note one = run_iteration_Inr [OF step [unfolded r1]]
    have N1: "targetIterations (ls_session ls1) = ?N"
      using session_frameD(2) [OF one(3)] .
    from one(1) obtain e1 e2 where
      h1: "ls_history ls1 = ls_history ls @ [e1, e2]" and
      l1: "gen_log (llmClient orc1) = gen_log (llmClient orc) @ map call_of_entry [e1, e2]" and
      i1: "map h_iteration [e1, e2] = [i, i]"
      by auto
    from "1.IH" [OF True step [symmetric] r1 rest] obtain es where
      h2: "ls_history ls' = ls_history ls1 @ es" and
      l2: "gen_log (llmClient orc') = gen_log (llmClient orc1) @ map call_of_entry es" and
      i2: "map h_iteration es = concat (map (\<lambda>j. [j, j]) [Suc i..<Suc ?N])"
      unfolding N1 by blast
    have up: "[i..<Suc ?N] = i # [Suc i..<Suc ?N]"
      using True by (intro upt_conv_Cons) simp
    have "ls_history ls' = ls_history ls @ ([e1, e2] @ es)"
      using h1 h2 by simp
    moreover have "gen_log (llmClient orc') =
        gen_log (llmClient orc) @ map call_of_entry ([e1, e2] @ es)"
      using l1 l2 by simp
    moreover have "map h_iteration ([e1, e2] @ es) = concat (map (\<lambda>j. [j, j]) [i..<Suc ?N])"
      unfolding up using i1 i2 by (simp del: upt_Suc)
    ultimately show ?thesis by blast
  qed
qed

lemma drop_frame_update:
  assumes "orc_frame orc orc5" and "orc' = orc5\<lparr>activeSessions := A\<rparr>"
  shows "orc_frame orc (orc'\<lparr>activeSessions := activeSessions orc\<rparr>)"
    and "llmClient orc' = llmClient orc5" and "activeSessions orc' = A"
    and "enabledModels orc' = enabledModels orc"
proof -
  from assms(1) have a: "orc5 = orc\<lparr>llmClient := llmClient orc5, progress_log := progress_log orc5\<rparr>"
    and b: "llmClient orc5 = (llmClient orc)\<lparr>gen_log := gen_log (llmClient orc5),
                                      ext_log := ext_log (llmClient orc5)\<rparr>"
    by (simp_all add: orc_frame_def)
  show "llmClient orc' = llmClient orc5" "activeSessions orc' = A"
    by (simp_all add: assms(2))
  show "enabledModels orc' = enabledModels orc"
    using orc_frameD(1) [OF assms(1)] by (simp add: assms(2))
  have "orc'\<lparr>activeSessions := activeSessions orc\<rparr> =
      orc\<lparr>llmClient := llmClient orc5, progress_log := progress_log orc5\<rparr>"
    unfolding assms(2) by (subst a) simp
  with b show "orc_frame orc (orc'\<lparr>activeSessions := activeSessions orc\<rparr>)"
    by (simp add: orc_frame_def)
qed

text \<open>Every run of the pipeline: the session leaves the map and the calls form a trace.\<close>

lemma executeCollaborativeProcess_trace:
  assumes "executeCollaborativeProcess x orc s = (r, orc')"
  shows "activeSessions orc' = (activeSessions orc)(s_id s := None)"
    and "orc_frame orc (orc'\<lparr>activeSessions := activeSessions orc\<rparr>)"
    and "\<exists>calls. gen_log (llmClient orc') = gen_log (llmClient orc) @ calls \<and> trace_ok r calls"
proof -
  let ?orc2 = "sendProgressUpdate (sendProgressUpdate orc s ''starting'' 0 None None) s
                ''initial_generation'' 0 (Some (primaryModel (models s))) None"
  have f2: "orc_frame orc ?orc2"
    using sendProgressUpdate_frame(1) orc_frame_trans by blast
  have l2: "llmClient ?orc2 = llmClient orc"
    by (simp add: sendProgressUpdate_frame(2))
  from assms obtain r0 orc3 where
    g: "gen x ?orc2 (primaryModel (models s)) (js_text (refinedPrompt s)) = (r0, orc3)" and
    err: "\<And>e. r0 = Inl e \<Longrightarrow>
         r = Inl e \<and> orc' = orc3\<lparr>activeSessions := (activeSessions orc3)(s_id s := None)\<rparr>" and
    ok: "\<And>t. r0 = Inr t \<Longrightarrow>
         \<exists>rl orc4.
           run_iterations x (handoffStrategies (handoffStrategy s)) 1 orc3
             \<lparr>ls_session = trackModelUsage s (primaryModel (models s)) initial_generation,
              ls_response = t,
              ls_history = [\<lparr>h_iteration = 0, h_model = primaryModel (models s),
                 h_type = initial_generation, h_input = js_text (refinedPrompt s), h_output = t,
                 h_timestamp = now x orc3\<rparr>]\<rparr> = (rl, orc4) \<and>
           (\<forall>e. rl = Inl e \<longrightarrow>
              r = Inl e \<and> orc' = orc4\<lparr>activeSessions := (activeSessions orc4)(s_id s := None)\<rparr>) \<and>
           (\<forall>ls. rl = Inr ls \<longrightarrow>
              (\<exists>orc5. final_review_step x orc4 ls = (r, orc5) \<and>
                 orc' = orc5\<lparr>activeSessions := (activeSessions orc5)(s_id s := None)\<rparr>))"
    by (rule executeCollaborativeProcess_stages) blast
  have f3: "orc_frame orc orc3"
    using gen_frame(1) [OF g] f2 orc_frame_trans by blast
  have l3: "gen_log (llmClient orc3) = gen_log (llmClient orc) @
      [\<lparr>gc_model = primaryModel (models s), gc_prompt = js_text (refinedPrompt s), gc_outcome = r0\<rparr>]"
    using gen_frame(2) [OF g] by (simp add: l2)
  let ?c0 = "\<lparr>gc_model = primaryModel (models s), gc_prompt = js_text (refinedPrompt s),
      gc_outcome = r0\<rparr>"
  have main: "\<exists>orcL calls. orc_frame orc orcL \<and>
      orc' = orcL\<lparr>activeSessions := (activeSessions orcL)(s_id s := None)\<rparr> \<and>
      gen_log (llmClient orcL) = gen_log (llmClient orc) @ calls \<and> trace_ok r calls"
  proof (cases r0)
    case (Inl e)
    have "trace_ok r [?c0]"
      using err [OF Inl] Inl by (simp add: trace_ok_def stops_at_failure_def all_ok_def)
    with f3 l3 err [OF Inl] show ?thesis
      by (intro exI [of _ orc3] exI [of _ "[?c0]"] conjI) simp_all
  next
    case (Inr t)
    have ok0: "all_ok [?c0]"
      by (simp add: all_ok_def failed_def Inr)
    from ok [OF Inr] obtain rl orc4 ls0 where
      loop: "run_iterations x (handoffStrategies (handoffStrategy s)) 1 orc3 ls0 = (rl, orc4)" and
      lerr: "\<And>e. rl = Inl e \<Longrightarrow>
              r = Inl e \<and> orc' = orc4\<lparr>activeSessions := (activeSessions orc4)(s_id s := None)\<rparr>" and
      lok: "\<And>ls. rl = Inr ls \<Longrightarrow>
              (\<exists>orc5. final_review_step x orc4 ls = (r, orc5) \<and>
                 orc' = orc5\<lparr>activeSessions := (activeSessions orc5)(s_id s := None)\<rparr>)"
      by blast
    from run_iterations_trace [OF loop] obtain calls1 where
      f34: "orc_frame orc3 orc4" and
      l4: "gen_log (llmClient orc4) = gen_log (llmClient orc3) @ calls1" and
      t4: "trace_ok rl calls1"
      by blast
    have f4: "orc_frame orc orc4"
      using f3 f34 by (rule orc_frame_trans)
    have l4': "gen_log (llmClient orc4) = gen_log (llmClient orc) @ ([?c0] @ calls1)"
      by (simp add: l4 l3)
    show ?thesis
    proof (cases rl)
      case (Inl e)
      from t4 Inl have "trace_ok r calls1"
        using lerr [OF Inl] by (simp add: trace_ok_def)
      from trace_ok_append [OF ok0 this] have "trace_ok r ([?c0] @ calls1)" .
      with lerr [OF Inl] f4 l4' show ?thesis
        by (intro exI [of _ orc4] exI [of _ "[?c0] @ calls1"] conjI) simp_all
    next
      case (Inr ls)
      from lok [OF Inr] obtain orc5 where
        fr: "final_review_step x orc4 ls = (r, orc5)" and
        o': "orc' = orc5\<lparr>activeSessions := (activeSessions orc5)(s_id s := None)\<rparr>"
        by blast
      from final_review_step_cases(2) [OF fr] obtain p where
        l5p: "gen_log (llmClient orc5) = gen_log (llmClient orc4) @
           [\<lparr>gc_model = final_model_of orc4 (ls_session ls), gc_prompt = p,
             gc_outcome = (case r of Inl e \<Rightarrow> Inl e | Inr res \<Rightarrow> Inr (finalOutput res))\<rparr>]"
        by (elim exE)
      define c where "c = \<lparr>gc_model = final_model_of orc4 (ls_session ls), gc_prompt = p,
             gc_outcome = (case r of Inl e \<Rightarrow> Inl e | Inr res \<Rightarrow> Inr (finalOutput res))\<rparr>"
      have l5: "gen_log (llmClient orc5) = gen_log (llmClient orc4) @ [c]"
        using l5p by (simp add: c_def)
      have c: "gc_outcome c = (case r of Inl e \<Rightarrow> Inl e | Inr res \<Rightarrow> Inr (finalOutput res))"
        by (simp add: c_def)
      have f5: "orc_frame orc orc5"
        using f4 final_review_step_cases(1) [OF fr] by (rule orc_frame_trans)
      have tc: "trace_ok r [c]"
        using c by (cases r) (simp_all add: trace_ok_def stops_at_failure_def all_ok_def failed_def)
      have "all_ok calls1"
        using t4 Inr by (simp add: trace_ok_def)
      from trace_ok_append [OF ok0 trace_ok_append [OF this tc]]
      have "trace_ok r ([?c0] @ (calls1 @ [c]))" .
      moreover have "gen_log (llmClient orc5) = gen_log (llmClient orc) @ ([?c0] @ (calls1 @ [c]))"
        by (simp add: l5 l4')
      ultimately show ?thesis
        using o' f5 by (intro exI [of _ orc5] exI [of _ "[?c0] @ (calls1 @ [c])"] conjI)
    qed
  qed
  then obtain orcL calls where
    fL: "orc_frame orc orcL" and
    o': "orc' = orcL\<lparr>activeSessions := (activeSessions orcL)(s_id s := None)\<rparr>" and
    lL: "gen_log (llmClient orcL) = gen_log (llmClient orc) @ calls" and
    tL: "trace_ok r calls"
    by blast
  show "activeSessions orc' = (activeSessions orc)(s_id s := None)"
    using drop_frame_update(3) [OF fL o'] orc_frameD(2) [OF fL] by simp
  show "orc_frame orc (orc'\<lparr>activeSessions := activeSessions orc\<rparr>)"
    using drop_frame_update(1) [OF fL o'] .
  show "\<exists>calls. gen_log (llmClient orc') = gen_log (llmClient orc) @ calls \<and> trace_ok r calls"
    using drop_frame_update(2) [OF fL o'] lL tL by auto
qed

section \<open>When the pipeline returns a result\<close>

lemma ready_frame:
  assumes "ready x orc" and "orc_frame orc orc'"
  shows "ready x orc'"
  using assms(1) orc_frameD(3,4) [OF assms(2)] by (simp add: ready_def)

lemma generateResponse_succeeds:
  assumes "responsive x" and "openaiClient c \<noteq> None" and "anthropicClient c \<noteq> None"
    and "registered m"
  shows "\<exists>t c'. generateResponse x c m p = (Inr t, c')"
proof -
  from assms(4) obtain config where cfg: "map_of modelConfig m = Some config"
    by (auto simp: registered_def)
  let ?call = "\<lparr>ec_provider = cfg_provider config, ec_model = modelName config,
      ec_max_tokens = maxTokens config, ec_prompt = p\<rparr>"
  from assms(1) obtain t where t: "ext x (length (ext_log c)) ?call = Replied [t]" "trim t \<noteq> []"
    unfolding responsive_def by blast
  show ?thesis
  proof (cases "cfg_provider config")
    case openai
    with cfg t assms(2) show ?thesis
      by (simp add: generateResponse_def generateOpenAIResponse_def call_provider_def)
  next
    case anthropic
    with cfg t assms(3) show ?thesis
      by (simp add: generateResponse_def generateAnthropicResponse_def call_provider_def)
  qed
qed

lemma gen_succeeds:
  assumes "ready x orc" and "registered m"
  shows "\<exists>t orc'. gen x orc m p = (Inr t, orc')"
proof -
  from assms obtain t c' where "generateResponse x (llmClient orc) m p = (Inr t, c')"
    using generateResponse_succeeds unfolding ready_def by blast
  then show ?thesis
    by (simp add: gen_def)
qed

lemma run_iteration_succeeds:
  assumes "ready x orc"
    and "list_all registered (planned_models orc st (ls_session ls) i)"
  shows "\<exists>ls' orc'. run_iteration x (Some st) i orc ls = (Inr ls', orc')"
proof -
  let ?s1 = "(ls_session ls)\<lparr>currentIteration := i\<rparr>"
  let ?orc1 = "sendProgressUpdate orc ?s1 ''iteration_start'' i None None"
  let ?cm = "critiqueModel_of ?orc1 st ?s1 i"
  let ?orc2 = "sendProgressUpdate ?orc1 ?s1 ''critique'' i (Some ?cm) None"
  let ?cp = "buildCritiquePrompt (js_text (refinedPrompt ?s1)) (ls_response ls) (int i)
       (int (targetIterations ?s1)) (ls_history ls)"
  have cm: "?cm = critiqueModel_of orc st (ls_session ls) i"
    by (rule model_of_cong) (simp_all add: sendProgressUpdate_def split: option.splits)
  have f2: "orc_frame orc ?orc2"
    using sendProgressUpdate_frame(1) orc_frame_trans by blast
  have "registered ?cm"
    using assms(2) by (simp add: cm planned_models_def)
  with ready_frame [OF assms(1) f2] obtain ct orc3 where g1: "gen x ?orc2 ?cm ?cp = (Inr ct, orc3)"
    using gen_succeeds by blast
  have f3: "orc_frame orc orc3"
    using gen_frame(1) [OF g1] f2 orc_frame_trans by blast
  let ?s2 = "trackModelUsage ?s1 ?cm critique"
  let ?h2 = "ls_history ls @ [\<lparr>h_iteration = i, h_model = ?cm, h_type = critique,
       h_input = ?cp, h_output = ct, h_timestamp = now x orc3\<rparr>]"
  let ?im = "improvementModel_of orc3 st ?s2 i"
  let ?orc4 = "sendProgressUpdate orc3 ?s2 ''improvement'' i (Some ?im) None"
  let ?ip = "buildImprovementPrompt (js_text (refinedPrompt ?s1)) (ls_response ls) ct (int i)
       (int (targetIterations ?s1)) ?h2"
  have im: "?im = improvementModel_of orc st (ls_session ls) i"
    by (rule model_of_cong) (simp_all add: orc_frameD [OF f3] trackModelUsage_def)
  have f4: "orc_frame orc ?orc4"
    using sendProgressUpdate_frame(1) f3 orc_frame_trans by blast
  have "registered ?im"
    using assms(2) by (simp add: im planned_models_def)
  with ready_frame [OF assms(1) f4] obtain it orc5 where g2: "gen x ?orc4 ?im ?ip = (Inr it, orc5)"
    using gen_succeeds by blast
  from g1 g2 show ?thesis
    by (simp add: run_iteration_def Let_def)
qed

lemma run_iterations_succeeds:
  assumes "ready x orc"
    and "\<And>j. list_all registered (planned_models orc st (ls_session ls) j)"
  shows "\<exists>ls' orc'. run_iterations x (Some st) i orc ls = (Inr ls', orc')"
proof -
  have "hs = Some st \<Longrightarrow> ready x orc \<Longrightarrow>
      (\<And>j. list_all registered (planned_models orc st (ls_session ls) j)) \<Longrightarrow>
      \<exists>ls' orc'. run_iterations x hs i orc ls = (Inr ls', orc')" for hs
  proof (induction x hs i orc ls rule: run_iterations.induct)
    case (1 x hs i orc ls)
    show ?case
    proof (cases "i \<le> targetIterations (ls_session ls)")
      case False
      then show ?thesis
        by (simp add: run_iterations.simps [of x hs i orc ls])
    next
      case True
      from run_iteration_succeeds [OF "1.prems"(2) "1.prems"(3)] "1.prems"(1)
      obtain ls1 orc1 where step: "run_iteration x hs i orc ls = (Inr ls1, orc1)"
        by blast
      note one = run_iteration_Inr [OF step]
      have pm: "planned_models orc1 st (ls_session ls1) j = planned_models orc st (ls_session ls) j" for j
        using planned_models_cong [OF one(2) one(3)] .
      have "\<exists>ls' orc'. run_iterations x hs (Suc i) orc1 ls1 = (Inr ls', orc')"
        using "1.IH" [OF True step [symmetric] refl "1.prems"(1) ready_frame [OF "1.prems"(2) one(2)]]
          "1.prems"(3) by (simp add: pm)
      with True step show ?thesis
        by (simp add: run_iterations.simps [of x hs i orc ls])
    qed
  qed
  with assms show ?thesis by blast
qed

lemma final_review_step_succeeds:
  assumes "ready x orc" and "registered (final_model_of orc (ls_session ls))"
  shows "\<exists>result orc'. final_review_step x orc ls = (Inr result, orc')"
proof -
  let ?s = "ls_session ls"
  let ?fm = "if truthy (finalReviewModel ?s) then finalReviewModel ?s
             else getBestFinalReviewModel (llmClient orc)"
  let ?orc1 = "sendProgressUpdate orc ?s ''final_review'' (targetIterations ?s + 1) ?fm None"
  let ?p = "buildFinalReviewPrompt (js_text (refinedPrompt ?s)) (ls_response ls)
             (completedIterations ?s) (ls_history ls)"
  have "ready x ?orc1"
    using ready_frame [OF assms(1)] sendProgressUpdate_frame(1) by blast
  moreover have "registered (js_text ?fm)"
    using assms(2) by (simp add: final_model_of_def)
  ultimately obtain t orc2 where "gen x ?orc1 (js_text ?fm) ?p = (Inr t, orc2)"
    using gen_succeeds by blast
  then show ?thesis
    by (simp add: final_review_step_def Let_def)
qed

text \<open>
  The pipeline returns a result whenever the provider answers every request and the models
  it uses are models of the table whose providers have a client.
\<close>

lemma executeCollaborativeProcess_succeeds:
  assumes "ready x orc"
    and "handoffStrategies (handoffStrategy s) = Some st"
    and "registered (primaryModel (models s))"
    and "\<And>j. list_all registered (planned_models orc st s j)"
    and "registered (final_model_of orc s)"
  shows "\<exists>result orc'. executeCollaborativeProcess x orc s = (Inr result, orc')"
proof -
  let ?orc2 = "sendProgressUpdate (sendProgressUpdate orc s ''starting'' 0 None None) s
                ''initial_generation'' 0 (Some (primaryModel (models s))) None"
  let ?s1 = "trackModelUsage s (primaryModel (models s)) initial_generation"
  have f2: "orc_frame orc ?orc2"
    using sendProgressUpdate_frame(1) orc_frame_trans by blast
  from gen_succeeds [OF ready_frame [OF assms(1) f2] assms(3)] obtain t orc3 where
    g: "gen x ?orc2 (primaryModel (models s)) (js_text (refinedPrompt s)) = (Inr t, orc3)"
    by blast
  have f3: "orc_frame orc orc3"
    using gen_frame(1) [OF g] f2 orc_frame_trans by blast
  let ?ls0 = "\<lparr>ls_session = ?s1, ls_response = t,
              ls_history = [\<lparr>h_iteration = 0, h_model = primaryModel (models s),
                 h_type = initial_generation, h_input = js_text (refinedPrompt s), h_output = t,
                 h_timestamp = now x orc3\<rparr>]\<rparr>"
  have sf1: "session_frame s ?s1"
    by (rule trackModelUsage_frame)
  have "list_all registered (planned_models orc3 st (ls_session ?ls0) j)" for j
    using assms(4) planned_models_cong [OF f3 sf1] by simp
  from run_iterations_succeeds [OF ready_frame [OF assms(1) f3] this, of 1]
  obtain ls orc4 where loop: "run_iterations x (Some st) 1 orc3 ?ls0 = (Inr ls, orc4)"
    by blast
  have f4: "orc_frame orc orc4"
    using run_iterations_trace [OF loop] f3 orc_frame_trans by blast
  have sf4: "session_frame s (ls_session ls)"
    using run_iterations_Inr [OF loop] sf1 session_frame_trans by auto
  have "registered (final_model_of orc4 (ls_session ls))"
    using assms(5) final_model_of_cong [OF f4 sf4] by simp
  from final_review_step_succeeds [OF ready_frame [OF assms(1) f4] this]
  obtain result orc5 where fr: "final_review_step x orc4 ls = (Inr result, orc5)"
    by blast
  from g loop fr show ?thesis
    by (simp add: executeCollaborativeProcess_def Let_def assms(2))
qed

lemma pipeline_counts:
  assumes run: "executeCollaborativeProcess x orc s = (Inr result, orc')"
  shows "length (gen_log (llmClient orc')) =
           length (gen_log (llmClient orc)) + (2 * targetIterations s + 2)"
    and "usage_total (r_modelUsageStats result) =
           usage_total (modelUsageStats s) + (2 * targetIterations s + 2)"
    and "r_targetIterations result = targetIterations s"
proof -
  let ?N = "targetIterations s"
  let ?hs = "handoffStrategies (handoffStrategy s)"
  let ?orc2 = "sendProgressUpdate (sendProgressUpdate orc s ''starting'' 0 None None) s
                ''initial_generation'' 0 (Some (primaryModel (models s))) None"
  let ?s1 = "trackModelUsage s (primaryModel (models s)) initial_generation"
  have l2: "llmClient ?orc2 = llmClient orc"
    by (simp add: sendProgressUpdate_frame(2))
  from run obtain r0 orc3 where
    g: "gen x ?orc2 (primaryModel (models s)) (js_text (refinedPrompt s)) = (r0, orc3)" and
    err: "\<And>e. r0 = Inl e \<Longrightarrow> Inr result = (Inl e :: error + pipeline_result) \<and>
         orc' = orc3\<lparr>activeSessions := (activeSessions orc3)(s_id s := None)\<rparr>" and
    ok: "\<And>t. r0 = Inr t \<Longrightarrow>
         \<exists>rl orc4.
           run_iterations x ?hs 1 orc3
             \<lparr>ls_session = ?s1, ls_response = t,
              ls_history = [\<lparr>h_iteration = 0, h_model = primaryModel (models s),
                 h_type = initial_generation, h_input = js_text (refinedPrompt s), h_output = t,
                 h_timestamp = now x orc3\<rparr>]\<rparr> = (rl, orc4) \<and>
           (\<forall>e. rl = Inl e \<longrightarrow>
              Inr result = (Inl e :: error + pipeline_result) \<and>
              orc' = orc4\<lparr>activeSessions := (activeSessions orc4)(s_id s := None)\<rparr>) \<and>
           (\<forall>ls. rl = Inr ls \<longrightarrow>
              (\<exists>orc5. final_review_step x orc4 ls = (Inr result, orc5) \<and>
                 orc' = orc5\<lparr>activeSessions := (activeSessions orc5)(s_id s := None)\<rparr>))"
    by (rule executeCollaborativeProcess_stages) blast
  from err obtain t where r0: "r0 = Inr t"
    by (cases r0) auto
  let ?ls0 = "\<lparr>ls_session = ?s1, ls_response = t,
              ls_history = [\<lparr>h_iteration = 0, h_model = primaryModel (models s),
                 h_type = initial_generation, h_input = js_text (refinedPrompt s), h_output = t,
                 h_timestamp = now x orc3\<rparr>]\<rparr>"
  from ok [OF r0] obtain rl orc4 where
    loop0: "run_iterations x ?hs 1 orc3 ?ls0 = (rl, orc4)" and
    lerr: "\<And>e. rl = Inl e \<Longrightarrow> Inr result = (Inl e :: error + pipeline_result)" and
    lok: "\<And>ls. rl = Inr ls \<Longrightarrow>
              (\<exists>orc5. final_review_step x orc4 ls = (Inr result, orc5) \<and>
                 orc' = orc5\<lparr>activeSessions := (activeSessions orc5)(s_id s := None)\<rparr>)"
    by blast
  from lerr obtain ls where rl: "rl = Inr ls"
    by (cases rl) auto
  from lok [OF rl] obtain orc5 where
    fr: "final_review_step x orc4 ls = (Inr result, orc5)" and
    o': "orc' = orc5\<lparr>activeSessions := (activeSessions orc5)(s_id s := None)\<rparr>"
    by blast
  note loop = loop0 [unfolded rl]
  have N1: "targetIterations ?s1 = ?N"
    by (simp add: trackModelUsage_def)
  have u1: "usage_total (modelUsageStats ?s1) = usage_total (modelUsageStats s) + 1"
    using trackModelUsage_usage_total [of s "primaryModel (models s)" initial_generation] by simp
  have l3: "length (gen_log (llmClient orc3)) = length (gen_log (llmClient orc)) + 1"
    using gen_frame(2) [OF g] by (simp add: l2)
  from run_iterations_Inr [OF loop] have
    sf4: "session_frame ?s1 (ls_session ls)" and
    l4: "length (gen_log (llmClient orc4)) = length (gen_log (llmClient orc3)) + 2 * ?N" and
    u4: "usage_total (modelUsageStats (ls_session ls)) =
           usage_total (modelUsageStats ?s1) + 2 * ?N"
    by (simp_all add: N1)
  from final_review_step_cases(2) [OF fr] have
    l5: "length (gen_log (llmClient orc5)) = length (gen_log (llmClient orc4)) + 1"
    by (elim exE) simp
  from final_review_step_cases(3) [OF fr refl] have
    u5: "usage_total (r_modelUsageStats result) = usage_total (modelUsageStats (ls_session ls)) + 1"
    and n5: "r_targetIterations result = targetIterations (ls_session ls)"
    by simp_all
  show "length (gen_log (llmClient orc')) =
           length (gen_log (llmClient orc)) + (2 * ?N + 2)"
    by (simp add: o' l5 l4 l3)
  show "usage_total (r_modelUsageStats result) = usage_total (modelUsageStats s) + (2 * ?N + 2)"
    by (simp add: u5 u4 u1)
  show "r_targetIterations result = ?N"
    using session_frameD(2) [OF sf4] by (simp add: n5 N1)
qed


section \<open>The prompt analyzer and the two public operations\<close>

lemma analyzeAndRefine_cases:
  assumes "analyzeAndRefine x c p = (r, c')"
  shows "c' = c\<lparr>gen_log := gen_log c', ext_log := ext_log c'\<rparr>"
    and "\<And>qs a. r = Inr (Clarify qs a) \<Longrightarrow>
      \<exists>m t1 t2. gen_log c' = gen_log c @
          [\<lparr>gc_model = m, gc_prompt = buildAnalysisPrompt p, gc_outcome = Inr t1\<rparr>,
           \<lparr>gc_model = m, gc_prompt = clarificationPrompt p a, gc_outcome = Inr t2\<rparr>] \<and>
        a = parseAnalysisResult t1 \<and> needsClarification a \<and> qs = parseClarificationQuestions t2"
    and "\<And>rp a. r = Inr (Refined rp a) \<Longrightarrow>
      \<exists>m t1. gen_log c' = gen_log c @
          [\<lparr>gc_model = m, gc_prompt = buildAnalysisPrompt p, gc_outcome = Inr t1\<rparr>,
           \<lparr>gc_model = m, gc_prompt = refinedPromptRequest x p a, gc_outcome = Inr rp\<rparr>] \<and>
        a = parseAnalysisResult t1 \<and> \<not> needsClarification a"
proof -
  have main: "c' = c\<lparr>gen_log := gen_log c', ext_log := ext_log c'\<rparr> \<and>
    (\<forall>qs a. r = Inr (Clarify qs a) \<longrightarrow>
      (\<exists>m t1 t2. gen_log c' = gen_log c @
          [\<lparr>gc_model = m, gc_prompt = buildAnalysisPrompt p, gc_outcome = Inr t1\<rparr>,
           \<lparr>gc_model = m, gc_prompt = clarificationPrompt p a, gc_outcome = Inr t2\<rparr>] \<and>
        a = parseAnalysisResult t1 \<and> needsClarification a \<and> qs = parseClarificationQuestions t2)) \<and>
    (\<forall>rp a. r = Inr (Refined rp a) \<longrightarrow>
      (\<exists>m t1. gen_log c' = gen_log c @
          [\<lparr>gc_model = m, gc_prompt = buildAnalysisPrompt p, gc_outcome = Inr t1\<rparr>,
           \<lparr>gc_model = m, gc_prompt = refinedPromptRequest x p a, gc_outcome = Inr rp\<rparr>] \<and>
        a = parseAnalysisResult t1 \<and> \<not> needsClarification a))"
  proof (cases "llm_getAvailableModels c")
    case Nil
    with assms have "r = Inl NoModelsAvailable" and "c' = c"
      by (simp_all add: analyzeAndRefine_def)
    then show ?thesis by simp
  next
    case (Cons m ms)
    obtain r1 c1 where g1: "generateResponse x c m (buildAnalysisPrompt p) = (r1, c1)"
      by (cases "generateResponse x c m (buildAnalysisPrompt p)")
    note f1 = generateResponse_frame [OF g1]
    show ?thesis
    proof (cases r1)
      case (Inl e)
      with assms Cons g1 have "r = Inl e" and "c' = c1"
        by (simp_all add: analyzeAndRefine_def)
      with f1(1) show ?thesis by simp
    next
      case (Inr t1)
      let ?a = "parseAnalysisResult t1"
      let ?p2 = "if needsClarification ?a then clarificationPrompt p ?a
                 else refinedPromptRequest x p ?a"
      obtain r2 c2 where g2: "generateResponse x c1 m ?p2 = (r2, c2)"
        by (cases "generateResponse x c1 m ?p2")
      note f2 = generateResponse_frame [OF g2]
      have c': "c' = c2"
        using assms Cons g1 Inr g2
        by (auto simp: analyzeAndRefine_def Let_def generateClarificationQuestions_def
            generateRefinedPrompt_def split: if_splits sum.splits)
      have frame: "c2 = c\<lparr>gen_log := gen_log c2, ext_log := ext_log c2\<rparr>"
        by (subst f2(1), subst f1(1)) simp
      have log: "gen_log c2 = gen_log c @
          [\<lparr>gc_model = m, gc_prompt = buildAnalysisPrompt p, gc_outcome = Inr t1\<rparr>,
           \<lparr>gc_model = m, gc_prompt = ?p2, gc_outcome = r2\<rparr>]"
        using f1(2) f2(2) Inr by simp
      have res: "r = (case r2 of Inl e \<Rightarrow> Inl e
                       | Inr t2 \<Rightarrow> if needsClarification ?a
                                   then Inr (Clarify (parseClarificationQuestions t2) ?a)
                                   else Inr (Refined t2 ?a))"
        using assms Cons g1 Inr g2
        by (auto simp: analyzeAndRefine_def Let_def generateClarificationQuestions_def
            generateRefinedPrompt_def split: if_splits sum.splits)
      show ?thesis
        unfolding c' using frame log res
        by (cases r2; cases "needsClarification ?a") auto
    qed
  qed
  show "c' = c\<lparr>gen_log := gen_log c', ext_log := ext_log c'\<rparr>"
    by (rule main [THEN conjunct1])
  show "\<And>qs a. r = Inr (Clarify qs a) \<Longrightarrow>
      \<exists>m t1 t2. gen_log c' = gen_log c @
          [\<lparr>gc_model = m, gc_prompt = buildAnalysisPrompt p, gc_outcome = Inr t1\<rparr>,
           \<lparr>gc_model = m, gc_prompt = clarificationPrompt p a, gc_outcome = Inr t2\<rparr>] \<and>
        a = parseAnalysisResult t1 \<and> needsClarification a \<and> qs = parseClarificationQuestions t2"
    by (rule main [THEN conjunct2, THEN conjunct1, rule_format])
  show "\<And>rp a. r = Inr (Refined rp a) \<Longrightarrow>
      \<exists>m t1. gen_log c' = gen_log c @
          [\<lparr>gc_model = m, gc_prompt = buildAnalysisPrompt p, gc_outcome = Inr t1\<rparr>,
           \<lparr>gc_model = m, gc_prompt = refinedPromptRequest x p a, gc_outcome = Inr rp\<rparr>] \<and>
        a = parseAnalysisResult t1 \<and> \<not> needsClarification a"
    by (rule main [THEN conjunct2, THEN conjunct2, rule_format])
qed

text \<open>
  After \<open>startCollaborativeGeneration\<close> the session id is free, whatever the outcome, when
  the session was stored under its own id.
\<close>

lemma startCollaborativeGeneration_removes:
  assumes "startCollaborativeGeneration x orc sessionId = (reply, orc')"
    and "\<And>s. activeSessions orc sessionId = Some s \<Longrightarrow> s_id s = sessionId"
  shows "activeSessions orc' sessionId = None"
proof (cases "activeSessions orc sessionId")
  case None
  with assms(1) show ?thesis
    by (simp add: startCollaborativeGeneration_def)
next
  case (Some s)
  show ?thesis
  proof (cases "generateProcessSteps orc s")
    case (Inl e)
    with assms(1) Some show ?thesis
      by (auto simp: startCollaborativeGeneration_def)
  next
    case (Inr process_steps)
    let ?s' = "s\<lparr>steps := process_steps\<rparr>"
    let ?orc1 = "orc\<lparr>activeSessions := (activeSessions orc)(sessionId \<mapsto> ?s')\<rparr>"
    obtain r orc2 where ex: "executeCollaborativeProcess x ?orc1 ?s' = (r, orc2)"
      by (cases "executeCollaborativeProcess x ?orc1 ?s'")
    have "activeSessions orc2 sessionId = None"
      using executeCollaborativeProcess_trace(1) [OF ex] assms(2) [OF Some] by simp
    with assms(1) Some Inr ex show ?thesis
      by (cases r) (auto simp: startCollaborativeGeneration_def Let_def)
  qed
qed

lemma startCollaborativeGeneration_Complete:
  assumes "startCollaborativeGeneration x orc sessionId = (Complete sid result, orc')"
  shows "\<exists>s. activeSessions orc sessionId = Some s \<and> sid = sessionId \<and>
    length (gen_log (llmClient orc')) =
      length (gen_log (llmClient orc)) + (2 * targetIterations s + 2) \<and>
    usage_total (r_modelUsageStats result) =
      usage_total (modelUsageStats s) + (2 * targetIterations s + 2) \<and>
    r_targetIterations result = targetIterations s"
proof -
  from assms obtain s where s: "activeSessions orc sessionId = Some s"
    by (cases "activeSessions orc sessionId") (simp_all add: startCollaborativeGeneration_def)
  from assms s obtain process_steps where st: "generateProcessSteps orc s = Inr process_steps"
    by (cases "generateProcessSteps orc s") (simp_all add: startCollaborativeGeneration_def)
  let ?s' = "s\<lparr>steps := process_steps\<rparr>"
  let ?orc1 = "orc\<lparr>activeSessions := (activeSessions orc)(sessionId \<mapsto> ?s')\<rparr>"
  from assms s st have ex: "executeCollaborativeProcess x ?orc1 ?s' = (Inr result, orc')"
    and sid: "sid = sessionId"
    by (auto simp: startCollaborativeGeneration_def Let_def split: prod.splits sum.splits)
  from pipeline_counts [OF ex] s sid show ?thesis
    by simp
qed

lemma startCollaborativeGeneration_succeeds:
  assumes "activeSessions orc sessionId = Some s"
    and "ready x orc"
    and "handoffStrategies (handoffStrategy s) = Some st"
    and "registered (primaryModel (models s))"
    and "\<And>j. list_all registered (planned_models orc st s j)"
    and "registered (final_model_of orc s)"
  shows "\<exists>result orc'. startCollaborativeGeneration x orc sessionId = (Complete sessionId result, orc')"
proof -
  from assms(3) obtain process_steps where st: "generateProcessSteps orc s = Inr process_steps"
    by (simp add: generateProcessSteps_def Let_def)
  let ?s' = "s\<lparr>steps := process_steps\<rparr>"
  let ?orc1 = "orc\<lparr>activeSessions := (activeSessions orc)(sessionId \<mapsto> ?s')\<rparr>"
  have "ready x ?orc1"
    using assms(2) by (simp add: ready_def)
  moreover have "handoffStrategies (handoffStrategy ?s') = Some st"
    using assms(3) by simp
  moreover have "registered (primaryModel (models ?s'))"
    using assms(4) by simp
  moreover have "list_all registered (planned_models ?orc1 st ?s' j)" for j
    using assms(5) [of j] model_of_cong [of ?orc1 orc ?s' s st j]
    by (simp add: planned_models_def)
  moreover have "registered (final_model_of ?orc1 ?s')"
    using assms(6) by (simp add: final_model_of_def split: if_splits)
  ultimately obtain result orc' where
    "executeCollaborativeProcess x ?orc1 ?s' = (Inr result, orc')"
    using executeCollaborativeProcess_succeeds by blast
  with assms(1) st show ?thesis
    by (simp add: startCollaborativeGeneration_def Let_def)
qed

text \<open>
  A run of \<open>startRefinementProcess\<close> that completes: the analyzer made two calls, the
  pipeline the rest, and only the pipeline's calls are in the usage statistics.
\<close>

lemma startRefinementProcess_Complete:
  assumes "startRefinementProcess x orc sessionId p sel n cb = (Complete sid result, orc')"
  shows "sid = sessionId"
    and "length (gen_log (llmClient orc')) = length (gen_log (llmClient orc)) + 2 + (2 * n + 2)"
    and "usage_total (r_modelUsageStats result) = 2 * n + 2"
proof -
  let ?s = "new_session x orc sessionId p sel n cb"
  let ?orc1 = "orc\<lparr>activeSessions := (activeSessions orc)(sessionId \<mapsto> ?s)\<rparr>"
  obtain r c where an: "analyzeAndRefine x (llmClient orc) p = (r, c)"
    by (cases "analyzeAndRefine x (llmClient orc) p")
  from assms an obtain refined a where r: "r = Inr (Refined refined a)"
    by (cases r; simp add: startRefinementProcess_def Let_def split: refinement.splits)
  let ?s3 = "?s\<lparr>refinedPrompt := Some refined\<rparr>"
  let ?orc3 = "?orc1\<lparr>llmClient := c, activeSessions := (activeSessions ?orc1)(sessionId \<mapsto> ?s3)\<rparr>"
  from assms an r have run: "startCollaborativeGeneration x ?orc3 sessionId = (Complete sid result, orc')"
    by (simp add: startRefinementProcess_def Let_def)
  from analyzeAndRefine_cases(3) [OF an r] have
    two: "length (gen_log c) = length (gen_log (llmClient orc)) + 2"
    by auto
  from startCollaborativeGeneration_Complete [OF run] two
  show "sid = sessionId"
    and "length (gen_log (llmClient orc')) = length (gen_log (llmClient orc)) + 2 + (2 * n + 2)"
    and "usage_total (r_modelUsageStats result) = 2 * n + 2"
    by (simp_all add: new_session_def Let_def usage_total_def)
qed


lemma startRefinementProcess_Clarify:
  assumes "analyzeAndRefine x (llmClient orc) p = (Inr (Clarify qs a), c)"
  shows "startRefinementProcess x orc sid p sel n cb =
    (NeedsClarification sid qs,
     orc\<lparr>llmClient := c,
          activeSessions := (activeSessions orc)
            (sid \<mapsto> (new_session x orc sid p sel n cb)\<lparr>pendingClarifications := Some qs\<rparr>)\<rparr>)"
  using assms by (simp add: startRefinementProcess_def Let_def)

text \<open>Which errors the generation service and the pipeline can end in.\<close>

lemma generateResponse_errors:
  assumes "generateResponse x c m p = (Inl e, c')"
  shows "e \<noteq> ValidationErrors errs"
  using assms
  by (auto simp: generateResponse_def generateOpenAIResponse_def generateAnthropicResponse_def
      call_provider_def Let_def
      split: option.splits provider.splits prod.splits ext_reply.splits list.splits if_splits)

lemma gen_errors:
  assumes "gen x orc m p = (Inl e, orc')"
  shows "e \<noteq> ValidationErrors errs"
  using assms generateResponse_errors
  by (auto simp: gen_def split: prod.splits)

lemma run_iteration_errors:
  assumes "run_iteration x hs i orc ls = (Inl e, orc')"
  shows "e \<noteq> ValidationErrors errs"
  using assms gen_errors
  by (auto simp: run_iteration_def Let_def split: option.splits prod.splits sum.splits)

lemma run_iterations_errors:
  assumes "run_iterations x hs i orc ls = (Inl e, orc')"
  shows "e \<noteq> ValidationErrors errs"
  using assms
proof (induction x hs i orc ls rule: run_iterations.induct)
  case (1 x hs i orc ls)
  show ?case
  proof (cases "i \<le> targetIterations (ls_session ls)")
    case False
    with "1.prems" show ?thesis
      by (simp add: run_iterations.simps [of x hs i orc ls])
  next
    case True
    obtain r orc1 where it: "run_iteration x hs i orc ls = (r, orc1)"
      by (cases "run_iteration x hs i orc ls")
    show ?thesis
    proof (cases r)
      case (Inl e1)
      with "1.prems" True it have "e = e1"
        by (simp add: run_iterations.simps [of x hs i orc ls])
      with run_iteration_errors [OF it [unfolded Inl]] show ?thesis
        by simp
    next
      case (Inr ls1)
      with "1.prems" True it have "run_iterations x hs (Suc i) orc1 ls1 = (Inl e, orc')"
        by (simp add: run_iterations.simps [of x hs i orc ls])
      with "1.IH" [OF True it [symmetric] Inr] show ?thesis
        by simp
    qed
  qed
qed

lemma final_review_step_errors:
  assumes "final_review_step x orc ls = (Inl e, orc')"
  shows "e \<noteq> ValidationErrors errs"
  using assms gen_errors
  by (auto simp: final_review_step_def Let_def split: prod.splits sum.splits)

lemma executeCollaborativeProcess_errors:
  assumes "executeCollaborativeProcess x orc s = (Inl e, orc')"
  shows "e \<noteq> ValidationErrors errs"
  using assms gen_errors run_iterations_errors final_review_step_errors
  by (auto simp: executeCollaborativeProcess_def Let_def split: prod.splits sum.splits)

lemma startCollaborativeGeneration_errors:
  assumes "startCollaborativeGeneration x orc sid = (Failed e, orc')"
  shows "e \<noteq> ValidationErrors errs"
  using assms executeCollaborativeProcess_errors
  by (auto simp: startCollaborativeGeneration_def generateProcessSteps_def Let_def
      split: option.splits prod.splits sum.splits if_splits)

text \<open>The first model that the client lists, and what depends on the client only.\<close>

lemma first_available_registered:
  assumes "openaiClient c \<noteq> None"
  shows "\<exists>m ms. llm_getAvailableModels c = m # ms \<and> registered m"
proof -
  have set: "set (llm_getAvailableModels c) =
      {m \<in> set (map fst modelConfig). isModelAvailable c m}"
    by (simp add: llm_getAvailableModels_def)
  have "''gpt-4o'' \<in> set (llm_getAvailableModels c)"
    unfolding set using assms by (simp add: isModelAvailable_def modelConfig_def)
  then obtain m ms where l: "llm_getAvailableModels c = m # ms"
    by (cases "llm_getAvailableModels c") auto
  then have "m \<in> set (map fst modelConfig)"
    using set by auto
  then have "registered m"
    by (simp add: registered_def map_of_eq_None_iff)
  with l show ?thesis
    by blast
qed

lemma client_view_cong:
  assumes "openaiClient c' = openaiClient c" and "anthropicClient c' = anthropicClient c"
  shows "llm_getAvailableModels c' = llm_getAvailableModels c"
    and "getBestFinalReviewModel c' = getBestFinalReviewModel c"
proof -
  have "isModelAvailable c' = isModelAvailable c"
    unfolding isModelAvailable_def assms ..
  then show "llm_getAvailableModels c' = llm_getAvailableModels c"
    by (simp add: llm_getAvailableModels_def)
  then show "getBestFinalReviewModel c' = getBestFinalReviewModel c"
    by (simp add: getBestFinalReviewModel_def getFinalReviewModels_def)
qed

text \<open>The answers and the validator.\<close>

lemma validateClarificationAnswers_rejects:
  "validateClarificationAnswers qs answers \<noteq> [] \<longleftrightarrow> (\<exists>q \<in> set qs. rejected_answer answers q)"
proof -
  have "trim [] = []"
    by (simp add: trim_def)
  then show ?thesis
    by (induction qs)
      (auto simp: validateClarificationAnswers_def rejected_answer_def truthy_def or_else_def
        split: option.splits)
qed

text \<open>\<open>submitClarification\<close>, case by case.\<close>

lemma submitClarification_invalid:
  assumes "activeSessions orc sid = Some s" and "pendingClarifications s = Some qs"
    and "validateClarificationAnswers qs answers \<noteq> []"
  shows "\<exists>orc'. submitClarification x orc sid answers cb =
      (Failed (ValidationErrors (validateClarificationAnswers qs answers)), orc') \<and>
    activeSessions orc' = (activeSessions orc)
      (sid \<mapsto> s\<lparr>progressCallback := (case cb of None \<Rightarrow> progressCallback s | Some f \<Rightarrow> Some f)\<rparr>) \<and>
    llmClient orc' = llmClient orc \<and> enabledModels orc' = enabledModels orc"
proof -
  let ?s1 = "case cb of None \<Rightarrow> s | Some f \<Rightarrow> s\<lparr>progressCallback := Some f\<rparr>"
  let ?orc1 = "orc\<lparr>activeSessions := (activeSessions orc)(sid \<mapsto> ?s1)\<rparr>"
  let ?orc2 = "sendProgressUpdate ?orc1 ?s1 ''processing_clarifications'' 0 None None"
  have s1: "?s1 = s\<lparr>progressCallback := (case cb of None \<Rightarrow> progressCallback s | Some f \<Rightarrow> Some f)\<rparr>"
    by (cases cb) simp_all
  have run: "submitClarification x orc sid answers cb =
      (Failed (ValidationErrors (validateClarificationAnswers qs answers)), ?orc2)"
    using assms by (simp add: submitClarification_def Let_def)
  have fr: "orc_frame ?orc1 ?orc2"
    by (rule sendProgressUpdate_frame(1))
  have "activeSessions ?orc2 = (activeSessions orc)(sid \<mapsto> ?s1)"
    using orc_frameD(2) [OF fr] by simp
  moreover have "llmClient ?orc2 = llmClient orc"
    by (simp add: sendProgressUpdate_frame(2))
  moreover have "enabledModels ?orc2 = enabledModels orc"
    using orc_frameD(1) [OF fr] by simp
  ultimately show ?thesis
    using run s1 by (intro exI [of _ ?orc2]) simp
qed

lemma submitClarification_ValidationErrors:
  assumes "submitClarification x orc sid answers cb = (Failed (ValidationErrors errs), orc')"
  shows "\<exists>s qs. activeSessions orc sid = Some s \<and> pendingClarifications s = Some qs \<and>
    errs = validateClarificationAnswers qs answers \<and> errs \<noteq> []"
proof -
  from assms obtain s where s: "activeSessions orc sid = Some s"
    by (cases "activeSessions orc sid") (simp_all add: submitClarification_def)
  from assms s obtain qs where qs: "pendingClarifications s = Some qs"
    by (cases "pendingClarifications s") (simp_all add: submitClarification_def)
  let ?s1 = "case cb of None \<Rightarrow> s | Some f \<Rightarrow> s\<lparr>progressCallback := Some f\<rparr>"
  let ?orc1 = "orc\<lparr>activeSessions := (activeSessions orc)(sid \<mapsto> ?s1)\<rparr>"
  let ?orc2 = "sendProgressUpdate ?orc1 ?s1 ''processing_clarifications'' 0 None None"
  show ?thesis
  proof (cases "validateClarificationAnswers qs answers = []")
    case False
    with assms s qs have "errs = validateClarificationAnswers qs answers"
      by (simp add: submitClarification_def Let_def)
    with False s qs show ?thesis
      by simp
  next
    case True
    obtain r c where rf: "refineWithClarifications x (llmClient ?orc2) (originalPrompt ?s1) qs answers = (r, c)"
      by (cases "refineWithClarifications x (llmClient ?orc2) (originalPrompt ?s1) qs answers")
    show ?thesis
    proof (cases r)
      case (Inl e)
      with assms s qs True rf have "e = ValidationErrors errs"
        by (simp add: submitClarification_def Let_def)
      moreover from rf Inl have "e \<noteq> ValidationErrors errs"
        using generateResponse_errors by (auto simp: refineWithClarifications_def Let_def)
      ultimately show ?thesis
        by simp
    next
      case (Inr refined)
      with assms s qs True rf have "\<exists>orc3. startCollaborativeGeneration x orc3 sid =
          (Failed (ValidationErrors errs), orc')"
        by (auto simp: submitClarification_def Let_def)
      with startCollaborativeGeneration_errors show ?thesis
        by blast
    qed
  qed
qed

lemma submitClarification_Failed:
  assumes "submitClarification x orc sid answers cb = (Failed e, orc')"
    and "activeSessions orc sid = Some s" and "s_id s = sid"
    and "activeSessions orc' sid = Some s'"
  shows "refinedPrompt s' = refinedPrompt s \<and> pendingClarifications s' = pendingClarifications s"
proof (cases "pendingClarifications s")
  case None
  with assms show ?thesis
    by (simp add: submitClarification_def)
next
  case (Some qs)
  let ?s1 = "case cb of None \<Rightarrow> s | Some f \<Rightarrow> s\<lparr>progressCallback := Some f\<rparr>"
  let ?orc1 = "orc\<lparr>activeSessions := (activeSessions orc)(sid \<mapsto> ?s1)\<rparr>"
  let ?orc2 = "sendProgressUpdate ?orc1 ?s1 ''processing_clarifications'' 0 None None"
  have s1: "refinedPrompt ?s1 = refinedPrompt s" "pendingClarifications ?s1 = pendingClarifications s"
    "s_id ?s1 = sid"
    using assms(3) by (cases cb; simp)+
  have map2: "activeSessions ?orc2 = (activeSessions orc)(sid \<mapsto> ?s1)"
    using orc_frameD(2) [OF sendProgressUpdate_frame(1) [of ?orc1 ?s1]] by simp
  show ?thesis
  proof (cases "validateClarificationAnswers qs answers = []")
    case False
    with assms(1,2) Some have "orc' = ?orc2"
      by (simp add: submitClarification_def Let_def)
    with map2 assms(4) s1 show ?thesis
      by auto
  next
    case True
    obtain r c where rf: "refineWithClarifications x (llmClient ?orc2) (originalPrompt ?s1) qs answers = (r, c)"
      by (cases "refineWithClarifications x (llmClient ?orc2) (originalPrompt ?s1) qs answers")
    show ?thesis
    proof (cases r)
      case (Inl e1)
      with assms(1,2) Some True rf have "orc' = ?orc2\<lparr>llmClient := c\<rparr>"
        by (simp add: submitClarification_def Let_def)
      with map2 assms(4) s1 show ?thesis
        by auto
    next
      case (Inr refined)
      let ?s3 = "?s1\<lparr>refinedPrompt := Some refined, pendingClarifications := None\<rparr>"
      let ?orc3 = "?orc2\<lparr>llmClient := c, activeSessions := (activeSessions ?orc2)(sid \<mapsto> ?s3)\<rparr>"
      from assms(1,2) Some True rf Inr
      have run: "startCollaborativeGeneration x ?orc3 sid = (Failed e, orc')"
        by (simp add: submitClarification_def Let_def)
      have "activeSessions orc' sid = None"
        by (rule startCollaborativeGeneration_removes [OF run]) (simp add: s1)
      with assms(4) show ?thesis
        by simp
    qed
  qed
qed

lemma submitClarification_succeeds:
  assumes "activeSessions orc sid = Some s" and "pendingClarifications s = Some qs"
    and "validateClarificationAnswers qs answers = []"
    and "ready x orc"
    and "handoffStrategies (handoffStrategy s) = Some st"
    and "registered (primaryModel (models s))"
    and "\<And>j. list_all registered (planned_models orc st s j)"
    and "registered (final_model_of orc s)"
  shows "\<exists>result orc'. submitClarification x orc sid answers cb = (Complete sid result, orc')"
proof -
  let ?s1 = "case cb of None \<Rightarrow> s | Some f \<Rightarrow> s\<lparr>progressCallback := Some f\<rparr>"
  let ?orc1 = "orc\<lparr>activeSessions := (activeSessions orc)(sid \<mapsto> ?s1)\<rparr>"
  let ?orc2 = "sendProgressUpdate ?orc1 ?s1 ''processing_clarifications'' 0 None None"
  have s1: "?s1 = s\<lparr>progressCallback := (case cb of None \<Rightarrow> progressCallback s | Some f \<Rightarrow> Some f)\<rparr>"
    by (cases cb) simp_all
  have c2: "llmClient ?orc2 = llmClient orc"
    by (simp add: sendProgressUpdate_frame(2))
  have e2: "enabledModels ?orc2 = enabledModels orc"
    using orc_frameD(1) [OF sendProgressUpdate_frame(1) [of ?orc1 ?s1]] by simp
  from assms(4) have cl: "responsive x" "openaiClient (llmClient orc) \<noteq> None"
    "anthropicClient (llmClient orc) \<noteq> None"
    by (simp_all add: ready_def)
  from first_available_registered [OF cl(2)] obtain m ms where
    av: "llm_getAvailableModels (llmClient orc) = m # ms" and m: "registered m"
    by blast
  let ?p = "clarificationRefinementPrompt (originalPrompt ?s1) qs answers"
  from generateResponse_succeeds [OF cl m] obtain refined c where
    g: "generateResponse x (llmClient orc) m ?p = (Inr refined, c)"
    by blast
  have rf: "refineWithClarifications x (llmClient ?orc2) (originalPrompt ?s1) qs answers = (Inr refined, c)"
    by (simp add: refineWithClarifications_def c2 av g)
  note fr = generateResponse_frame(1) [OF g]
  have clc: "openaiClient c = openaiClient (llmClient orc)"
    "anthropicClient c = anthropicClient (llmClient orc)"
    by (subst fr, simp)+
  let ?s3 = "?s1\<lparr>refinedPrompt := Some refined, pendingClarifications := None\<rparr>"
  let ?orc3 = "?orc2\<lparr>llmClient := c, activeSessions := (activeSessions ?orc2)(sid \<mapsto> ?s3)\<rparr>"
  have "\<exists>result orc'. startCollaborativeGeneration x ?orc3 sid = (Complete sid result, orc')"
  proof (rule startCollaborativeGeneration_succeeds [where s = ?s3 and st = st])
    show "activeSessions ?orc3 sid = Some ?s3"
      by simp
    show "ready x ?orc3"
      using cl by (simp add: ready_def clc)
    show "handoffStrategies (handoffStrategy ?s3) = Some st"
      using assms(5) by (simp add: s1)
    show "registered (primaryModel (models ?s3))"
      using assms(6) by (simp add: s1)
    have e3: "enabledModels ?orc3 = enabledModels orc"
      using e2 by simp
    have m3: "models ?s3 = models s" "targetIterations ?s3 = targetIterations s"
      by (simp_all add: s1)
    show "list_all registered (planned_models ?orc3 st ?s3 j)" for j
      using assms(7) [of j] unfolding planned_models_def model_of_cong [OF e3 m3] .
    show "registered (final_model_of ?orc3 ?s3)"
      using assms(8) client_view_cong(2) [OF clc]
      by (simp add: final_model_of_def s1 split: if_splits)
  qed
  with assms(1,2,3) rf show ?thesis
    by (simp add: submitClarification_def Let_def)
qed


text \<open>The credentials and the enabled models are left alone by the two operations.\<close>

lemma startCollaborativeGeneration_keeps:
  assumes "startCollaborativeGeneration x orc sid = (reply, orc')"
  shows "enabledModels orc' = enabledModels orc"
    and "apiKeys (llmClient orc') = apiKeys (llmClient orc)"
proof -
  have "enabledModels orc' = enabledModels orc \<and> apiKeys (llmClient orc') = apiKeys (llmClient orc)"
  proof (cases "activeSessions orc sid")
    case None
    with assms show ?thesis
      by (simp add: startCollaborativeGeneration_def)
  next
    case (Some s)
    show ?thesis
    proof (cases "generateProcessSteps orc s")
      case (Inl e)
      with assms Some show ?thesis
        by (auto simp: startCollaborativeGeneration_def)
    next
      case (Inr process_steps)
      let ?s' = "s\<lparr>steps := process_steps\<rparr>"
      let ?orc1 = "orc\<lparr>activeSessions := (activeSessions orc)(sid \<mapsto> ?s')\<rparr>"
      obtain r orc2 where ex: "executeCollaborativeProcess x ?orc1 ?s' = (r, orc2)"
        by (cases "executeCollaborativeProcess x ?orc1 ?s'")
      note fr = executeCollaborativeProcess_trace(2) [OF ex]
      have "enabledModels orc2 = enabledModels orc" "apiKeys (llmClient orc2) = apiKeys (llmClient orc)"
        using orc_frameD(1,5) [OF fr] by simp_all
      moreover have "enabledModels orc' = enabledModels orc2 \<and> llmClient orc' = llmClient orc2"
        using assms Some Inr ex by (cases r) (auto simp: startCollaborativeGeneration_def Let_def)
      ultimately show ?thesis
        by simp
    qed
  qed
  then show "enabledModels orc' = enabledModels orc"
    and "apiKeys (llmClient orc') = apiKeys (llmClient orc)"
    by simp_all
qed

lemma startRefinementProcess_keeps:
  assumes "startRefinementProcess x orc sid p sel n cb = (reply, orc')"
  shows "enabledModels orc' = enabledModels orc \<and> apiKeys (llmClient orc') = apiKeys (llmClient orc)"
proof -
  obtain r c where an: "analyzeAndRefine x (llmClient orc) p = (r, c)"
    by (cases "analyzeAndRefine x (llmClient orc) p")
  note fr = analyzeAndRefine_cases(1) [OF an]
  have keys: "apiKeys c = apiKeys (llmClient orc)"
    by (subst fr) simp
  show ?thesis
  proof (cases r)
    case (Inl e)
    with assms an keys show ?thesis
      by (auto simp: startRefinementProcess_def Let_def)
  next
    case (Inr res)
    show ?thesis
    proof (cases res)
      case (Clarify qs a)
      with assms an keys Inr show ?thesis
        by (auto simp: startRefinementProcess_def Let_def)
    next
      case (Refined refined a)
      with assms an Inr obtain orc3 where
        run: "startCollaborativeGeneration x orc3 sid = (reply, orc')" and
        "enabledModels orc3 = enabledModels orc" "llmClient orc3 = c"
        by (auto simp: startRefinementProcess_def Let_def)
      with startCollaborativeGeneration_keeps [OF run] keys show ?thesis
        by simp
    qed
  qed
qed

lemma submitClarification_keeps:
  assumes "submitClarification x orc sid answers cb = (reply, orc')"
  shows "enabledModels orc' = enabledModels orc \<and> apiKeys (llmClient orc') = apiKeys (llmClient orc)"
proof (cases "activeSessions orc sid")
  case None
  with assms show ?thesis
    by (simp add: submitClarification_def)
next
  case (Some s)
  show ?thesis
  proof (cases "pendingClarifications s")
    case None
    with assms Some show ?thesis
      by (simp add: submitClarification_def)
  next
    case (Some qs)
    note s = \<open>activeSessions orc sid = Some s\<close>
    let ?s1 = "case cb of None \<Rightarrow> s | Some f \<Rightarrow> s\<lparr>progressCallback := Some f\<rparr>"
    let ?orc1 = "orc\<lparr>activeSessions := (activeSessions orc)(sid \<mapsto> ?s1)\<rparr>"
    let ?orc2 = "sendProgressUpdate ?orc1 ?s1 ''processing_clarifications'' 0 None None"
    have c2: "llmClient ?orc2 = llmClient orc"
      by (simp add: sendProgressUpdate_frame(2))
    have e2: "enabledModels ?orc2 = enabledModels orc"
      using orc_frameD(1) [OF sendProgressUpdate_frame(1) [of ?orc1 ?s1]] by simp
    show ?thesis
    proof (cases "validateClarificationAnswers qs answers = []")
      case False
      with assms s Some have "orc' = ?orc2"
        by (simp add: submitClarification_def Let_def)
      with c2 e2 show ?thesis
        by simp
    next
      case True
      obtain r c where rf: "refineWithClarifications x (llmClient ?orc2) (originalPrompt ?s1) qs answers = (r, c)"
        by (cases "refineWithClarifications x (llmClient ?orc2) (originalPrompt ?s1) qs answers")
      then obtain m where g: "generateResponse x (llmClient orc) m
          (clarificationRefinementPrompt (originalPrompt ?s1) qs answers) = (r, c)"
        by (simp add: refineWithClarifications_def c2 Let_def)
      have keys: "apiKeys c = apiKeys (llmClient orc)"
        by (subst generateResponse_frame(1) [OF g]) simp
      show ?thesis
      proof (cases r)
        case (Inl e)
        with assms s Some True rf have "orc' = ?orc2\<lparr>llmClient := c\<rparr>"
          by (simp add: submitClarification_def Let_def)
        with keys e2 show ?thesis
          by simp
      next
        case (Inr refined)
        let ?s3 = "?s1\<lparr>refinedPrompt := Some refined, pendingClarifications := None\<rparr>"
        let ?orc3 = "?orc2\<lparr>llmClient := c, activeSessions := (activeSessions ?orc2)(sid \<mapsto> ?s3)\<rparr>"
        from assms s Some True rf Inr
        have run: "startCollaborativeGeneration x ?orc3 sid = (reply, orc')"
          by (simp add: submitClarification_def Let_def)
        from startCollaborativeGeneration_keeps [OF run] keys e2 show ?thesis
          by simp
      qed
    qed
  qed
qed

text \<open>The two branches of \<open>parseClarificationQuestions\<close>.\<close>

lemma questions_of_matches_text:
  "map q_text (questions_of_matches index matches) =
    filter (\<lambda>t. t \<noteq> []) (map (\<lambda>m. trim (remove_question_label m)) matches)"
  by (induction matches arbitrary: index) (simp_all add: Let_def)

lemma scan_lines_cap:
  "length (scan_lines questionCount lines) \<le> (if questionCount < 4 then 4 - questionCount else 1)"
proof (induction lines arbitrary: questionCount)
  case Nil
  show ?case
    by simp
next
  case (Cons line rest)
  from Cons.IH [of questionCount] Cons.IH [of "questionCount + 1"] show ?case
    by (auto simp: Let_def split: if_splits)
qed


section \<open>The example states\<close>

lemma trim_ok: "trim ''ok'' = ''ok''"
  by (simp add: trim_def is_space_def)

lemma responsive_echo: "responsive echo_externals"
  by (simp add: responsive_def echo_externals_def trim_ok)

lemma demo_clients:
  "openaiClient (llmClient demo_orchestrator) = Some ''sk-test''"
  "anthropicClient (llmClient demo_orchestrator) = Some ''sk-ant-test''"
  "gen_log (llmClient demo_orchestrator) = []"
  "enabledModels demo_orchestrator = Some availableModels"
  by (simp_all add: demo_orchestrator_def setApiKeys_def updateAvailableModels_def
      new_RefinementOrchestrator_def llm_setApiKeys_def new_LLMClient_def truthy_def
      validate_key_def startsWith_def trim_def is_space_def Let_def has_key_def availableModels_def)

lemma ready_demo: "ready echo_externals demo_orchestrator"
  by (simp add: ready_def responsive_echo demo_clients)

lemma registered_models:
  "registered ''gpt-4o''" "registered ''claude-sonnet-4''" "registered ''gpt-4.1''"
  "registered ''gpt-4-turbo''" "registered ''claude-3-5-sonnet''"
  by (simp_all add: registered_def modelConfig_def)

lemma best_final_demo: "getBestFinalReviewModel (llmClient demo_orchestrator) = Some ''claude-sonnet-4''"
  by (simp add: getBestFinalReviewModel_def getFinalReviewModels_def llm_getAvailableModels_def
      isModelAvailable_def modelConfig_def demo_clients tier_of_def tierOrder_def preferredOrder_def)

lemma demo_session_simps:
  "targetIterations (demo_session n) = n"
  "refinedPrompt (demo_session n) = Some ''Write a haiku about autumn''"
  "handoffStrategy (demo_session n) = ''model_specialization''"
  "primaryModel (models (demo_session n)) = ''gpt-4o''"
  "finalReviewModel (demo_session n) = Some ''claude-sonnet-4''"
  "modelUsageStats (demo_session n) = []"
  "s_id (demo_session n) = ''session-1''"
  by (simp_all add: demo_session_def new_session_def demo_selection_def Let_def truthy_def
      or_else_def best_final_demo)

lemma demo_strategy: "handoffStrategies (handoffStrategy (demo_session n)) = Some model_specialization"
  by (simp add: demo_session_simps handoffStrategies_def)

lemma planned_specialization:
  "planned_models orc model_specialization s j = [''claude-sonnet-4'', ''gpt-4.1'']"
  by (simp add: planned_models_def critiqueModel_of_def improvementModel_of_def getNextModel_def
      model_specialization_getNextModel_def phaseToSpecialization_def specializationMap_def or_else_def)

lemma demo_final: "final_model_of demo_orchestrator (demo_session n) = ''claude-sonnet-4''"
  by (simp add: final_model_of_def demo_session_simps truthy_def js_text_def)

lemma demo_run:
  "\<exists>result orc'. executeCollaborativeProcess echo_externals demo_orchestrator (demo_session n) = (Inr result, orc')"
  by (rule executeCollaborativeProcess_succeeds [OF ready_demo demo_strategy])
    (simp_all add: demo_session_simps registered_models planned_specialization demo_final)

lemma demo_more:
  "ext_log (llmClient demo_orchestrator) = []"
  "progressCallback (demo_session n) = None"
  "refinementModel (models (demo_session n)) = ''claude-sonnet-4''"
  by (simp_all add: demo_orchestrator_def setApiKeys_def updateAvailableModels_def
      new_RefinementOrchestrator_def llm_setApiKeys_def new_LLMClient_def truthy_def
      validate_key_def Let_def demo_session_def new_session_def demo_selection_def)

lemma model_configs:
  "map_of modelConfig ''gpt-4o'' = Some \<lparr>cfg_provider = openai, modelName = ''gpt-4o'', maxTokens = 8000,
        cfg_tier = advanced, cfg_capabilities = [''creative'', ''analytical'', ''technical'', ''fast'']\<rparr>"
  "map_of modelConfig ''gpt-4.1'' = Some \<lparr>cfg_provider = openai, modelName = ''gpt-4.1-2025-04-14'', maxTokens = 32000,
        cfg_tier = premium,
        cfg_capabilities = [''advanced'', ''nuanced'', ''precise'', ''technical'', ''comprehensive'']\<rparr>"
  "map_of modelConfig ''claude-sonnet-4'' = Some \<lparr>cfg_provider = anthropic, modelName = ''claude-sonnet-4-20250514'', maxTokens = 60000,
        cfg_tier = premium,
        cfg_capabilities = [''comprehensive'', ''detailed'', ''analytical'', ''thoughtful'', ''advanced'']\<rparr>"
  by (simp_all add: modelConfig_def)

text \<open>The rewrite rules that run the pipeline on the example states.\<close>

lemmas run_pipeline =
  startCollaborativeGeneration_def generateProcessSteps_def
  demo_session_simps demo_more demo_clients handoffStrategies_def
  executeCollaborativeProcess_def sendProgressUpdate_def Let_def
  gen_def generateResponse_def generateOpenAIResponse_def generateAnthropicResponse_def
  call_provider_def model_configs trim_ok
  run_iterations.simps [of _ _ "Suc 0"] run_iteration_def trackModelUsage_def
  critiqueModel_of_def improvementModel_of_def getNextModel_def
  model_specialization_getNextModel_def phaseToSpecialization_def specializationMap_def or_else_def

lemma demo_available:
  "llm_getAvailableModels (llmClient demo_orchestrator) =
    [''claude-sonnet-4'', ''gpt-4.1'', ''gpt-4o'', ''gpt-4-turbo'', ''claude-3-5-sonnet'']"
  by (simp add: llm_getAvailableModels_def isModelAvailable_def modelConfig_def demo_clients
      tier_of_def tierOrder_def)

lemma new_session_simps:
  "targetIterations (new_session x demo_orchestrator sid p demo_selection n cb) = n"
  "refinedPrompt (new_session x demo_orchestrator sid p demo_selection n cb) = None"
  "handoffStrategy (new_session x demo_orchestrator sid p demo_selection n cb) = ''model_specialization''"
  "primaryModel (models (new_session x demo_orchestrator sid p demo_selection n cb)) = ''gpt-4o''"
  "refinementModel (models (new_session x demo_orchestrator sid p demo_selection n cb)) = ''claude-sonnet-4''"
  "finalReviewModel (new_session x demo_orchestrator sid p demo_selection n cb) = Some ''claude-sonnet-4''"
  "modelUsageStats (new_session x demo_orchestrator sid p demo_selection n cb) = []"
  "s_id (new_session x demo_orchestrator sid p demo_selection n cb) = sid"
  "progressCallback (new_session x demo_orchestrator sid p demo_selection n cb) = cb"
  "pendingClarifications (new_session x demo_orchestrator sid p demo_selection n cb) = None"
  "originalPrompt (new_session x demo_orchestrator sid p demo_selection n cb) = p"
  "completedIterations (new_session x demo_orchestrator sid p demo_selection n cb) = 0"
  by (simp_all add: new_session_def demo_selection_def Let_def truthy_def or_else_def best_final_demo)

lemma trim_answers:
  "trim ''NEEDS_CLARIFICATION: NO'' = ''NEEDS_CLARIFICATION: NO''"
  "trim ''NEEDS_CLARIFICATION: YES'' = ''NEEDS_CLARIFICATION: YES''"
  by (simp_all add: trim_def is_space_def)

lemma parse_answers:
  "needsClarification (parseAnalysisResult ''NEEDS_CLARIFICATION: NO'') = False"
  "needsClarification (parseAnalysisResult ''NEEDS_CLARIFICATION: YES'') = True"
  by (simp_all add: parseAnalysisResult_def match_needs_clarification_def strip_prefix_def
      startsWith_def is_space_def)

lemma direct_run:
  "\<exists>result orc'.
     startRefinementProcess direct_externals demo_orchestrator ''session-1'' ''Write a haiku''
       demo_selection n None = (Complete ''session-1'' result, orc')"
proof -
  let ?s = "new_session direct_externals demo_orchestrator ''session-1'' ''Write a haiku''
      demo_selection n None"
  let ?orc1 = "demo_orchestrator\<lparr>activeSessions :=
      (activeSessions demo_orchestrator)(''session-1'' \<mapsto> ?s)\<rparr>"
  have "\<exists>a c. analyzeAndRefine direct_externals (llmClient demo_orchestrator) ''Write a haiku'' =
      (Inr (Refined ''NEEDS_CLARIFICATION: NO'' a), c)"
    by (simp add: analyzeAndRefine_def demo_available generateRefinedPrompt_def
        generateResponse_def generateAnthropicResponse_def call_provider_def model_configs
        demo_clients direct_externals_def trim_answers parse_answers Let_def)
  then obtain a c where an: "analyzeAndRefine direct_externals (llmClient demo_orchestrator) ''Write a haiku'' =
      (Inr (Refined ''NEEDS_CLARIFICATION: NO'' a), c)"
    by (elim exE)
  note fr = analyzeAndRefine_cases(1) [OF an]
  have cl: "openaiClient c = Some ''sk-test''" "anthropicClient c = Some ''sk-ant-test''"
    by (subst fr, simp add: demo_clients)+
  let ?s3 = "?s\<lparr>refinedPrompt := Some ''NEEDS_CLARIFICATION: NO''\<rparr>"
  let ?orc3 = "?orc1\<lparr>llmClient := c, activeSessions := (activeSessions ?orc1)(''session-1'' \<mapsto> ?s3)\<rparr>"
  have resp: "responsive direct_externals"
    by (simp add: responsive_def direct_externals_def trim_answers)
  have "\<exists>result orc'. startCollaborativeGeneration direct_externals ?orc3 ''session-1'' =
      (Complete ''session-1'' result, orc')"
  proof (rule startCollaborativeGeneration_succeeds [where s = ?s3 and st = model_specialization])
    show "activeSessions ?orc3 ''session-1'' = Some ?s3" by simp
    show "ready direct_externals ?orc3" by (simp add: ready_def resp cl)
    show "handoffStrategies (handoffStrategy ?s3) = Some model_specialization"
      by (simp add: new_session_simps handoffStrategies_def)
    show "registered (primaryModel (models ?s3))"
      by (simp add: new_session_simps registered_models)
    show "list_all registered (planned_models ?orc3 model_specialization ?s3 j)" for j
      by (simp add: planned_specialization registered_models)
    show "registered (final_model_of ?orc3 ?s3)"
      by (simp add: final_model_of_def new_session_simps truthy_def js_text_def registered_models)
  qed
  with an show ?thesis
    by (simp add: startRefinementProcess_def Let_def)
qed


lemma parse_asking:
  "parseClarificationQuestions ''NEEDS_CLARIFICATION: YES'' = [generic_question]"
  by code_simp

lemma asking_analysis:
  "\<exists>a c. analyzeAndRefine asking_externals (llmClient demo_orchestrator) ''Write a haiku'' =
      (Inr (Clarify [generic_question] a), c)"
  by (simp add: analyzeAndRefine_def demo_available generateClarificationQuestions_def
      generateResponse_def generateAnthropicResponse_def call_provider_def model_configs
      demo_clients asking_externals_def trim_answers parse_answers parse_asking Let_def)

lemma demo_parked:
  "\<exists>c. demo_parked = demo_orchestrator\<lparr>llmClient := c,
        activeSessions := (activeSessions demo_orchestrator)
          (''session-1'' \<mapsto>
             (new_session asking_externals demo_orchestrator ''session-1'' ''Write a haiku''
                demo_selection 1 None)\<lparr>pendingClarifications := Some [generic_question]\<rparr>)\<rparr> \<and>
     openaiClient c = Some ''sk-test'' \<and> anthropicClient c = Some ''sk-ant-test''"
proof -
  from asking_analysis obtain a c where
    an: "analyzeAndRefine asking_externals (llmClient demo_orchestrator) ''Write a haiku'' =
      (Inr (Clarify [generic_question] a), c)"
    by (elim exE)
  note fr = analyzeAndRefine_cases(1) [OF an]
  have "openaiClient c = Some ''sk-test''" "anthropicClient c = Some ''sk-ant-test''"
    by (subst fr, simp add: demo_clients)+
  then show ?thesis
    by (intro exI [of _ c]) (simp add: demo_parked_def startRefinementProcess_Clarify [OF an])
qed

lemma answers_checked:
  "validateClarificationAnswers [generic_question] Map.empty =
     [''Please answer: Could you provide more specific details about what you want to achieve with this request?'']"
  "validateClarificationAnswers [generic_question] [''q1'' \<mapsto> ''A haiku about autumn''] = []"
  by (simp_all add: validateClarificationAnswers_def generic_question_def truthy_def or_else_def
      trim_def is_space_def)


lemma question_examples:
  "length (match_all question_match five_questions) = 5"
  "map q_id (parseClarificationQuestions five_questions) = [''q1'', ''q2'', ''q3'', ''q4'', ''q5'']"
  "match_all question_match plain_questions = []"
  "length (split_where (\<lambda>c. c = CHR 0x0A) plain_questions) = 5"
  "map q_id (parseClarificationQuestions plain_questions) = [''q1'', ''q2'', ''q3'', ''q4'']"
  by code_simp+


section \<open>The calls of a successful run\<close>

text \<open>
  C1: a successful run of the pipeline over a session whose refined prompt is set, with
  \<open>N \<ge> 1\<close> target iterations, makes exactly \<open>1 + 2N + 1\<close> generation calls, none of
  which fails. They are the calls that the entries of the result's history record, in
  order, followed by the final review: first the initial generation with the primary model
  on the refined prompt, then for each iteration \<open>1..N\<close> a critique call followed by an
  improvement call with the models the strategy gives, then the call of the final review
  model. The result's \<open>completedIterations\<close> is \<open>N\<close>.
\<close>

theorem pipeline_call_count:
  assumes run: "executeCollaborativeProcess x orc s = (Inr result, orc')"
    and prompt: "refinedPrompt s = Some prompt"
    and N: "1 \<le> targetIterations s"
  shows "length (new_calls orc orc') = 1 + 2 * targetIterations s + 1
    \<and> all_ok (new_calls orc orc')
    \<and> (\<exists>p. new_calls orc orc' =
          map call_of_entry (r_iterationHistory result) @
          [\<lparr>gc_model = final_model_of orc s, gc_prompt = p, gc_outcome = Inr (finalOutput result)\<rparr>])
    \<and> map h_type (r_iterationHistory result) =
          initial_generation # concat (replicate (targetIterations s) [critique, improvement])
    \<and> map h_iteration (r_iterationHistory result) =
          0 # concat (map (\<lambda>i. [i, i]) [1..<Suc (targetIterations s)])
    \<and> (\<exists>st. handoffStrategies (handoffStrategy s) = Some st \<and>
          map h_model (r_iterationHistory result) =
            primaryModel (models s) #
            concat (map (planned_models orc st s) [1..<Suc (targetIterations s)]))
    \<and> h_input (hd (r_iterationHistory result)) = prompt
    \<and> r_completedIterations result = targetIterations s"
proof -
  let ?N = "targetIterations s"
  let ?hs = "handoffStrategies (handoffStrategy s)"
  let ?orc2 = "sendProgressUpdate (sendProgressUpdate orc s ''starting'' 0 None None) s
                ''initial_generation'' 0 (Some (primaryModel (models s))) None"
  let ?s1 = "trackModelUsage s (primaryModel (models s)) initial_generation"
  have f2: "orc_frame orc ?orc2"
    using sendProgressUpdate_frame(1) orc_frame_trans by blast
  have l2: "llmClient ?orc2 = llmClient orc"
    by (simp add: sendProgressUpdate_frame(2))
  from run obtain r0 orc3 where
    g: "gen x ?orc2 (primaryModel (models s)) (js_text (refinedPrompt s)) = (r0, orc3)" and
    err: "\<And>e. r0 = Inl e \<Longrightarrow> Inr result = (Inl e :: error + pipeline_result) \<and>
         orc' = orc3\<lparr>activeSessions := (activeSessions orc3)(s_id s := None)\<rparr>" and
    ok: "\<And>t. r0 = Inr t \<Longrightarrow>
         \<exists>rl orc4.
           run_iterations x ?hs 1 orc3
             \<lparr>ls_session = ?s1, ls_response = t,
              ls_history = [\<lparr>h_iteration = 0, h_model = primaryModel (models s),
                 h_type = initial_generation, h_input = js_text (refinedPrompt s), h_output = t,
                 h_timestamp = now x orc3\<rparr>]\<rparr> = (rl, orc4) \<and>
           (\<forall>e. rl = Inl e \<longrightarrow>
              Inr result = (Inl e :: error + pipeline_result) \<and>
              orc' = orc4\<lparr>activeSessions := (activeSessions orc4)(s_id s := None)\<rparr>) \<and>
           (\<forall>ls. rl = Inr ls \<longrightarrow>
              (\<exists>orc5. final_review_step x orc4 ls = (Inr result, orc5) \<and>
                 orc' = orc5\<lparr>activeSessions := (activeSessions orc5)(s_id s := None)\<rparr>))"
    by (rule executeCollaborativeProcess_stages) blast
  from err obtain t where r0: "r0 = Inr t"
    by (cases r0) auto
  let ?e0 = "\<lparr>h_iteration = 0, h_model = primaryModel (models s),
                 h_type = initial_generation, h_input = js_text (refinedPrompt s), h_output = t,
                 h_timestamp = now x orc3\<rparr>"
  let ?ls0 = "\<lparr>ls_session = ?s1, ls_response = t, ls_history = [?e0]\<rparr>"
  from ok [OF r0] obtain rl orc4 where
    loop0: "run_iterations x ?hs 1 orc3 ?ls0 = (rl, orc4)" and
    lerr: "\<And>e. rl = Inl e \<Longrightarrow> Inr result = (Inl e :: error + pipeline_result)" and
    lok: "\<And>ls. rl = Inr ls \<Longrightarrow>
              (\<exists>orc5. final_review_step x orc4 ls = (Inr result, orc5) \<and>
                 orc' = orc5\<lparr>activeSessions := (activeSessions orc5)(s_id s := None)\<rparr>)"
    by blast
  from lerr obtain ls where rl: "rl = Inr ls"
    by (cases rl) auto
  from lok [OF rl] obtain orc5 where
    fr: "final_review_step x orc4 ls = (Inr result, orc5)" and
    o': "orc' = orc5\<lparr>activeSessions := (activeSessions orc5)(s_id s := None)\<rparr>"
    by blast
  note loop = loop0 [unfolded rl]
  have N1: "targetIterations ?s1 = ?N"
    by (simp add: trackModelUsage_def)
  have f3: "orc_frame orc orc3"
    using gen_frame(1) [OF g] f2 orc_frame_trans by blast
  have l3: "gen_log (llmClient orc3) = gen_log (llmClient orc) @ [call_of_entry ?e0]"
    using gen_frame(2) [OF g] by (simp add: l2 r0 call_of_entry_def)
  have sf1: "session_frame s ?s1"
    by (rule trackModelUsage_frame)
  from run_iterations_entries [OF loop] obtain es where
    h4: "ls_history ls = [?e0] @ es" and
    l4: "gen_log (llmClient orc4) = gen_log (llmClient orc3) @ map call_of_entry es" and
    i4: "map h_iteration es = concat (map (\<lambda>j. [j, j]) [1..<Suc ?N])"
    by (auto simp: N1 simp del: upt_Suc)
  from run_iterations_Inr [OF loop] N have
    sf4: "session_frame ?s1 (ls_session ls)" and
    t4: "map h_type (ls_history ls) =
           initial_generation # concat (replicate ?N [critique, improvement])" and
    c4: "completedIterations (ls_session ls) = ?N" and
    hs: "?hs \<noteq> None"
    by (simp_all add: N1)
  from hs obtain st where st: "?hs = Some st"
    by blast
  have f4: "orc_frame orc3 orc4"
    using run_iterations_trace [OF loop] by blast
  have sf: "session_frame s (ls_session ls)"
    using sf1 sf4 session_frame_trans by blast
  have m4: "map h_model es = concat (map (planned_models orc st s) [1..<Suc ?N])"
  proof -
    have "map gc_model (map call_of_entry es) =
        concat (map (planned_models orc3 st ?s1) [1..<Suc ?N])"
      using run_iterations_models [OF loop [unfolded st]] l4 by (simp add: N1 del: upt_Suc)
    moreover have "map gc_model (map call_of_entry es) = map h_model es"
      by (simp add: call_of_entry_def)
    moreover have "planned_models orc3 st ?s1 = planned_models orc st s"
      using planned_models_cong [OF f3 sf1] by (intro ext)
    ultimately show ?thesis by simp
  qed
  from final_review_step_cases [OF fr] obtain p where
    f5: "orc_frame orc4 orc5" and
    l5: "gen_log (llmClient orc5) = gen_log (llmClient orc4) @
           [\<lparr>gc_model = final_model_of orc4 (ls_session ls), gc_prompt = p,
             gc_outcome = Inr (finalOutput result)\<rparr>]" and
    res: "r_completedIterations result = completedIterations (ls_session ls)"
      "r_iterationHistory result = ls_history ls"
    by force
  have fm: "final_model_of orc4 (ls_session ls) = final_model_of orc s"
    using final_model_of_cong [OF _ sf] f3 f4 orc_frame_trans by blast
  have calls: "new_calls orc orc' = map call_of_entry (r_iterationHistory result) @
      [\<lparr>gc_model = final_model_of orc s, gc_prompt = p, gc_outcome = Inr (finalOutput result)\<rparr>]"
    by (simp add: new_calls_def o' l5 l4 l3 res h4 fm)
  have len: "length (r_iterationHistory result) = 1 + 2 * ?N"
    using arg_cong [OF t4, of length] by (simp add: res length_concat sum_list_replicate)
  have c1: "length (new_calls orc orc') = 1 + 2 * ?N + 1"
    by (simp add: calls len)
  have c2: "all_ok (new_calls orc orc')"
    by (simp add: calls all_ok_def failed_def call_of_entry_def list_all_iff)
  have c3: "\<exists>p. new_calls orc orc' = map call_of_entry (r_iterationHistory result) @
      [\<lparr>gc_model = final_model_of orc s, gc_prompt = p, gc_outcome = Inr (finalOutput result)\<rparr>]"
    using calls by (intro exI [of _ p])
  have c4': "map h_type (r_iterationHistory result) =
      initial_generation # concat (replicate ?N [critique, improvement])"
    using t4 by (simp add: res)
  have c5: "map h_iteration (r_iterationHistory result) =
      0 # concat (map (\<lambda>i. [i, i]) [1..<Suc ?N])"
    by (simp add: res h4 i4 del: upt_Suc)
  have "map h_model (r_iterationHistory result) =
      primaryModel (models s) # concat (map (planned_models orc st s) [1..<Suc ?N])"
    by (simp add: res h4 m4 del: upt_Suc)
  with st have c6: "\<exists>st. ?hs = Some st \<and> map h_model (r_iterationHistory result) =
      primaryModel (models s) # concat (map (planned_models orc st s) [1..<Suc ?N])"
    by (intro exI [of _ st] conjI)
  have c7: "h_input (hd (r_iterationHistory result)) = prompt"
    by (simp add: res h4 prompt js_text_def)
  have c8: "r_completedIterations result = ?N"
    by (simp add: res c4)
  from c1 c2 c3 c4' c5 c6 c7 c8 show ?thesis
    by (intro conjI)
qed

theorem pipeline_call_count_witness:
  "\<exists>result orc'.
     executeCollaborativeProcess echo_externals demo_orchestrator (demo_session 2) = (Inr result, orc')
     \<and> length (new_calls demo_orchestrator orc') = 6
     \<and> map gc_model (new_calls demo_orchestrator orc') =
         [''gpt-4o'', ''claude-sonnet-4'', ''gpt-4.1'', ''claude-sonnet-4'', ''gpt-4.1'', ''claude-sonnet-4'']
     \<and> map h_type (r_iterationHistory result) =
         [initial_generation, critique, improvement, critique, improvement]
     \<and> r_completedIterations result = 2"
proof -
  from demo_run [of 2] obtain result orc' where
    run: "executeCollaborativeProcess echo_externals demo_orchestrator (demo_session 2) = (Inr result, orc')"
    by blast
  have N: "1 \<le> targetIterations (demo_session 2)"
    by (simp add: demo_session_simps)
  have two: "[1..<Suc (targetIterations (demo_session 2))] = [1, 2]"
    "replicate (targetIterations (demo_session 2)) x = [x, x]" for x :: "'a"
    by (simp_all add: demo_session_simps upt_rec numeral_2_eq_2)
  note T = pipeline_call_count [OF run demo_session_simps(2) N]
  from T obtain p st where
    len: "length (new_calls demo_orchestrator orc') = 1 + 2 * targetIterations (demo_session 2) + 1" and
    calls: "new_calls demo_orchestrator orc' =
          map call_of_entry (r_iterationHistory result) @
          [\<lparr>gc_model = final_model_of demo_orchestrator (demo_session 2), gc_prompt = p,
            gc_outcome = Inr (finalOutput result)\<rparr>]" and
    types: "map h_type (r_iterationHistory result) =
          initial_generation # concat (replicate (targetIterations (demo_session 2)) [critique, improvement])" and
    st: "handoffStrategies (handoffStrategy (demo_session 2)) = Some st" and
    ms: "map h_model (r_iterationHistory result) =
            primaryModel (models (demo_session 2)) #
            concat (map (planned_models demo_orchestrator st (demo_session 2))
              [1..<Suc (targetIterations (demo_session 2))])" and
    fin: "r_completedIterations result = targetIterations (demo_session 2)"
    by (elim conjE exE) (rule that; assumption)
  from st have "st = model_specialization"
    by (simp add: demo_strategy)
  with ms have models: "map h_model (r_iterationHistory result) =
       [''gpt-4o'', ''claude-sonnet-4'', ''gpt-4.1'', ''claude-sonnet-4'', ''gpt-4.1'']"
    unfolding two by (simp add: planned_specialization demo_session_simps)
  have "map gc_model (new_calls demo_orchestrator orc') =
      map h_model (r_iterationHistory result) @ [''claude-sonnet-4'']"
    unfolding calls by (simp add: call_of_entry_def comp_def demo_final)
  moreover have "map h_type (r_iterationHistory result) =
         [initial_generation, critique, improvement, critique, improvement]"
    using types unfolding two by simp
  ultimately show ?thesis
    using run len fin models by (simp add: demo_session_simps)
qed

section \<open>When a call fails\<close>

text \<open>
  C2: when a generation call made during the pipeline fails, the run started by
  \<open>startCollaborativeGeneration\<close> ends in an error result that carries the error of that
  call; the failed call is the last call made (every call before it succeeded, none follows
  it, so no final review runs after a failed iteration call); and the session is no longer
  in the map of active sessions.
\<close>

theorem failed_call_aborts:
  assumes run: "startCollaborativeGeneration x orc sessionId = (reply, orc')"
    and failure: "\<not> all_ok (new_calls orc orc')"
  shows "\<exists>e. reply = Failed e \<and> stops_at_failure e (new_calls orc orc')
    \<and> activeSessions orc' sessionId = None"
proof (cases "activeSessions orc sessionId")
  case None
  with run have "orc' = orc"
    by (simp add: startCollaborativeGeneration_def)
  with failure show ?thesis
    by (simp add: new_calls_def all_ok_def)
next
  case (Some s)
  show ?thesis
  proof (cases "generateProcessSteps orc s")
    case (Inl e)
    with run Some have "llmClient orc' = llmClient orc"
      by (auto simp: startCollaborativeGeneration_def)
    with failure show ?thesis
      by (simp add: new_calls_def all_ok_def)
  next
    case (Inr process_steps)
    let ?s' = "s\<lparr>steps := process_steps\<rparr>"
    let ?orc1 = "orc\<lparr>activeSessions := (activeSessions orc)(sessionId \<mapsto> ?s')\<rparr>"
    obtain r orc2 where ex: "executeCollaborativeProcess x ?orc1 ?s' = (r, orc2)"
      by (cases "executeCollaborativeProcess x ?orc1 ?s'")
    from executeCollaborativeProcess_trace(3) [OF ex] obtain calls where
      log: "gen_log (llmClient orc2) = gen_log (llmClient orc) @ calls" and
      tr: "trace_ok r calls"
      by auto
    have same: "llmClient orc' = llmClient orc2"
      using run Some Inr ex by (cases r) (auto simp: startCollaborativeGeneration_def Let_def)
    then have new: "new_calls orc orc' = calls"
      by (simp add: new_calls_def log)
    with failure tr obtain e where r: "r = Inl e" and stop: "stops_at_failure e calls"
      by (cases r) (auto simp: trace_ok_def)
    from run Some Inr ex r have "reply = Failed e"
      and "orc' = orc2\<lparr>activeSessions := (activeSessions orc2)(sessionId := None)\<rparr>"
      by (simp_all add: startCollaborativeGeneration_def Let_def)
    with stop new show ?thesis
      by simp
  qed
qed

theorem failed_call_aborts_witness:
  "fst (startCollaborativeGeneration flaky_externals demo_running ''session-1'') =
     Failed (ProviderCallError openai ''overloaded'')
   \<and> map (\<lambda>c. (gc_model c, failed c))
        (new_calls demo_running (snd (startCollaborativeGeneration flaky_externals demo_running ''session-1''))) =
      [(''gpt-4o'', False), (''claude-sonnet-4'', False), (''gpt-4.1'', True)]
   \<and> activeSessions (snd (startCollaborativeGeneration flaky_externals demo_running ''session-1''))
        ''session-1'' = None"
proof -
  let ?run = "startCollaborativeGeneration flaky_externals demo_running ''session-1''"
  have reply: "fst ?run = Failed (ProviderCallError openai ''overloaded'')"
    by (simp add: run_pipeline demo_running_def flaky_externals_def)
  have calls: "map (\<lambda>c. (gc_model c, failed c)) (new_calls demo_running (snd ?run)) =
      [(''gpt-4o'', False), (''claude-sonnet-4'', False), (''gpt-4.1'', True)]"
    by (simp add: run_pipeline demo_running_def flaky_externals_def new_calls_def failed_def)
  have "\<exists>c \<in> set (new_calls demo_running (snd ?run)). failed c"
    using arg_cong [OF calls, of "\<lambda>l. True \<in> snd ` set l"] by (auto simp: image_iff)
  then have "\<not> all_ok (new_calls demo_running (snd ?run))"
    by (auto simp: all_ok_def list_all_iff)
  from failed_call_aborts [OF surjective_pairing this]
  have "activeSessions (snd ?run) ''session-1'' = None"
    by blast
  with reply calls show ?thesis
    by simp
qed


section \<open>The clarification gate\<close>

text \<open>
  C3: when the prompt analyzer answers that clarification is needed, \<open>startRefinementProcess\<close>
  returns the session id with the analyzer's questions; the only calls of the generation
  service are the two of the analyzer (the analysis and the questions), so the pipeline made
  none, and no progress event was sent; the session is in the map with these questions as
  its \<open>pendingClarifications\<close> and without a refined prompt; and after any
  \<open>submitClarification\<close> on that session that ends in an error, the session, if it is
  still in the map, has no refined prompt and the same pending questions.
\<close>

theorem clarification_gate:
  assumes an: "analyzeAndRefine x (llmClient orc) p = (Inr (Clarify qs a), c)"
    and run: "startRefinementProcess x orc sid p sel n cb = (reply, orc')"
  shows "reply = NeedsClarification sid qs
    \<and> (\<exists>m t1 t2. new_calls orc orc' =
          [\<lparr>gc_model = m, gc_prompt = buildAnalysisPrompt p, gc_outcome = Inr t1\<rparr>,
           \<lparr>gc_model = m, gc_prompt = clarificationPrompt p a, gc_outcome = Inr t2\<rparr>])
    \<and> progress_log orc' = progress_log orc
    \<and> (\<exists>s. activeSessions orc' = (activeSessions orc)(sid \<mapsto> s) \<and>
          pendingClarifications s = Some qs \<and> refinedPrompt s = None \<and>
          iterationHistory s = [] \<and> modelUsageStats s = [])
    \<and> (\<forall>x' answers cb' e orc'' s'.
          submitClarification x' orc' sid answers cb' = (Failed e, orc'') \<and>
          activeSessions orc'' sid = Some s' \<longrightarrow>
          refinedPrompt s' = None \<and> pendingClarifications s' = Some qs)"
proof -
  let ?s = "(new_session x orc sid p sel n cb)\<lparr>pendingClarifications := Some qs\<rparr>"
  from run startRefinementProcess_Clarify [OF an, of sid sel n cb]
  have reply: "reply = NeedsClarification sid qs"
    and orc': "orc' = orc\<lparr>llmClient := c, activeSessions := (activeSessions orc)(sid \<mapsto> ?s)\<rparr>"
    by simp_all
  from analyzeAndRefine_cases(2) [OF an refl] obtain m t1 t2 where
    "gen_log c = gen_log (llmClient orc) @
          [\<lparr>gc_model = m, gc_prompt = buildAnalysisPrompt p, gc_outcome = Inr t1\<rparr>,
           \<lparr>gc_model = m, gc_prompt = clarificationPrompt p a, gc_outcome = Inr t2\<rparr>]"
    by blast
  then have calls: "\<exists>m t1 t2. new_calls orc orc' =
          [\<lparr>gc_model = m, gc_prompt = buildAnalysisPrompt p, gc_outcome = Inr t1\<rparr>,
           \<lparr>gc_model = m, gc_prompt = clarificationPrompt p a, gc_outcome = Inr t2\<rparr>]"
    by (simp add: new_calls_def orc')
  have log: "progress_log orc' = progress_log orc"
    by (simp add: orc')
  have s: "pendingClarifications ?s = Some qs" "refinedPrompt ?s = None" "s_id ?s = sid"
    "iterationHistory ?s = []" "modelUsageStats ?s = []"
    by (simp_all add: new_session_def Let_def)
  have map: "activeSessions orc' = (activeSessions orc)(sid \<mapsto> ?s)"
    by (simp add: orc')
  with s have session: "\<exists>s. activeSessions orc' = (activeSessions orc)(sid \<mapsto> s) \<and>
          pendingClarifications s = Some qs \<and> refinedPrompt s = None \<and>
          iterationHistory s = [] \<and> modelUsageStats s = []"
    by (intro exI [of _ ?s]) simp
  have later: "refinedPrompt s' = None \<and> pendingClarifications s' = Some qs"
    if "submitClarification x' orc' sid answers cb' = (Failed e, orc'')"
      and "activeSessions orc'' sid = Some s'" for x' answers cb' e orc'' s'
    using submitClarification_Failed [OF that(1) _ s(3) that(2)] map s(1,2) by simp
  from reply calls log session later show ?thesis
    by blast
qed

theorem clarification_gate_witness:
  "startRefinementProcess asking_externals demo_orchestrator ''session-1'' ''Write a haiku''
      demo_selection 1 None = (NeedsClarification ''session-1'' [generic_question], demo_parked)
   \<and> length (new_calls demo_orchestrator demo_parked) = 2
   \<and> map_option pendingClarifications (activeSessions demo_parked ''session-1'') =
        Some (Some [generic_question])
   \<and> map_option refinedPrompt (activeSessions demo_parked ''session-1'') = Some None
   \<and> fst (submitClarification echo_externals demo_parked ''session-1'' Map.empty None) =
        Failed (ValidationErrors
          [''Please answer: Could you provide more specific details about what you want to achieve with this request?''])
   \<and> map_option refinedPrompt
        (activeSessions (snd (submitClarification echo_externals demo_parked ''session-1'' Map.empty None))
           ''session-1'') = Some None"
proof -
  from asking_analysis obtain a c where
    an: "analyzeAndRefine asking_externals (llmClient demo_orchestrator) ''Write a haiku'' =
      (Inr (Clarify [generic_question] a), c)"
    by (elim exE)
  let ?start = "startRefinementProcess asking_externals demo_orchestrator ''session-1''
      ''Write a haiku'' demo_selection 1 None"
  have run: "?start = (fst ?start, demo_parked)"
    by (simp add: demo_parked_def)
  note gate = clarification_gate [OF an run]
  from gate have reply: "fst ?start = NeedsClarification ''session-1'' [generic_question]"
    by (elim conjE)
  from gate have "\<exists>m t1 t2. new_calls demo_orchestrator demo_parked =
          [\<lparr>gc_model = m, gc_prompt = buildAnalysisPrompt ''Write a haiku'', gc_outcome = Inr t1\<rparr>,
           \<lparr>gc_model = m, gc_prompt = clarificationPrompt ''Write a haiku'' a, gc_outcome = Inr t2\<rparr>]"
    by (elim conjE)
  then have two: "length (new_calls demo_orchestrator demo_parked) = 2"
    by auto
  from gate obtain s where
    s: "activeSessions demo_parked = (activeSessions demo_orchestrator)(''session-1'' \<mapsto> s)"
      "pendingClarifications s = Some [generic_question]" "refinedPrompt s = None"
    by (elim conjE exE)
  from gate have later: "\<forall>x' answers cb' e orc'' s'.
          submitClarification x' demo_parked ''session-1'' answers cb' = (Failed e, orc'') \<and>
          activeSessions orc'' ''session-1'' = Some s' \<longrightarrow>
          refinedPrompt s' = None \<and> pendingClarifications s' = Some [generic_question]"
    by (elim conjE)
  let ?submit = "submitClarification echo_externals demo_parked ''session-1'' Map.empty None"
  from submitClarification_invalid [of demo_parked "''session-1''" s "[generic_question]" Map.empty
      echo_externals None]
  obtain orc'' where
    sub: "?submit = (Failed (ValidationErrors (validateClarificationAnswers [generic_question] Map.empty)), orc'')"
    and kept: "activeSessions orc'' = (activeSessions demo_parked)(''session-1'' \<mapsto> s\<lparr>progressCallback := progressCallback s\<rparr>)"
    using s by (auto simp: answers_checked)
  from kept have there: "activeSessions orc'' ''session-1'' = Some s"
    by simp
  from later sub there have "refinedPrompt s = None"
    by blast
  with reply two s sub there run show ?thesis
    by (simp add: answers_checked)
qed


section \<open>The input-length guard\<close>

lemma configured_client_simps:
  "openaiClient configured_client = Some ''sk-test''"
  "anthropicClient configured_client = Some ''sk-ant-test''"
  "gen_log configured_client = []"
  "ext_log configured_client = []"
  by (simp_all add: configured_client_def llm_setApiKeys_def new_LLMClient_def truthy_def)

lemma generateResponse_never_PromptTooLong:
  "fst (generateResponse x c modelId prompt) \<noteq> Inl (PromptTooLong m n)"
  by (auto simp: generateResponse_def generateOpenAIResponse_def generateAnthropicResponse_def
      call_provider_def Let_def
      split: option.splits provider.splits prod.splits ext_reply.splits list.splits if_splits)

lemma generateResponse_reaches_provider:
  assumes "map_of modelConfig modelId = Some config" and "isModelAvailable c modelId"
  shows "ext_log (snd (generateResponse x c modelId prompt)) =
           ext_log c @ [\<lparr>ec_provider = cfg_provider config, ec_model = modelName config,
                         ec_max_tokens = maxTokens config, ec_prompt = prompt\<rparr>]"
  using assms
  by (auto simp: generateResponse_def generateOpenAIResponse_def generateAnthropicResponse_def
      call_provider_def isModelAvailable_def Let_def
      split: provider.splits prod.splits ext_reply.splits list.splits if_splits)

text \<open>
  C4, as the claim states it, fails: \<open>generateResponse\<close> never calls
  \<open>validatePromptLength\<close>. For \<open>gpt-4-turbo\<close> (budget 4000, so at most 2800 estimated
  tokens) and a prompt of 11201 characters (2801 estimated tokens), with the OpenAI client
  configured, the provider is invoked and its answer is returned.
\<close>

theorem generateResponse_length_guard_counterexample:
  "map_of modelConfig ''gpt-4-turbo'' \<noteq> None
   \<and> estimateTokenCount long_prompt = 2801
   \<and> map_option maxTokens (map_of modelConfig ''gpt-4-turbo'') = Some 4000
   \<and> fst (generateResponse echo_externals configured_client ''gpt-4-turbo'' long_prompt) = Inr ''ok''
   \<and> length (ext_log (snd (generateResponse echo_externals configured_client ''gpt-4-turbo'' long_prompt))) = 1"
  by (simp add: generateResponse_def modelConfig_def generateOpenAIResponse_def
      configured_client_simps call_provider_def echo_externals_def trim_def is_space_def
      estimateTokenCount_def long_prompt_def)

text \<open>
  C4, amended: for every model id of the table and every prompt whose estimated token count
  \<open>ceil(length / 4)\<close> exceeds 70% of the model's \<open>maxTokens\<close>, \<open>validatePromptLength\<close>
  fails with the prompt-too-long error. \<open>generateResponse\<close> does not apply this guard: it
  never fails with that error, and when the provider of the model has a client it sends the
  prompt to the provider whatever its length.
\<close>

theorem validatePromptLength_guard:
  assumes "map_of modelConfig modelId = Some config"
    and "7 * maxTokens config < 10 * estimateTokenCount prompt"
  shows "validatePromptLength modelId prompt = Inl (PromptTooLong modelId (estimateTokenCount prompt))
    \<and> fst (generateResponse x c modelId prompt) \<noteq> Inl (PromptTooLong modelId (estimateTokenCount prompt))
    \<and> (isModelAvailable c modelId \<longrightarrow>
         ext_log (snd (generateResponse x c modelId prompt)) =
           ext_log c @ [\<lparr>ec_provider = cfg_provider config, ec_model = modelName config,
                         ec_max_tokens = maxTokens config, ec_prompt = prompt\<rparr>])"
proof -
  have "validatePromptLength modelId prompt = Inl (PromptTooLong modelId (estimateTokenCount prompt))"
    using assms by (simp add: validatePromptLength_def)
  moreover note generateResponse_never_PromptTooLong [of x c modelId prompt]
  moreover have "isModelAvailable c modelId \<longrightarrow>
         ext_log (snd (generateResponse x c modelId prompt)) =
           ext_log c @ [\<lparr>ec_provider = cfg_provider config, ec_model = modelName config,
                         ec_max_tokens = maxTokens config, ec_prompt = prompt\<rparr>]"
    using generateResponse_reaches_provider [OF assms(1)] by blast
  ultimately show ?thesis by blast
qed

theorem validatePromptLength_guard_witness:
  "validatePromptLength ''gpt-4-turbo'' long_prompt = Inl (PromptTooLong ''gpt-4-turbo'' 2801)
   \<and> isModelAvailable configured_client ''gpt-4-turbo''
   \<and> map (\<lambda>call. length (ec_prompt call))
        (ext_log (snd (generateResponse echo_externals configured_client ''gpt-4-turbo'' long_prompt))) =
      [11201]"
proof -
  let ?config = "\<lparr>cfg_provider = openai, modelName = ''gpt-4-turbo-preview'', maxTokens = 4000,
        cfg_tier = advanced,
        cfg_capabilities = [''analytical'', ''comprehensive'', ''reliable'', ''fast'']\<rparr>"
  have cfg: "map_of modelConfig ''gpt-4-turbo'' = Some ?config"
    by (simp add: modelConfig_def)
  have est: "estimateTokenCount long_prompt = 2801"
    by (simp add: estimateTokenCount_def long_prompt_def)
  have big: "7 * maxTokens ?config < 10 * estimateTokenCount long_prompt"
    by (simp add: est)
  have avail: "isModelAvailable configured_client ''gpt-4-turbo''"
    by (simp add: isModelAvailable_def cfg configured_client_simps)
  from validatePromptLength_guard [OF cfg big, of echo_externals configured_client] avail est
  show ?thesis by (simp add: configured_client_simps long_prompt_def)
qed

section \<open>The usage statistics\<close>

text \<open>
  C5, as the claim states it, fails: the calls of the prompt analyzer are calls of the
  generation service made in the session, and \<open>trackModelUsage\<close> never counts them. A
  session of one iteration that needs no clarification makes six calls (analysis, prompt
  refinement and the four of the pipeline) and ends with a usage total of four.
\<close>

theorem usage_total_session_calls_counterexample:
  "gen_log (llmClient demo_orchestrator) = [] \<and>
   (case startRefinementProcess direct_externals demo_orchestrator ''session-1'' ''Write a haiku''
           demo_selection 1 None of
      (Complete sid result, orc') \<Rightarrow>
        usage_total (r_modelUsageStats result) = 4 \<and> length (gen_log (llmClient orc')) = 6
    | (Failed e, orc') \<Rightarrow> False
    | (NeedsClarification sid questions, orc') \<Rightarrow> False)"
proof -
  from direct_run [of 1] obtain result orc' where
    run: "startRefinementProcess direct_externals demo_orchestrator ''session-1'' ''Write a haiku''
       demo_selection 1 None = (Complete ''session-1'' result, orc')"
    by blast
  have "gen_log (llmClient demo_orchestrator) = []"
    by (simp add: demo_clients)
  with startRefinementProcess_Complete(2,3) [OF run] show ?thesis
    unfolding run by simp
qed

text \<open>
  C5, amended: at the end of a successful run of the pipeline over a session whose usage
  statistics were empty at its start (as they are when the session is created), the sum of
  \<open>totalUsage\<close> over all models equals the number of generation calls that the pipeline
  made, \<open>1 + 2N + 1\<close>.
\<close>

theorem usage_total_counts_pipeline_calls:
  assumes "executeCollaborativeProcess x orc s = (Inr result, orc')"
    and "modelUsageStats s = []"
  shows "usage_total (r_modelUsageStats result) = length (new_calls orc orc')
    \<and> length (new_calls orc orc') = 1 + 2 * targetIterations s + 1"
  using pipeline_counts(1,2) [OF assms(1)] assms(2)
  by (simp add: new_calls_def usage_total_def)

theorem usage_total_counts_pipeline_calls_witness:
  "\<exists>result orc'.
     executeCollaborativeProcess echo_externals demo_orchestrator (demo_session 2) = (Inr result, orc')
     \<and> usage_total (r_modelUsageStats result) = 6
     \<and> length (new_calls demo_orchestrator orc') = 6"
proof -
  from demo_run [of 2] obtain result orc' where
    run: "executeCollaborativeProcess echo_externals demo_orchestrator (demo_session 2) = (Inr result, orc')"
    by blast
  from usage_total_counts_pipeline_calls [OF run demo_session_simps(6)] run show ?thesis
    by (simp add: demo_session_simps)
qed


section \<open>The specialization strategy\<close>

text \<open>
  C6: under the \<open>model_specialization\<close> strategy, the next model for phase \<open>critique\<close> is
  the \<open>analytical_critique\<close> entry of the fixed table, whatever the current model, the
  iteration index and the total are; for a phase without an entry in the
  phase-to-specialization table it is the current model, unchanged.
\<close>

theorem model_specialization_critique:
  "map_of specializationMap ''analytical_critique'' =
     Some (model_specialization_getNextModel currentModel iteration totalIterations ''critique'')
   \<and> getNextModel orc model_specialization currentModel iteration totalIterations ''critique'' =
       Some ''claude-sonnet-4''
   \<and> (map_of phaseToSpecialization phase = None \<longrightarrow>
        model_specialization_getNextModel currentModel iteration totalIterations phase = currentModel)"
  by (simp add: model_specialization_getNextModel_def getNextModel_def specializationMap_def
      phaseToSpecialization_def or_else_def)

theorem model_specialization_critique_witness:
  "map_of phaseToSpecialization ''polish'' = None
   \<and> model_specialization_getNextModel ''gpt-4o'' 1 2 ''polish'' = ''gpt-4o''
   \<and> model_specialization_getNextModel ''gpt-4o'' 1 2 ''critique'' = ''claude-sonnet-4''"
  using model_specialization_critique [of "''gpt-4o''" 1 2 undefined "''polish''"]
  by (simp add: phaseToSpecialization_def specializationMap_def)


section \<open>The prompt builders\<close>

text \<open>
  C7: \<open>buildCritiquePrompt\<close> and \<open>buildImprovementPrompt\<close> are functions of their arguments
  alone, and of the history the critique prompt reads only the iteration and the first 200
  characters of the output of the critique entries, the improvement prompt nothing. So two
  calls with the same original prompt, current response, iteration, total and (for the
  improvement) critique give the same string whenever the two histories agree on that
  digest; in particular when they are the same history.
\<close>

theorem prompt_builders_deterministic:
  assumes "critique_digest history = critique_digest history'"
  shows "buildCritiquePrompt original currentResponse iteration totalIterations history =
      buildCritiquePrompt original currentResponse iteration totalIterations history'
    \<and> buildImprovementPrompt original currentResponse critiqueText iteration totalIterations history =
      buildImprovementPrompt original currentResponse critiqueText iteration totalIterations history'"
proof -
  have digest: "map (\<lambda>h. ''Iteration '' @ show_nat (h_iteration h) @ '': '' @ take 200 (h_output h) @ ''...'')
        (filter (\<lambda>h. h_type h = critique) past) =
      map (\<lambda>(i, t). ''Iteration '' @ show_nat i @ '': '' @ t @ ''...'') (critique_digest past)"
    for past
    by (simp add: critique_digest_def comp_def)
  have "buildCritiquePrompt original currentResponse iteration totalIterations history =
      buildCritiquePrompt original currentResponse iteration totalIterations history'"
    unfolding buildCritiquePrompt_def digest assms ..
  moreover have "buildImprovementPrompt original currentResponse critiqueText iteration totalIterations history =
      buildImprovementPrompt original currentResponse critiqueText iteration totalIterations history'"
    unfolding buildImprovementPrompt_def ..
  ultimately show ?thesis
    by (intro conjI)
qed

theorem prompt_builders_deterministic_witness:
  "critique_digest history_a = [(1, ''Too plain'')]
   \<and> critique_digest history_b = [(1, ''Too plain'')]
   \<and> map h_timestamp history_a \<noteq> map h_timestamp history_b
   \<and> buildCritiquePrompt ''Write a haiku'' ''First draft'' 2 2 history_a =
       buildCritiquePrompt ''Write a haiku'' ''First draft'' 2 2 history_b
   \<and> buildImprovementPrompt ''Write a haiku'' ''First draft'' ''Still plain'' 2 2 history_a =
       buildImprovementPrompt ''Write a haiku'' ''First draft'' ''Still plain'' 2 2 history_b"
proof -
  have digest: "critique_digest history_a = [(1, ''Too plain'')]"
    "critique_digest history_b = [(1, ''Too plain'')]"
    by (simp_all add: critique_digest_def history_a_def history_b_def)
  have times: "map h_timestamp history_a \<noteq> map h_timestamp history_b"
    by (simp add: history_a_def history_b_def)
  from prompt_builders_deterministic [of history_a history_b "''Write a haiku''" "''First draft''" 2 2
      "''Still plain''"] digest times
  show ?thesis
    by simp
qed


section \<open>The list of available models\<close>

text \<open>
  C8: the method is documented as the list of available models, "only those with valid API
  keys". On an orchestrator as the constructor leaves it, before any call of \<open>setApiKeys\<close>,
  the code does not do so: \<open>enabledModels\<close> is undefined then, and \<open>getAvailableModels\<close>
  returns the whole catalogue of five models although no provider has a key or a client.
\<close>

theorem getAvailableModels_fresh_orchestrator:
  "map md_id (getAvailableModels new_RefinementOrchestrator) =
     [''gpt-4o'', ''gpt-4-turbo'', ''gpt-4.1'', ''claude-sonnet-4'', ''claude-3-5-sonnet'']
   \<and> filter (\<lambda>m. has_key (apiKeys (llmClient new_RefinementOrchestrator)) (md_provider m))
        (getAvailableModels new_RefinementOrchestrator) = []
   \<and> openaiClient (llmClient new_RefinementOrchestrator) = None
   \<and> anthropicClient (llmClient new_RefinementOrchestrator) = None"
  by (simp add: getAvailableModels_def new_RefinementOrchestrator_def new_LLMClient_def
      availableModels_def has_key_def)

text \<open>
  The defect is confined to that state: once \<open>setApiKeys\<close> has been called, the models
  listed are those of the catalogue whose provider has a key among the keys that the call
  accepted (those that the client holds), and \<open>startRefinementProcess\<close> and
  \<open>submitClarification\<close> keep it so.
\<close>

lemma getAvailableModels_credentialed:
  "credentialed (setApiKeys orc keys)
   \<and> apiKeys (llmClient (setApiKeys orc keys)) =
       \<lparr>key_openai = validate_key ''sk-'' (key_openai keys),
        key_anthropic = validate_key ''sk-ant-'' (key_anthropic keys)\<rparr>
   \<and> (credentialed orc \<longrightarrow>
        credentialed (snd (startRefinementProcess x orc sid p sel n cb)) \<and>
        credentialed (snd (submitClarification x orc sid answers cb)))"
proof -
  let ?validated = "\<lparr>key_openai = validate_key ''sk-'' (key_openai keys),
        key_anthropic = validate_key ''sk-ant-'' (key_anthropic keys)\<rparr>"
  have keys: "apiKeys (llmClient (setApiKeys orc keys)) = ?validated"
    by (simp add: setApiKeys_def updateAvailableModels_def llm_setApiKeys_def Let_def)
  have "enabledModels (setApiKeys orc keys) =
      Some (filter (\<lambda>m. has_key ?validated (md_provider m)) availableModels)"
    by (simp add: setApiKeys_def updateAvailableModels_def Let_def)
  with keys have set: "credentialed (setApiKeys orc keys)"
    by (simp add: credentialed_def getAvailableModels_def)
  have kept: "credentialed orc'" if "credentialed orc"
    and "enabledModels orc' = enabledModels orc \<and> apiKeys (llmClient orc') = apiKeys (llmClient orc)"
    for orc'
    using that by (simp add: credentialed_def getAvailableModels_def)
  have "credentialed (snd (startRefinementProcess x orc sid p sel n cb))" if "credentialed orc"
    by (rule kept [OF that startRefinementProcess_keeps]) (rule surjective_pairing)
  moreover have "credentialed (snd (submitClarification x orc sid answers cb))" if "credentialed orc"
    by (rule kept [OF that submitClarification_keeps]) (rule surjective_pairing)
  ultimately show ?thesis
    using set keys by (intro conjI impI)
qed

lemma getAvailableModels_credentialed_example:
  "credentialed demo_orchestrator \<and> credentialed demo_parked
   \<and> map md_id (getAvailableModels
        (setApiKeys demo_orchestrator \<lparr>key_openai = Some ''sk-test'', key_anthropic = Some ''no key''\<rparr>)) =
       [''gpt-4o'', ''gpt-4-turbo'', ''gpt-4.1'']"
proof -
  let ?keys = "\<lparr>key_openai = Some ''sk-test'', key_anthropic = Some ''sk-ant-test''\<rparr>"
  from getAvailableModels_credentialed [of new_RefinementOrchestrator ?keys]
  have demo: "credentialed demo_orchestrator"
    by (simp add: demo_orchestrator_def)
  from getAvailableModels_credentialed [of demo_orchestrator _ asking_externals "''session-1''"
      "''Write a haiku''" demo_selection 1 None] demo
  have parked: "credentialed demo_parked"
    by (simp add: demo_parked_def)
  have "map md_id (getAvailableModels
        (setApiKeys demo_orchestrator \<lparr>key_openai = Some ''sk-test'', key_anthropic = Some ''no key''\<rparr>)) =
       [''gpt-4o'', ''gpt-4-turbo'', ''gpt-4.1'']"
    by (simp add: getAvailableModels_def setApiKeys_def updateAvailableModels_def Let_def
        validate_key_def startsWith_def trim_def is_space_def has_key_def availableModels_def)
  with demo parked show ?thesis
    by (intro conjI)
qed


section \<open>Answers that fail validation\<close>

text \<open>
  C9: when \<open>submitClarification\<close> returns the validation error, the session was in the map
  with pending questions, at least one of which has an answer that is absent, blank or
  shorter than three characters once trimmed; afterwards the session is still in the map,
  the same but for the progress callback when the call passed one, so its pending questions
  and its absent refined prompt are as before, and the client and the enabled models are
  unchanged. A later \<open>submitClarification\<close> on the same id whose answers pass the validator
  returns the result of the pipeline, when the provider answers, both providers have a
  client and the session's models are models of the client's table.
\<close>

theorem validation_error_keeps_session:
  assumes "submitClarification x orc sid answers cb = (Failed (ValidationErrors errs), orc')"
  shows "\<exists>s qs. activeSessions orc sid = Some s \<and> pendingClarifications s = Some qs
      \<and> errs = validateClarificationAnswers qs answers
      \<and> (\<exists>q \<in> set qs. rejected_answer answers q)
      \<and> activeSessions orc' = (activeSessions orc)
          (sid \<mapsto> s\<lparr>progressCallback := (case cb of None \<Rightarrow> progressCallback s | Some f \<Rightarrow> Some f)\<rparr>)
      \<and> llmClient orc' = llmClient orc \<and> enabledModels orc' = enabledModels orc
      \<and> (\<forall>x' answers' cb' st.
            validateClarificationAnswers qs answers' = [] \<and> ready x' orc' \<and>
            handoffStrategies (handoffStrategy s) = Some st \<and>
            registered (primaryModel (models s)) \<and>
            (\<forall>j. list_all registered (planned_models orc' st s j)) \<and>
            registered (final_model_of orc' s)
            \<longrightarrow> (\<exists>result orc''.
                   submitClarification x' orc' sid answers' cb' = (Complete sid result, orc'')))"
proof -
  from submitClarification_ValidationErrors [OF assms] obtain s qs where
    s: "activeSessions orc sid = Some s" and qs: "pendingClarifications s = Some qs" and
    errs: "errs = validateClarificationAnswers qs answers" and ne: "errs \<noteq> []"
    by blast
  let ?s1 = "s\<lparr>progressCallback := (case cb of None \<Rightarrow> progressCallback s | Some f \<Rightarrow> Some f)\<rparr>"
  from submitClarification_invalid [OF s qs ne [unfolded errs], of x cb] assms
  have map: "activeSessions orc' = (activeSessions orc)(sid \<mapsto> ?s1)"
    and cl: "llmClient orc' = llmClient orc" and en: "enabledModels orc' = enabledModels orc"
    by auto
  from ne have rej: "\<exists>q \<in> set qs. rejected_answer answers q"
    by (simp add: errs validateClarificationAnswers_rejects)
  have retry: "\<exists>result orc''. submitClarification x' orc' sid answers' cb' = (Complete sid result, orc'')"
    if "validateClarificationAnswers qs answers' = []" and "ready x' orc'"
      and "handoffStrategies (handoffStrategy s) = Some st"
      and "registered (primaryModel (models s))"
      and "\<forall>j. list_all registered (planned_models orc' st s j)"
      and "registered (final_model_of orc' s)" for x' answers' cb' st
  proof (rule submitClarification_succeeds [where s = ?s1 and qs = qs and st = st])
    show "activeSessions orc' sid = Some ?s1"
      by (simp add: map)
    show "pendingClarifications ?s1 = Some qs"
      by (simp add: qs)
    show "validateClarificationAnswers qs answers' = []"
      by (rule that(1))
    show "ready x' orc'"
      by (rule that(2))
    show "handoffStrategies (handoffStrategy ?s1) = Some st"
      using that(3) by simp
    show "registered (primaryModel (models ?s1))"
      using that(4) by simp
    have m1: "models ?s1 = models s" "targetIterations ?s1 = targetIterations s"
      by simp_all
    show "list_all registered (planned_models orc' st ?s1 j)" for j
      using that(5) [THEN spec, of j] unfolding planned_models_def model_of_cong [OF refl m1] .
    show "registered (final_model_of orc' ?s1)"
      using that(6) by (simp add: final_model_of_def split: if_splits)
  qed
  from s qs errs rej map cl en retry show ?thesis
    by (intro exI [of _ s] exI [of _ qs] conjI allI impI; (elim conjE)?) simp_all
qed

theorem validation_error_keeps_session_witness:
  "fst (submitClarification echo_externals demo_parked ''session-1'' Map.empty None) =
     Failed (ValidationErrors
       [''Please answer: Could you provide more specific details about what you want to achieve with this request?''])
   \<and> (\<exists>result orc''.
        submitClarification echo_externals
          (snd (submitClarification echo_externals demo_parked ''session-1'' Map.empty None))
          ''session-1'' [''q1'' \<mapsto> ''A haiku about autumn''] None =
        (Complete ''session-1'' result, orc''))"
proof -
  let ?s0 = "(new_session asking_externals demo_orchestrator ''session-1'' ''Write a haiku''
            demo_selection 1 None)\<lparr>pendingClarifications := Some [generic_question]\<rparr>"
  from demo_parked obtain c where
    parked: "demo_parked = demo_orchestrator\<lparr>llmClient := c,
        activeSessions := (activeSessions demo_orchestrator)(''session-1'' \<mapsto> ?s0)\<rparr>" and
    cl: "openaiClient c = Some ''sk-test''" "anthropicClient c = Some ''sk-ant-test''"
    by (elim exE conjE)
  define s0 where "s0 = ?s0"
  let ?submit = "submitClarification echo_externals demo_parked ''session-1'' Map.empty None"
  have there: "activeSessions demo_parked ''session-1'' = Some s0"
    "pendingClarifications s0 = Some [generic_question]"
    by (simp_all add: parked s0_def)
  have c: "llmClient demo_parked = c"
    by (simp add: parked)
  from submitClarification_invalid [OF there, of Map.empty echo_externals None]
  have reply: "fst ?submit = Failed (ValidationErrors
       [''Please answer: Could you provide more specific details about what you want to achieve with this request?''])"
    by (auto simp: answers_checked)
  then have run: "?submit = (Failed (ValidationErrors
       [''Please answer: Could you provide more specific details about what you want to achieve with this request?'']), snd ?submit)"
    by (simp add: prod_eq_iff)
  from validation_error_keeps_session [OF run] there obtain
    client: "llmClient (snd ?submit) = llmClient demo_parked" and
    retry: "\<forall>x' answers' cb' st.
            validateClarificationAnswers [generic_question] answers' = [] \<and> ready x' (snd ?submit) \<and>
            handoffStrategies (handoffStrategy s0) = Some st \<and>
            registered (primaryModel (models s0)) \<and>
            (\<forall>j. list_all registered (planned_models (snd ?submit) st s0 j)) \<and>
            registered (final_model_of (snd ?submit) s0)
            \<longrightarrow> (\<exists>result orc''.
                   submitClarification x' (snd ?submit) ''session-1'' answers' cb' =
                   (Complete ''session-1'' result, orc''))"
    by auto
  have "ready echo_externals (snd ?submit)"
    unfolding ready_def client c by (simp add: responsive_echo cl)
  moreover have "handoffStrategies (handoffStrategy s0) = Some model_specialization"
    by (simp add: s0_def new_session_simps handoffStrategies_def)
  moreover have "registered (primaryModel (models s0))"
    by (simp add: s0_def new_session_simps registered_models)
  moreover have "\<forall>j. list_all registered (planned_models (snd ?submit) model_specialization s0 j)"
    by (simp add: planned_specialization registered_models)
  moreover have "registered (final_model_of (snd ?submit) s0)"
    by (simp add: final_model_of_def s0_def new_session_simps truthy_def js_text_def registered_models)
  ultimately have "\<exists>result orc''.
      submitClarification echo_externals (snd ?submit) ''session-1''
        [''q1'' \<mapsto> ''A haiku about autumn''] None = (Complete ''session-1'' result, orc'')"
    using retry answers_checked(2) by blast
  with reply show ?thesis
    by (intro conjI)
qed


section \<open>The clarification questions of an answer\<close>

text \<open>
  C10: \<open>parseClarificationQuestions\<close> never returns an empty list. When the pattern
  \<open>QUESTION_n:\<close> matches, the questions are the texts of all the matches that are not
  blank, however many they are; only when the pattern does not match at all are the lines
  scanned, and then at most four questions are returned. An answer with five labelled
  questions gives five questions.
\<close>

theorem parseClarificationQuestions_cap:
  "parseClarificationQuestions questionsText \<noteq> []
   \<and> (match_all question_match questionsText = [] \<longrightarrow>
        length (parseClarificationQuestions questionsText) \<le> 4)
   \<and> (filter (\<lambda>t. t \<noteq> [])
         (map (\<lambda>m. trim (remove_question_label m)) (match_all question_match questionsText)) \<noteq> [] \<longrightarrow>
        map q_text (parseClarificationQuestions questionsText) =
          filter (\<lambda>t. t \<noteq> [])
            (map (\<lambda>m. trim (remove_question_label m)) (match_all question_match questionsText)))
   \<and> length (match_all question_match five_questions) = 5
   \<and> length (parseClarificationQuestions five_questions) = 5"
proof -
  let ?ms = "match_all question_match questionsText"
  let ?texts = "filter (\<lambda>t. t \<noteq> []) (map (\<lambda>m. trim (remove_question_label m)) ?ms)"
  have nonempty: "parseClarificationQuestions questionsText \<noteq> []"
    by (simp add: parseClarificationQuestions_def Let_def)
  have fallback: "length (parseClarificationQuestions questionsText) \<le> 4" if "?ms = []"
    using that scan_lines_cap [of 0 "split_where (\<lambda>c. c = CHR 0x0A) questionsText"]
    by (simp add: parseClarificationQuestions_def Let_def generic_question_def)
  have primary: "map q_text (parseClarificationQuestions questionsText) = ?texts" if "?texts \<noteq> []"
  proof -
    from that have "?ms \<noteq> []"
      by auto
    moreover from that have "questions_of_matches 0 ?ms \<noteq> []"
      using questions_of_matches_text [of 0 ?ms] by auto
    ultimately show ?thesis
      by (simp add: parseClarificationQuestions_def Let_def questions_of_matches_text)
  qed
  have five: "length (parseClarificationQuestions five_questions) = 5"
    using arg_cong [OF question_examples(2), of length] by simp
  from nonempty fallback primary question_examples(1) five show ?thesis
    by (intro conjI impI)
qed

theorem parseClarificationQuestions_cap_witness:
  "match_all question_match plain_questions = []
   \<and> length (split_where (\<lambda>c. c = CHR 0x0A) plain_questions) = 5
   \<and> length (parseClarificationQuestions plain_questions) \<le> 4
   \<and> map q_id (parseClarificationQuestions plain_questions) = [''q1'', ''q2'', ''q3'', ''q4'']
   \<and> map q_text (parseClarificationQuestions five_questions) =
       [''Who is the audience?'', ''What tone do you want?'', ''How long should it be?'',
        ''Which format do you need?'', ''Is there a deadline?'']"
proof -
  have texts: "filter (\<lambda>t. t \<noteq> [])
         (map (\<lambda>m. trim (remove_question_label m)) (match_all question_match five_questions)) =
       [''Who is the audience?'', ''What tone do you want?'', ''How long should it be?'',
        ''Which format do you need?'', ''Is there a deadline?'']"
    by code_simp
  from parseClarificationQuestions_cap [of plain_questions] question_examples(3)
  have "length (parseClarificationQuestions plain_questions) \<le> 4"
    by simp
  moreover from parseClarificationQuestions_cap [of five_questions] texts
  have "map q_text (parseClarificationQuestions five_questions) =
       [''Who is the audience?'', ''What tone do you want?'', ''How long should it be?'',
        ''Which format do you need?'', ''Is there a deadline?'']"
    by simp
  ultimately show ?thesis
    using question_examples(3,4,5) by (intro conjI)
qed

end
